theory Spec2Isabelle
  imports Main "HOL-Library.AList"
begin

section \<open>JavaScript values\<close>

text \<open>
  The JavaScript values that cross the call boundary of \<^verbatim>\<open>cloudify.ts\<close>
  and \<^verbatim>\<open>aws/aws-cloudify.ts\<close>: \<^verbatim>\<open>undefined\<close> and the data that
  \<^verbatim>\<open>JSON.parse\<close> and the process channel produce. An object is a plain
  object (its prototype is \<^verbatim>\<open>Object.prototype\<close>), given as the list of its
  own properties in \<^verbatim>\<open>Object.keys\<close> order; it holds data, no function and no
  accessor. A number is a safe integer, one of magnitude below \<open>2^53\<close>: these
  are the numbers a double holds exactly and prints digit by digit.
\<close>

typedef safe_integer = "{n :: int. - 9007199254740992 < n \<and> n < 9007199254740992}"
  by (rule exI [of _ 0]) simp

datatype jsval =
    JUndefined
  | JNull
  | JBool bool
  | JNum safe_integer
  | JStr string
  | JArr "jsval list"
  | JObj "(string \<times> jsval) list"

text \<open>ToBoolean: what \<^verbatim>\<open>if (v)\<close>, \<^verbatim>\<open>!v\<close> and the left operand of \<^verbatim>\<open>v && w\<close> are tested for.\<close>

fun truthy :: "jsval \<Rightarrow> bool" where
  "truthy JUndefined = False"
| "truthy JNull = False"
| "truthy (JBool b) = b"
| "truthy (JNum n) = (Rep_safe_integer n \<noteq> 0)"
| "truthy (JStr s) = (s \<noteq> [])"
| "truthy (JArr xs) = True"
| "truthy (JObj ps) = True"

section \<open>Error objects\<close>

text \<open>
  The \<^verbatim>\<open>stack\<close> of an \<^verbatim>\<open>Error\<close> is the trace the engine captured where the
  object was constructed, until the code assigns the property.
\<close>

datatype js_stack = CapturedTrace | Assigned jsval

record js_error =
  e_name :: jsval
  e_message :: string
  e_stack :: js_stack

text \<open>
  What can be thrown (or what a promise is rejected with): the engine's
  \<^verbatim>\<open>TypeError\<close> (for a property read on \<^verbatim>\<open>undefined\<close> or \<^verbatim>\<open>null\<close>, and
  for an object that cannot be converted to a primitive value), the
  \<^verbatim>\<open>SyntaxError\<close> of \<^verbatim>\<open>JSON.parse\<close>, a rejection reason passed on
  unchanged, and an \<^verbatim>\<open>Error\<close> object built by the code itself.
\<close>

datatype thrown = TypeError | SyntaxError | Rejection jsval | Raised js_error

text \<open>
  Property read \<^verbatim>\<open>v.p\<close>. It throws on \<^verbatim>\<open>undefined\<close> and \<^verbatim>\<open>null\<close>; an
  object gives its own property or \<^verbatim>\<open>undefined\<close>. Members inherited from
  the prototypes (\<^verbatim>\<open>length\<close>, \<^verbatim>\<open>toString\<close>, ...) are left out: the code
  reads \<^verbatim>\<open>type\<close>, \<^verbatim>\<open>value\<close>, \<^verbatim>\<open>name\<close>, \<^verbatim>\<open>message\<close> and \<^verbatim>\<open>stack\<close>
  only, and no prototype of these values has a member of such a name.
\<close>

fun get_prop :: "jsval \<Rightarrow> string \<Rightarrow> thrown + jsval" where
  "get_prop JUndefined p = Inl TypeError"
| "get_prop JNull p = Inl TypeError"
| "get_prop (JObj ps) p = Inr (case map_of ps p of Some v \<Rightarrow> v | None \<Rightarrow> JUndefined)"
| "get_prop v p = Inr JUndefined"

text \<open>Decimal text of a number, for ToString.\<close>

fun digits :: "nat \<Rightarrow> string" where
  "digits n = (if n < 10 then [''0123456789'' ! n]
               else digits (n div 10) @ [''0123456789'' ! (n mod 10)])"

declare digits.simps [simp del]

definition show_int :: "int \<Rightarrow> string" where
  "show_int i = (if i < 0 then CHR ''-'' # digits (nat (- i)) else digits (nat i))"

fun join :: "string \<Rightarrow> string list \<Rightarrow> string" where
  "join sep [] = []"
| "join sep [s] = s"
| "join sep (s # t # ss) = s @ sep @ join sep (t # ss)"

text \<open>
  The results of a list of conversions, in order: the first throw, or all the
  texts.
\<close>

fun all_texts :: "(thrown + string) list \<Rightarrow> thrown + string list" where
  "all_texts [] = Inr []"
| "all_texts (Inl t # rs) = Inl t"
| "all_texts (Inr s # rs) = (case all_texts rs of Inl t \<Rightarrow> Inl t | Inr ss \<Rightarrow> Inr (s # ss))"

text \<open>
  ToString, as \<^verbatim>\<open>new Error(m)\<close> applies it to a message that is not
  \<^verbatim>\<open>undefined\<close>. An array is converted by \<^verbatim>\<open>Array.prototype.join\<close>: its
  elements in order, \<^verbatim>\<open>undefined\<close> and \<^verbatim>\<open>null\<close> giving the empty text, with
  commas between. A plain object is converted by its \<^verbatim>\<open>toString\<close>, then its
  \<^verbatim>\<open>valueOf\<close>: without an own property \<^verbatim>\<open>toString\<close> this is
  \<^verbatim>\<open>Object.prototype.toString\<close>; with one, which holds data and cannot be
  called, neither an own \<^verbatim>\<open>valueOf\<close> (data again) nor the inherited one (it
  returns the object) gives a primitive value, and the conversion throws a
  \<^verbatim>\<open>TypeError\<close>.
\<close>

fun ToString :: "jsval \<Rightarrow> thrown + string" where
  "ToString JUndefined = Inr ''undefined''"
| "ToString JNull = Inr ''null''"
| "ToString (JBool b) = Inr (if b then ''true'' else ''false'')"
| "ToString (JNum n) = Inr (show_int (Rep_safe_integer n))"
| "ToString (JStr s) = Inr s"
| "ToString (JArr xs) =
     (case all_texts (map (\<lambda>x. if x = JUndefined \<or> x = JNull then Inr [] else ToString x) xs) of
        Inl t \<Rightarrow> Inl t
      | Inr ss \<Rightarrow> Inr (join '','' ss))"
| "ToString (JObj ps) =
     (case map_of ps ''toString'' of
        None \<Rightarrow> Inr ''[object Object]''
      | Some v \<Rightarrow> Inl TypeError)"

text \<open>
  \<^verbatim>\<open>new Error(m)\<close>: the name is the inherited \<^verbatim>\<open>"Error"\<close>; the message is
  the inherited empty string when \<^verbatim>\<open>m\<close> is \<^verbatim>\<open>undefined\<close>, else ToString of
  \<^verbatim>\<open>m\<close>, whose throw the constructor passes on.
\<close>

definition new_Error :: "jsval \<Rightarrow> thrown + js_error" where
  "new_Error m =
     (if m = JUndefined
      then Inr \<lparr> e_name = JStr ''Error'', e_message = [], e_stack = CapturedTrace \<rparr>
      else (case ToString m of
              Inl t \<Rightarrow> Inl t
            | Inr s \<Rightarrow> Inr \<lparr> e_name = JStr ''Error'', e_message = s, e_stack = CapturedTrace \<rparr>))"

section \<open>The call and return envelopes\<close>

text \<open>
  \<^verbatim>\<open>FunctionCall\<close> and \<^verbatim>\<open>FunctionReturn\<close> are declared in
  \<^verbatim>\<open>./shared\<close>; the fields are the ones \<^verbatim>\<open>cloudify.ts\<close> writes and reads.
  The fields of a Return carry the prefix \<open>ret_\<close> where the source's name
  (\<^verbatim>\<open>type\<close>, \<^verbatim>\<open>value\<close>, \<^verbatim>\<open>CallId\<close>, \<^verbatim>\<open>rawResponse\<close>) is taken.
  An optional field that is absent is \<open>None\<close>.
\<close>

record FunctionCall =
  name :: string
  args :: "jsval list"
  CallId :: string
  start :: int

record FunctionReturn =
  ret_type :: string
  ret_value :: jsval
  ret_CallId :: string
  executionStart :: "int option"
  executionEnd :: "int option"
  ret_rawResponse :: jsval

text \<open>
  \<^verbatim>\<open>ResponseDetails\<close>. The \<^verbatim>\<open>value\<close> and \<^verbatim>\<open>error\<close> properties are always
  written (\<^verbatim>\<open>error\<close> as \<^verbatim>\<open>undefined\<close> when there is none, here \<open>None\<close>);
  the three latencies are absent unless spread into the object.
\<close>

record 'r ResponseDetails =
  resp_value :: jsval
  resp_error :: "js_error option"
  resp_rawResponse :: 'r
  startLatency :: "int option"
  executionLatency :: "int option"
  returnLatency :: "int option"

text \<open>The object \<^verbatim>\<open>latencies\<close> of \<^verbatim>\<open>processResponse\<close>.\<close>

record latencies =
  lat_execution :: int
  lat_start :: int
  lat_return :: int

section \<open>The metrics ledger\<close>

text \<open>
  Modelled from the spec: \<^verbatim>\<open>FunctionMetricsMap\<close> of \<^verbatim>\<open>./shared\<close>, which is
  not among the sources. Per function name it holds the completed and error
  counters and, for each of the three latencies, a running average, kept here
  as the number of samples merged and their sum. A name never seen has the
  zero entry.
\<close>

record Statistics =
  samples :: nat
  total :: int

record FunctionMetrics =
  completed :: nat
  errors :: nat
  startLatencyStats :: Statistics
  executionLatencyStats :: Statistics
  returnLatencyStats :: Statistics

type_synonym FunctionMetricsMap = "string \<Rightarrow> FunctionMetrics"

definition no_samples :: Statistics where
  "no_samples = \<lparr> samples = 0, total = 0 \<rparr>"

definition new_FunctionMetricsMap :: FunctionMetricsMap where
  "new_FunctionMetricsMap =
     (\<lambda>fn. \<lparr> completed = 0, errors = 0, startLatencyStats = no_samples,
              executionLatencyStats = no_samples, returnLatencyStats = no_samples \<rparr>)"

definition update_stat :: "int \<Rightarrow> Statistics \<Rightarrow> Statistics" where
  "update_stat x st = \<lparr> samples = Suc (samples st), total = total st + x \<rparr>"

definition increment :: "string \<Rightarrow> string \<Rightarrow> FunctionMetricsMap \<Rightarrow> FunctionMetricsMap" where
  "increment fn key metrics =
     (if key = ''completed'' then metrics(fn := (metrics fn)\<lparr> completed := Suc (completed (metrics fn)) \<rparr>)
      else if key = ''errors'' then metrics(fn := (metrics fn)\<lparr> errors := Suc (errors (metrics fn)) \<rparr>)
      else metrics)"

definition updateMany :: "string \<Rightarrow> latencies \<Rightarrow> FunctionMetricsMap \<Rightarrow> FunctionMetricsMap" where
  "updateMany fn l metrics =
     metrics(fn := (metrics fn)
       \<lparr> startLatencyStats := update_stat (lat_start l) (startLatencyStats (metrics fn)),
         executionLatencyStats := update_stat (lat_execution l) (executionLatencyStats (metrics fn)),
         returnLatencyStats := update_stat (lat_return l) (returnLatencyStats (metrics fn)) \<rparr>)"

section \<open>Building the response\<close>

text \<open>
  The block shared by \<^verbatim>\<open>processResponse\<close> (lines 103 to 106) and the AWS
  \<^verbatim>\<open>cloudifyWithResponse\<close> (lines 264 to 267):
  \<^verbatim>\<open>error = new Error(errValue.message); error.name = errValue.name;
  error.stack = errValue.stack\<close>. Each property read throws when
  \<^verbatim>\<open>errValue\<close> is \<^verbatim>\<open>undefined\<close> or \<^verbatim>\<open>null\<close>, and the constructor
  throws when the message cannot be converted to a string.
\<close>

definition rebuild_error :: "jsval \<Rightarrow> thrown + js_error" where
  "rebuild_error errValue =
     (case get_prop errValue ''message'' of
        Inl t \<Rightarrow> Inl t
      | Inr m \<Rightarrow>
          (case new_Error m of
             Inl t \<Rightarrow> Inl t
           | Inr error \<Rightarrow>
               (case get_prop errValue ''name'' of
                  Inl t \<Rightarrow> Inl t
                | Inr n \<Rightarrow>
                    (case get_prop errValue ''stack'' of
                       Inl t \<Rightarrow> Inl t
                     | Inr s \<Rightarrow> Inr (error\<lparr> e_name := n, e_stack := Assigned s \<rparr>)))))"

text \<open>
  \<^verbatim>\<open>processResponse(returned, callRequest, metrics)\<close>. The reading of
  \<^verbatim>\<open>Date.now()\<close> on line 120 is the argument \<open>now\<close>; the ledger is passed
  in and returned. A throw happens before the ledger is touched, so it leaves
  the ledger as it was. The test
  \<^verbatim>\<open>returned.executionStart && returned.executionEnd\<close> is one of truthiness:
  it fails for an absent timestamp and for the number \<open>0\<close>.
\<close>

definition processResponse ::
  "FunctionReturn \<Rightarrow> FunctionCall \<Rightarrow> int \<Rightarrow> FunctionMetricsMap
     \<Rightarrow> (thrown + jsval ResponseDetails) \<times> FunctionMetricsMap" where
  "processResponse returned callRequest now metrics =
     (case (if ret_type returned = ''error''
            then map_sum id Some (rebuild_error (ret_value returned))
            else Inr None) of
        Inl t \<Rightarrow> (Inl t, metrics)
      | Inr error \<Rightarrow>
          (let value = (if error \<noteq> None then JBool False else ret_value returned);
               rv = \<lparr> resp_value = value, resp_error = error,
                      resp_rawResponse = ret_rawResponse returned,
                      startLatency = None, executionLatency = None, returnLatency = None \<rparr>;
               fn = name callRequest;
               metrics1 = increment fn ''completed'' metrics;
               (rv2, metrics2) =
                 (case (executionStart returned, executionEnd returned) of
                    (Some es, Some ee) \<Rightarrow>
                      if es \<noteq> 0 \<and> ee \<noteq> 0
                      then
                        (let l = \<lparr> lat_execution = ee - es,
                                   lat_start = es - start callRequest,
                                   lat_return = now - ee \<rparr>
                         in (rv\<lparr> executionLatency := Some (lat_execution l),
                                 startLatency := Some (lat_start l),
                                 returnLatency := Some (lat_return l) \<rparr>,
                             updateMany fn l metrics1))
                      else (rv, metrics1)
                  | _ \<Rightarrow> (rv, metrics1));
               metrics3 = (if error \<noteq> None then increment fn ''errors'' metrics2 else metrics2)
           in (Inr rv2, metrics3)))"

section \<open>The function facade\<close>

text \<open>
  What a backend's \<^verbatim>\<open>callFunction\<close> promise settles with: a Return, or a
  rejection with any reason.
\<close>

datatype outcome = Resolved FunctionReturn | Rejected jsval

text \<open>
  \<^verbatim>\<open>CloudFunction\<close>: the backend's \<^verbatim>\<open>callFunction\<close> (which may change the
  backend state), the state and the ledger.
\<close>

record 's CloudFunction =
  callFunction :: "'s \<Rightarrow> FunctionCall \<Rightarrow> outcome \<times> 's"
  state :: 's
  functionMetrics :: FunctionMetricsMap

text \<open>
  What one invocation reads from its environment: the result of \<^verbatim>\<open>uuidv4()\<close>
  and of the calls of \<^verbatim>\<open>Date.now()\<close> on line 170 (submission), line 180
  (in the rejection handler) and line 120 (in \<^verbatim>\<open>processResponse\<close>).
\<close>

record readings =
  uuid :: string
  submitted_at :: int
  failed_at :: int
  processed_at :: int

text \<open>The object \<^verbatim>\<open>callRequest\<close> of line 171; \<open>fname\<close> is \<^verbatim>\<open>fn.name\<close>.\<close>

definition callRequest :: "string \<Rightarrow> jsval list \<Rightarrow> readings \<Rightarrow> FunctionCall" where
  "callRequest fname as rd =
     \<lparr> name = fname, args = as, CallId = uuid rd, start = submitted_at rd \<rparr>"

text \<open>The Return built by the rejection handler, lines 175 to 181.\<close>

definition synthesized :: "jsval \<Rightarrow> readings \<Rightarrow> FunctionReturn" where
  "synthesized v rd =
     \<lparr> ret_type = ''error'', ret_value = v, ret_CallId = uuid rd,
       executionStart = Some (submitted_at rd), executionEnd = Some (failed_at rd),
       ret_rawResponse = JUndefined \<rparr>"

text \<open>
  A proxy takes the facade it closes over, the arguments and the readings,
  and gives what the returned promise settles with (\<open>Inl\<close>: rejected) and the
  facade afterwards.
\<close>

type_synonym ('s, 'a) proxy =
  "'s CloudFunction \<Rightarrow> jsval list \<Rightarrow> readings \<Rightarrow> (thrown + 'a) \<times> 's CloudFunction"

definition cloudifyWithResponse :: "string \<Rightarrow> ('s, jsval ResponseDetails) proxy" where
  "cloudifyWithResponse fname this as rd =
     (let req = callRequest fname as rd;
          (settled, st) = callFunction this (state this) req;
          rv = (case settled of Resolved r \<Rightarrow> r | Rejected v \<Rightarrow> synthesized v rd);
          (res, metrics) = processResponse rv req (processed_at rd) (functionMetrics this)
      in (res, this\<lparr> state := st, functionMetrics := metrics \<rparr>))"

definition cloudify :: "string \<Rightarrow> ('s, jsval) proxy" where
  "cloudify fname this as rd =
     (case cloudifyWithResponse fname this as rd of
        (Inl t, this') \<Rightarrow> (Inl t, this')
      | (Inr response, this') \<Rightarrow>
          (case resp_error response of
             Some e \<Rightarrow> (Inl (Raised e), this')
           | None \<Rightarrow> (Inr (resp_value response), this')))"


text \<open>
  \<^verbatim>\<open>cloudifyAll\<close> and \<^verbatim>\<open>cloudifyAllWithResponse\<close>. A member of a
  namespace is a function, given by its \<^verbatim>\<open>name\<close> and its source text, or
  data. A namespace is the list
  of its own enumerable properties; \<^verbatim>\<open>module[name]\<close> is a lookup, and
  \<^verbatim>\<open>rv[name] = ...\<close> writes the property in place or appends it. The loop
  runs on the two objects it can reach, the namespace passed in and the
  fresh \<^verbatim>\<open>rv\<close>, and yields both; the function returns \<^verbatim>\<open>rv\<close>.
\<close>

datatype member = JFun string string | JValue jsval

definition Object_keys :: "(string \<times> 'a) list \<Rightarrow> string list" where
  "Object_keys obj = map fst obj"

definition cloudifyAll_loop ::
  "(string \<times> member) list \<Rightarrow> (string \<times> member) list \<times> (string \<times> ('s, jsval) proxy) list" where
  "cloudifyAll_loop module =
     foldl (\<lambda>(module, rv) key.
              (case map_of module key of
                 Some (JFun n src) \<Rightarrow> (module, AList.update key (cloudify n) rv)
               | _ \<Rightarrow> (module, rv)))
       (module, []) (Object_keys module)"

definition cloudifyAll :: "(string \<times> member) list \<Rightarrow> (string \<times> ('s, jsval) proxy) list" where
  "cloudifyAll module = snd (cloudifyAll_loop module)"

definition cloudifyAllWithResponse_loop ::
  "(string \<times> member) list
     \<Rightarrow> (string \<times> member) list \<times> (string \<times> ('s, jsval ResponseDetails) proxy) list" where
  "cloudifyAllWithResponse_loop module =
     foldl (\<lambda>(module, rv) key.
              (case map_of module key of
                 Some (JFun n src) \<Rightarrow> (module, AList.update key (cloudifyWithResponse n) rv)
               | _ \<Rightarrow> (module, rv)))
       (module, []) (Object_keys module)"

definition cloudifyAllWithResponse ::
  "(string \<times> member) list \<Rightarrow> (string \<times> ('s, jsval ResponseDetails) proxy) list" where
  "cloudifyAllWithResponse module = snd (cloudifyAllWithResponse_loop module)"

text \<open>
  The lifetime of one facade: a sequence of invocations of its proxies, each
  with its function name, arguments and readings.
\<close>

datatype invocation =
    WithResponse string "jsval list" readings
  | Unwrapped string "jsval list" readings

fun readings_of :: "invocation \<Rightarrow> readings" where
  "readings_of (WithResponse fname as rd) = rd"
| "readings_of (Unwrapped fname as rd) = rd"

fun invoke1 :: "'s CloudFunction \<Rightarrow> invocation \<Rightarrow> 's CloudFunction" where
  "invoke1 this (WithResponse fname as rd) = snd (cloudifyWithResponse fname this as rd)"
| "invoke1 this (Unwrapped fname as rd) = snd (cloudify fname this as rd)"

definition lifetime :: "'s CloudFunction \<Rightarrow> invocation list \<Rightarrow> 's CloudFunction" where
  "lifetime this invs = foldl invoke1 this invs"

text \<open>
  A backend that keeps, besides its own state, the list of the Calls it was
  given.
\<close>

definition recording ::
  "('s \<Rightarrow> FunctionCall \<Rightarrow> outcome \<times> 's)
     \<Rightarrow> ('s \<times> FunctionCall list \<Rightarrow> FunctionCall \<Rightarrow> outcome \<times> ('s \<times> FunctionCall list))" where
  "recording cf = (\<lambda>(s, seen) call. (case cf s call of (out, s') \<Rightarrow> (out, (s', seen @ [call]))))"

text \<open>
  \<^verbatim>\<open>uuidv4\<close> of the package \<^verbatim>\<open>uuid\<close>, by its contract: it never returns
  the same identifier twice. The source is the sequence of the values it
  returns to its callers, and its state is the number of values drawn so far.
\<close>

typedef uuid_source = "{f :: nat \<Rightarrow> string. inj f}"
proof
  show "(\<lambda>n. replicate n CHR ''u'') \<in> {f :: nat \<Rightarrow> string. inj f}"
    by (auto simp: inj_on_def dest: arg_cong [where f = length])
qed

definition uuidv4 :: "uuid_source \<Rightarrow> nat \<Rightarrow> string \<times> nat" where
  "uuidv4 src drawn = (Rep_uuid_source src drawn, Suc drawn)"

text \<open>
  The invocations of one facade with the identifier each of them reads: an
  invocation calls \<^verbatim>\<open>uuidv4()\<close> once, on line 169. The generator is shared
  with the rest of the process, so each invocation comes with the number of
  identifiers that were drawn elsewhere since the invocation before it.
\<close>

fun with_uuid :: "string \<Rightarrow> invocation \<Rightarrow> invocation" where
  "with_uuid u (WithResponse fname as rd) = WithResponse fname as (rd\<lparr> uuid := u \<rparr>)"
| "with_uuid u (Unwrapped fname as rd) = Unwrapped fname as (rd\<lparr> uuid := u \<rparr>)"

fun drawing :: "uuid_source \<Rightarrow> nat \<Rightarrow> (nat \<times> invocation) list \<Rightarrow> invocation list" where
  "drawing src drawn [] = []"
| "drawing src drawn ((elsewhere, i) # invs) =
     (case uuidv4 src (drawn + elsewhere) of
        (u, drawn') \<Rightarrow> with_uuid u i # drawing src drawn' invs)"

section \<open>The AWS direct path\<close>

text \<open>
  \<^verbatim>\<open>cloudifyWithResponse\<close> of \<^verbatim>\<open>aws/aws-cloudify.ts\<close>. \<^verbatim>\<open>JSON.stringify\<close>
  and \<^verbatim>\<open>JSON.parse\<close> are parameters (\<open>parse\<close> gives \<open>None\<close> where it
  throws its \<^verbatim>\<open>SyntaxError\<close>), and so is \<^verbatim>\<open>state.lambda.invoke\<close>, whose
  promise is rejected (\<open>Inl\<close>) or resolves with the invocation response. The
  calls of \<^verbatim>\<open>log\<close> do not bear on the result and are left out.
\<close>

record JSON =
  stringify :: "jsval \<Rightarrow> string"
  parse :: "string \<Rightarrow> jsval option"

record InvocationRequest =
  req_FunctionName :: string
  req_LogType :: string
  req_Payload :: string

record InvocationResponse =
  FunctionError :: "string option"
  LogResult :: "string option"
  Payload :: "string option"

text \<open>An optional string property as a value.\<close>

definition opt_str :: "string option \<Rightarrow> jsval" where
  "opt_str s = (case s of None \<Rightarrow> JUndefined | Some t \<Rightarrow> JStr t)"

text \<open>The object \<^verbatim>\<open>callArgs\<close> of lines 238 to 241.\<close>

definition callArgs :: "string \<Rightarrow> jsval list \<Rightarrow> jsval" where
  "callArgs fname as = JObj [(''name'', JStr fname), (''args'', JArr as)]"

definition aws_cloudifyWithResponse ::
  "JSON \<Rightarrow> (InvocationRequest \<Rightarrow> jsval + InvocationResponse) \<Rightarrow> string
     \<Rightarrow> string \<Rightarrow> jsval list \<Rightarrow> thrown + InvocationResponse ResponseDetails" where
  "aws_cloudifyWithResponse json invoke stateFunctionName fname as =
     (let callArgsStr = stringify json (callArgs fname as);
          request = \<lparr> req_FunctionName = stateFunctionName, req_LogType = ''Tail'',
                       req_Payload = callArgsStr \<rparr>
      in case invoke request of
           Inl reason \<Rightarrow> Inl (Rejection reason)
         | Inr rawResponse \<Rightarrow>
             (case (if truthy (opt_str (FunctionError rawResponse))
                    then map_sum id Some (new_Error (opt_str (Payload rawResponse)))
                    else Inr None) of
                Inl t \<Rightarrow> Inl t
              | Inr error0 \<Rightarrow>
                 case (if error0 \<noteq> None then Inr (JBool False)
                       else (case Payload rawResponse of
                               None \<Rightarrow> Inr JUndefined
                             | Some p \<Rightarrow>
                                 if p = [] then Inr (JStr [])
                                 else (case parse json p of
                                         None \<Rightarrow> Inl SyntaxError
                                       | Some v \<Rightarrow> Inr v))) of
                   Inl t \<Rightarrow> Inl t
                 | Inr returned \<Rightarrow>
                     (case (if truthy returned
                            then (case get_prop returned ''type'' of
                                    Inl t \<Rightarrow> Inl t
                                  | Inr ty \<Rightarrow>
                                      if ty = JStr ''error''
                                      then (case get_prop returned ''value'' of
                                              Inl t \<Rightarrow> Inl t
                                            | Inr errValue \<Rightarrow> map_sum id Some (rebuild_error errValue))
                                      else Inr error0)
                            else Inr error0) of
                        Inl t \<Rightarrow> Inl t
                      | Inr error \<Rightarrow>
                          (case (if error \<noteq> None then Inr (JBool False)
                                 else if truthy returned then get_prop returned ''value''
                                 else Inr returned) of
                             Inl t \<Rightarrow> Inl t
                           | Inr value \<Rightarrow>
                               Inr \<lparr> resp_value = value, resp_error = error,
                                     resp_rawResponse = rawResponse,
                                     startLatency = None, executionLatency = None,
                                     returnLatency = None \<rparr>))))"


section \<open>Cleanup of the AWS resources\<close>

text \<open>
  The requests \<^verbatim>\<open>cleanup\<close> and \<^verbatim>\<open>deleteRole\<close> build on the service handles
  \<^verbatim>\<open>lambda\<close>, \<^verbatim>\<open>iam\<close> and \<^verbatim>\<open>cloudwatch\<close>, and what they answer. The
  services are a parameter: a function that, given a request and the state of
  the cloud, fails with an \<^verbatim>\<open>AWSError\<close> or answers, and gives the state
  of the cloud afterwards. Nothing is assumed about it.
\<close>

datatype AWSError = AWSError string

record AttachedPolicy =
  PolicyName :: "string option"
  PolicyArn :: "string option"

datatype aws_request =
    DeleteFunction string
  | ListAttachedRolePolicies string
  | DetachRolePolicy string "string option"
  | DeleteRolePolicy string string
  | DeleteRole string
  | DeleteLogGroup string

datatype aws_response = Empty | ListAttachedRolePoliciesResponse "AttachedPolicy list option"

type_synonym 'w services = "aws_request \<Rightarrow> 'w \<Rightarrow> (AWSError + aws_response) \<times> 'w"

text \<open>What \<^verbatim>\<open>log\<close> was called with: a message, or an error object.\<close>

datatype log_entry = Message string | Logged AWSError

text \<open>
  An asynchronous computation runs on the state of the cloud and the log, and
  its promise is rejected (\<open>Inl\<close>) or resolves (\<open>Inr\<close>). \<open>await\<close> passes a
  rejection on, as \<^verbatim>\<open>await\<close> does in an \<^verbatim>\<open>async\<close> function.
\<close>

type_synonym ('w, 'a) async = "'w \<times> log_entry list \<Rightarrow> (AWSError + 'a) \<times> ('w \<times> log_entry list)"

definition resolve :: "'a \<Rightarrow> ('w, 'a) async" where
  "resolve x = (\<lambda>s. (Inr x, s))"

definition await :: "('w, 'a) async \<Rightarrow> ('a \<Rightarrow> ('w, 'b) async) \<Rightarrow> ('w, 'b) async" where
  "await p k = (\<lambda>s. case p s of (Inl err, s') \<Rightarrow> (Inl err, s') | (Inr x, s') \<Rightarrow> k x s')"

definition log :: "log_entry \<Rightarrow> ('w, unit) async" where
  "log e = (\<lambda>(w, lg). (Inr (), (w, lg @ [e])))"

text \<open>\<^verbatim>\<open>arg.promise()\<close>: the request is sent.\<close>

definition promise :: "'w services \<Rightarrow> aws_request \<Rightarrow> ('w, aws_response) async" where
  "promise svc req = (\<lambda>(w, lg). case svc req w of (r, w') \<Rightarrow> (r, (w', lg)))"

text \<open>
  \<^verbatim>\<open>carefully\<close> and \<^verbatim>\<open>quietly\<close>: the handler of \<^verbatim>\<open>.catch\<close> turns a
  rejection into a promise resolved with \<^verbatim>\<open>undefined\<close> (\<open>None\<close>), after
  logging the error in \<^verbatim>\<open>carefully\<close>.
\<close>

definition carefully :: "'w services \<Rightarrow> aws_request \<Rightarrow> ('w, aws_response option) async" where
  "carefully svc req =
     (\<lambda>s. case promise svc req s of
             (Inl err, s') \<Rightarrow> (case log (Logged err) s' of (r, s'') \<Rightarrow> (Inr None, s''))
           | (Inr u, s') \<Rightarrow> (Inr (Some u), s'))"

definition quietly :: "'w services \<Rightarrow> aws_request \<Rightarrow> ('w, aws_response option) async" where
  "quietly svc req =
     (\<lambda>s. case promise svc req s of
             (Inl err, s') \<Rightarrow> (Inr None, s')
           | (Inr u, s') \<Rightarrow> (Inr (Some u), s'))"

text \<open>
  \<^verbatim>\<open>Promise.all(xs.map(f))\<close>: every \<^verbatim>\<open>f(x)\<close> is started, in the order of
  the list, and the promises settle in an order that the environment decides:
  \<open>at i\<close> is the time at which the promise of index \<open>i\<close> settles, the
  promises with equal times settling in the order of the list. A request is
  handled by the service, and the handlers of its promise run, when the
  promise settles, so the promises are run here in the order of their
  settlement. The result holds the values in the order of the list; it is
  rejected with the reason of the first rejection to settle. The continuation
  of a rejected \<^verbatim>\<open>Promise.all\<close> starts before the remaining promises
  settle, which this model does not follow: it is exact where no promise of
  the list is rejected, and that is so at its one use below, where each
  promise is one of \<^verbatim>\<open>carefully\<close>.
\<close>

definition settlement_order :: "(nat \<Rightarrow> nat) \<Rightarrow> 'a list \<Rightarrow> (nat \<times> 'a) list" where
  "settlement_order at xs = sort_key (\<lambda>ix. at (fst ix)) (enumerate 0 xs)"

fun run_all :: "(nat \<times> ('w, 'a) async) list \<Rightarrow> 'w \<times> log_entry list
    \<Rightarrow> (nat \<times> (AWSError + 'a)) list \<times> ('w \<times> log_entry list)" where
  "run_all [] s = ([], s)"
| "run_all ((i, p) # ips) s =
     (case p s of (r, s') \<Rightarrow> (case run_all ips s' of (rs, s'') \<Rightarrow> ((i, r) # rs, s'')))"

definition Promise_all :: "(nat \<Rightarrow> nat) \<Rightarrow> ('w, 'a) async list \<Rightarrow> ('w, 'a list) async" where
  "Promise_all at ps =
     (\<lambda>s. case run_all (settlement_order at ps) s of
             (rs, s') \<Rightarrow>
               (case [err. (i, Inl err) \<leftarrow> rs] of
                  err # errs \<Rightarrow> (Inl err, s')
                | [] \<Rightarrow> (Inr [x. (i, Inr x) \<leftarrow> sort_key fst rs], s')))"

text \<open>\<^verbatim>\<open>p.catch(log)\<close>.\<close>

definition catch_log :: "('w, 'a) async \<Rightarrow> ('w, 'a option) async" where
  "catch_log p =
     (\<lambda>s. case p s of
             (Inl err, s') \<Rightarrow> (case log (Logged err) s' of (r, s'') \<Rightarrow> (Inr None, s''))
           | (Inr x, s') \<Rightarrow> (Inr (Some x), s'))"

text \<open>
  \<^verbatim>\<open>(policies && policies.AttachedPolicies) || []\<close>: the empty list when the
  listing failed or its answer has no such property.
\<close>

definition attached :: "aws_response option \<Rightarrow> AttachedPolicy list" where
  "attached policies =
     (case policies of
        Some (ListAttachedRolePoliciesResponse (Some ps)) \<Rightarrow> ps
      | _ \<Rightarrow> [])"

text \<open>
  \<^verbatim>\<open>deleteRole\<close> and \<^verbatim>\<open>cleanup\<close>, given the settlement times \<open>at\<close> of the
  promises of the one \<^verbatim>\<open>Promise.all\<close>.
\<close>

definition deleteRole :: "(nat \<Rightarrow> nat) \<Rightarrow> string \<Rightarrow> string option \<Rightarrow> 'w services \<Rightarrow> ('w, unit) async" where
  "deleteRole at roleName noCreateLogGroupPolicy' iam =
     await (carefully iam (ListAttachedRolePolicies roleName)) (\<lambda>policies.
     await (catch_log (Promise_all at
              (map (\<lambda>policy. carefully iam (DetachRolePolicy roleName (PolicyArn policy)))
                 (attached policies)))) (\<lambda>_.
     await (case noCreateLogGroupPolicy' of
              Some pn \<Rightarrow> if pn \<noteq> [] then await (carefully iam (DeleteRolePolicy roleName pn)) (\<lambda>_. resolve ())
                        else resolve ()
            | None \<Rightarrow> resolve ()) (\<lambda>_.
     await (carefully iam (DeleteRole roleName)) (\<lambda>_. resolve ()))))"

text \<open>
  The \<^verbatim>\<open>Partial<AWSVariables>\<close> that \<^verbatim>\<open>cleanup\<close> takes: every field may
  be absent. A string is truthy when it is present and not empty.
\<close>

record AWSVariables =
  FunctionName :: "string option"
  RoleName :: "string option"
  roleNeedsCleanup :: "bool option"
  logGroupName :: "string option"
  region :: "string option"
  noCreateLogGroupPolicy :: "string option"

definition cleanup :: "(nat \<Rightarrow> nat) \<Rightarrow> 'w services \<Rightarrow> AWSVariables \<Rightarrow> ('w, unit) async" where
  "cleanup at svc vars =
     await (case FunctionName vars of
              Some f \<Rightarrow>
                if f \<noteq> []
                then await (log (Message (''Deleting function: '' @ f))) (\<lambda>_.
                     await (carefully svc (DeleteFunction f)) (\<lambda>_. resolve ()))
                else resolve ()
            | None \<Rightarrow> resolve ()) (\<lambda>_.
     await (case RoleName vars of
              Some r \<Rightarrow>
                if r \<noteq> [] \<and> roleNeedsCleanup vars = Some True
                then await (log (Message (''Deleting role name: '' @ r))) (\<lambda>_.
                     deleteRole at r (noCreateLogGroupPolicy vars) svc)
                else resolve ()
            | None \<Rightarrow> resolve ()) (\<lambda>_.
     (case logGroupName vars of
        Some g \<Rightarrow>
          if g \<noteq> []
          then await (log (Message (''Deleting log group: '' @ g))) (\<lambda>_.
               await (carefully svc (DeleteLogGroup g)) (\<lambda>_. resolve ()))
          else resolve ()
      | None \<Rightarrow> resolve ())))"

text \<open>
  The services with a record of the requests they handled and of what they
  answered to each, in the order in which they handled them.
\<close>

type_synonym exchange = "aws_request \<times> (AWSError + aws_response)"

definition tracing :: "'w services \<Rightarrow> ('w \<times> exchange list) services" where
  "tracing svc = (\<lambda>req (w, tr). case svc req w of (r, w') \<Rightarrow> (r, (w', tr @ [(req, r)])))"


text \<open>
  Modelled from the spec: the Reclaim step of the garbage collector, whose
  code is not among the sources. For each orphan record a worker attempts to
  delete every resource of the record, a descriptor being the deletion
  request for it; a deletion that fails is logged and the worker goes on.
\<close>

fun reclaim_worker :: "'w services \<Rightarrow> aws_request list \<Rightarrow> ('w, unit) async" where
  "reclaim_worker svc [] = resolve ()"
| "reclaim_worker svc (d # ds) = await (carefully svc d) (\<lambda>_. reclaim_worker svc ds)"

fun reclaim :: "'w services \<Rightarrow> aws_request list list \<Rightarrow> ('w, unit) async" where
  "reclaim svc [] = resolve ()"
| "reclaim svc (orphan # orphans) = await (reclaim_worker svc orphan) (\<lambda>_. reclaim svc orphans)"

section \<open>The local-process backend\<close>

text \<open>
  Modelled from the spec: the \<^verbatim>\<open>Funnel\<close> of \<^verbatim>\<open>./funnel\<close>, which is not
  among the sources. A funnel holds the operations that were pushed and are
  not yet started, in the order of their arrival, and the operations that are
  running. \<^verbatim>\<open>clearPending\<close> removes every operation still queued without
  starting it, each of them settled as cancelled, and leaves the running ones
  as they are.
\<close>

record 't Funnel =
  pendingQueue :: "'t list"
  running :: "'t list"
  cancelled :: "'t list"

definition clearPending :: "'t Funnel \<Rightarrow> 't Funnel" where
  "clearPending funnel =
     funnel\<lparr> pendingQueue := [], cancelled := cancelled funnel @ pendingQueue funnel \<rparr>"

text \<open>
  The state of the backend (lines 284 to 294), with the two fields that
  \<^verbatim>\<open>stop\<close> reads: the set of the child processes, a child known by its
  handle and the set kept in the order of insertion, and the funnel of the
  calls, an operation of the funnel standing for the call it makes.
  \<^verbatim>\<open>callFunction\<close> adds a child to the set when its operation starts
  (line 360) and removes it at the child's \<^verbatim>\<open>exit\<close> or \<^verbatim>\<open>error\<close> event.
\<close>

type_synonym ChildProcess = nat

record ProcessResources =
  childProcesses :: "ChildProcess list"

record State =
  resources :: ProcessResources
  callFunnel :: "FunctionCall Funnel"

text \<open>
  What \<^verbatim>\<open>stop\<close> does to the funnel and to the child processes:
  \<^verbatim>\<open>clearPending()\<close>, \<^verbatim>\<open>p.on("exit", resolve)\<close> and \<^verbatim>\<open>p.kill()\<close>.
\<close>

datatype action = ClearPending | OnExit ChildProcess | Kill ChildProcess

text \<open>
  \<^verbatim>\<open>stop\<close> (lines 409 to 417) up to its \<^verbatim>\<open>await\<close>: the actions in the
  order of the statements, the state they leave, and the children whose exit
  the promise \<^verbatim>\<open>completed\<close> waits for (\<open>completed\<close> being the name of a
  counter of the ledger here, they are called \<open>children\<close>).
\<close>

definition stop :: "State \<Rightarrow> action list \<times> State \<times> ChildProcess list" where
  "stop st =
     (let st' = st\<lparr> callFunnel := clearPending (callFunnel st) \<rparr>;
          childProcesses' = childProcesses (resources st');
          children = childProcesses'
      in ([ClearPending] @ map OnExit childProcesses' @ map Kill childProcesses', st', children))"

text \<open>
  \<^verbatim>\<open>await completed\<close>: \<^verbatim>\<open>completed\<close> is the \<^verbatim>\<open>Promise.all\<close> of one promise
  for each child, resolved by the \<^verbatim>\<open>exit\<close> event of that child. Given the
  exit events that the children emit after the actions of \<^verbatim>\<open>stop\<close>, in
  order, \<open>waiting\<close> is the list of the children that \<^verbatim>\<open>completed\<close> still waits
  for; \<^verbatim>\<open>stop\<close> resolves when there is none.
\<close>

fun waiting :: "ChildProcess list \<Rightarrow> ChildProcess list \<Rightarrow> ChildProcess list" where
  "waiting children [] = children"
| "waiting children (p # exits) = waiting (removeAll p children) exits"

definition stop_resolves :: "State \<Rightarrow> ChildProcess list \<Rightarrow> bool" where
  "stop_resolves st exits =
     (case stop st of (actions, st', children) \<Rightarrow> waiting children exits = [])"

text \<open>
  \<^verbatim>\<open>initialize\<close> (lines 321 to 329), for these two fields: no child process,
  and a new funnel. Then what \<^verbatim>\<open>callFunction\<close> does to the set of the child
  processes: the operation it pushes adds the child it forks (line 360), the
  listener of the child's \<^verbatim>\<open>error\<close> event deletes it (line 388), and so does
  the listener of its \<^verbatim>\<open>exit\<close> event (line 397).
\<close>

definition initialize :: State where
  "initialize =
     \<lparr> resources = \<lparr> childProcesses = [] \<rparr>,
       callFunnel = \<lparr> pendingQueue = [], running = [], cancelled = [] \<rparr> \<rparr>"

datatype child_event = Forked ChildProcess | Errored ChildProcess | Exited ChildProcess

definition add_child :: "ChildProcess \<Rightarrow> State \<Rightarrow> State" where
  "add_child p st =
     st\<lparr> resources := \<lparr> childProcesses =
            (if p \<in> set (childProcesses (resources st)) then childProcesses (resources st)
             else childProcesses (resources st) @ [p]) \<rparr> \<rparr>"

definition delete_child :: "ChildProcess \<Rightarrow> State \<Rightarrow> State" where
  "delete_child p st =
     st\<lparr> resources := \<lparr> childProcesses = removeAll p (childProcesses (resources st)) \<rparr> \<rparr>"

fun on_event :: "child_event \<Rightarrow> State \<Rightarrow> State" where
  "on_event (Forked p) st = add_child p st"
| "on_event (Errored p) st = delete_child p st"
| "on_event (Exited p) st = delete_child p st"

fun after :: "State \<Rightarrow> child_event list \<Rightarrow> State" where
  "after st [] = st"
| "after st (e # es) = after (on_event e st) es"

section \<open>Concrete inputs\<close>

text \<open>
  The inputs at which the theorems below are instantiated: the example of the
  specification (a Call submitted at 1000, executed from 1050 to 1200 and
  processed at 1250), a remote \<^verbatim>\<open>ValidationError\<close>, and backends with a fixed
  answer.
\<close>

definition example_call :: FunctionCall where
  "example_call = \<lparr> name = ''hello'', args = [JStr ''world''], CallId = ''c-1'', start = 1000 \<rparr>"

definition example_readings :: readings where
  "example_readings =
     \<lparr> uuid = ''c-1'', submitted_at = 1000, failed_at = 1200, processed_at = 1250 \<rparr>"

definition later_readings :: readings where
  "later_readings =
     \<lparr> uuid = ''c-2'', submitted_at = 2000, failed_at = 2200, processed_at = 2250 \<rparr>"

definition example_return :: FunctionReturn where
  "example_return =
     \<lparr> ret_type = ''value'', ret_value = JStr ''hello world'', ret_CallId = ''c-1'',
       executionStart = Some 1050, executionEnd = Some 1200, ret_rawResponse = JUndefined \<rparr>"

definition validation_error :: jsval where
  "validation_error =
     JObj [(''name'', JStr ''ValidationError''), (''message'', JStr ''bad input''),
           (''stack'', JStr ''ValidationError: bad input at hello'')]"

definition error_return :: FunctionReturn where
  "error_return =
     \<lparr> ret_type = ''error'', ret_value = validation_error, ret_CallId = ''c-1'',
       executionStart = Some 1050, executionEnd = Some 1200, ret_rawResponse = JUndefined \<rparr>"

definition always :: "outcome \<Rightarrow> unit \<Rightarrow> FunctionCall \<Rightarrow> outcome \<times> unit" where
  "always out s call = (out, s)"

definition facade :: "outcome \<Rightarrow> unit CloudFunction" where
  "facade out = \<lparr> callFunction = always out, state = (), functionMetrics = new_FunctionMetricsMap \<rparr>"

text \<open>
  For the AWS path: a \<^verbatim>\<open>JSON\<close> that knows one payload, the text \<open>R\<close> for
  the Return \<open>v\<close>, and an \<^verbatim>\<open>invoke\<close> with a fixed result.
\<close>

definition json_for :: "jsval \<Rightarrow> JSON" where
  "json_for v = \<lparr> stringify = (\<lambda>x. ''{}''), parse = (\<lambda>s. if s = ''R'' then Some v else None) \<rparr>"

definition invoke_gives :: "jsval + InvocationResponse \<Rightarrow> InvocationRequest \<Rightarrow> jsval + InvocationResponse" where
  "invoke_gives r request = r"

definition payload_R :: InvocationResponse where
  "payload_R = \<lparr> FunctionError = None, LogResult = None, Payload = Some ''R'' \<rparr>"

definition return_object :: "string \<Rightarrow> jsval \<Rightarrow> jsval" where
  "return_object ty v = JObj [(''type'', JStr ty), (''value'', v)]"


text \<open>
  The value whose properties the error reconstruction reads, for an outcome of
  the backend: the rejection reason, or the value of a Return of type
  \<^verbatim>\<open>"error"\<close>.
\<close>

definition error_payload :: "outcome \<Rightarrow> jsval option" where
  "error_payload out =
     (case out of
        Rejected v \<Rightarrow> Some v
      | Resolved r \<Rightarrow> if ret_type r = ''error'' then Some (ret_value r) else None)"

text \<open>
  A Return whose timestamps count from the start of the backend's own clock:
  both are carried, and \<^verbatim>\<open>executionStart\<close> is the number \<open>0\<close>.
\<close>

definition relative_return :: FunctionReturn where
  "relative_return =
     \<lparr> ret_type = ''value'', ret_value = JStr ''hello world'', ret_CallId = ''c-1'',
       executionStart = Some 0, executionEnd = Some 150, ret_rawResponse = JUndefined \<rparr>"

text \<open>
  No counter of the ledger is smaller in \<open>m'\<close> than in \<open>m\<close>: the completed
  and error counts and the number of samples of each latency, for every
  function name.
\<close>

definition counters_le :: "FunctionMetricsMap \<Rightarrow> FunctionMetricsMap \<Rightarrow> bool" where
  "counters_le m m' =
     (\<forall>f. completed (m f) \<le> completed (m' f) \<and> errors (m f) \<le> errors (m' f) \<and>
          samples (startLatencyStats (m f)) \<le> samples (startLatencyStats (m' f)) \<and>
          samples (executionLatencyStats (m f)) \<le> samples (executionLatencyStats (m' f)) \<and>
          samples (returnLatencyStats (m f)) \<le> samples (returnLatencyStats (m' f)))"

text \<open>A Return without timestamps.\<close>

definition untimed_return :: FunctionReturn where
  "untimed_return =
     \<lparr> ret_type = ''value'', ret_value = JStr ''hello world'', ret_CallId = ''c-1'',
       executionStart = None, executionEnd = None, ret_rawResponse = JUndefined \<rparr>"

definition no_payload :: InvocationResponse where
  "no_payload = \<lparr> FunctionError = None, LogResult = None, Payload = None \<rparr>"

text \<open>A namespace with two functions and one constant.\<close>

definition example_module :: "(string \<times> member) list" where
  "example_module =
     [(''hello'', JFun ''hello'' ''function hello(name) { return name; }''),
      (''version'', JValue (JNum (Abs_safe_integer 3))),
      (''add'', JFun ''add'' ''function add(a, b) { return a + b; }'')]"

text \<open>The Call an invocation of a facade's proxy builds.\<close>

fun call_of :: "invocation \<Rightarrow> FunctionCall" where
  "call_of (WithResponse fname as rd) = callRequest fname as rd"
| "call_of (Unwrapped fname as rd) = callRequest fname as rd"

text \<open>
  What is required of \<^verbatim>\<open>deleteRole\<close> and \<^verbatim>\<open>cleanup\<close>, as functions of
  the record of requests and answers. The policies that the listing of the
  attached policies answered, none when it failed; the requests that are to be
  sent for them and for the resources named in the variables, none left out,
  the detaches in the order of their settlement; and the log: the message
  that announces a resource, and after each request that failed, its error.
\<close>

definition answered_policies :: "AWSError + aws_response \<Rightarrow> AttachedPolicy list" where
  "answered_policies r =
     (case r of Inr (ListAttachedRolePoliciesResponse (Some ps)) \<Rightarrow> ps | _ \<Rightarrow> [])"

fun listed :: "exchange list \<Rightarrow> AttachedPolicy list" where
  "listed [] = []"
| "listed ((ListAttachedRolePolicies n, r) # tr) = answered_policies r"
| "listed (x # tr) = listed tr"

definition role_requests :: "(nat \<Rightarrow> nat) \<Rightarrow> string \<Rightarrow> string option \<Rightarrow> AttachedPolicy list \<Rightarrow> aws_request list" where
  "role_requests at r pol ps =
     [ListAttachedRolePolicies r] @
     map (\<lambda>ip. DetachRolePolicy r (PolicyArn (snd ip))) (settlement_order at ps) @
     (case pol of Some pn \<Rightarrow> if pn \<noteq> [] then [DeleteRolePolicy r pn] else [] | None \<Rightarrow> []) @
     [DeleteRole r]"

definition cleanup_requests :: "(nat \<Rightarrow> nat) \<Rightarrow> AWSVariables \<Rightarrow> AttachedPolicy list \<Rightarrow> aws_request list" where
  "cleanup_requests at vars ps =
     (case FunctionName vars of Some f \<Rightarrow> if f \<noteq> [] then [DeleteFunction f] else [] | None \<Rightarrow> []) @
     (case RoleName vars of
        Some r \<Rightarrow> if r \<noteq> [] \<and> roleNeedsCleanup vars = Some True
                  then role_requests at r (noCreateLogGroupPolicy vars) ps else []
      | None \<Rightarrow> []) @
     (case logGroupName vars of Some g \<Rightarrow> if g \<noteq> [] then [DeleteLogGroup g] else [] | None \<Rightarrow> [])"

definition failure :: "AWSError + aws_response \<Rightarrow> log_entry list" where
  "failure r = (case r of Inl err \<Rightarrow> [Logged err] | Inr u \<Rightarrow> [])"

definition failures :: "exchange list \<Rightarrow> log_entry list" where
  "failures tr = concat (map (\<lambda>x. failure (snd x)) tr)"

fun announced :: "aws_request \<Rightarrow> log_entry list" where
  "announced (DeleteFunction f) = [Message (''Deleting function: '' @ f)]"
| "announced (ListAttachedRolePolicies r) = [Message (''Deleting role name: '' @ r)]"
| "announced (DeleteLogGroup g) = [Message (''Deleting log group: '' @ g)]"
| "announced req = []"

definition cleanup_log :: "exchange list \<Rightarrow> log_entry list" where
  "cleanup_log tr = concat (map (\<lambda>x. announced (fst x) @ failure (snd x)) tr)"

text \<open>
  A cloud in which every resource is already gone: each request fails with
  the service's "not found" error. A cloud in which the role has two policies
  attached, of which the first cannot be detached. And the variables of an
  instance that created its own role.
\<close>

definition all_gone :: "unit services" where
  "all_gone req w = (Inl (AWSError ''ResourceNotFoundException''), w)"

definition example_policies :: "AttachedPolicy list" where
  "example_policies =
     [\<lparr> PolicyName = Some ''basic'', PolicyArn = Some ''arn:1'' \<rparr>,
      \<lparr> PolicyName = Some ''queues'', PolicyArn = Some ''arn:2'' \<rparr>]"

definition stuck_policy :: "unit services" where
  "stuck_policy req w =
     (case req of
        ListAttachedRolePolicies r \<Rightarrow> (Inr (ListAttachedRolePoliciesResponse (Some example_policies)), w)
      | DetachRolePolicy r arn \<Rightarrow>
          if arn = Some ''arn:1'' then (Inl (AWSError ''ServiceFailure''), w) else (Inr Empty, w)
      | _ \<Rightarrow> (Inr Empty, w))"

text \<open>Two orders of settlement: that of the list, and the second promise first.\<close>

definition in_turn :: "nat \<Rightarrow> nat" where
  "in_turn i = i"

definition last_first :: "nat \<Rightarrow> nat" where
  "last_first i = 1 - i"

definition example_vars :: AWSVariables where
  "example_vars =
     \<lparr> FunctionName = Some ''cloudify-1'', RoleName = Some ''cloudify-role-1'',
       roleNeedsCleanup = Some True, logGroupName = Some ''/aws/lambda/cloudify-1'',
       region = Some ''us-east-1'',
       noCreateLogGroupPolicy = Some ''cloudify-deny-create-log-group-policy'' \<rparr>"

text \<open>The resources of two orphaned instances, as deletion requests.\<close>

definition example_orphans :: "aws_request list list" where
  "example_orphans =
     [[DeleteFunction ''cloudify-7'', DeleteLogGroup ''/aws/lambda/cloudify-7''],
      [DeleteFunction ''cloudify-8'', DeleteRole ''cloudify-role-8'']]"

text \<open>
  The error payloads from which lines 103 to 106 build an \<^verbatim>\<open>Error\<close> without
  a throw: neither \<^verbatim>\<open>undefined\<close> nor \<^verbatim>\<open>null\<close>, with a message that is
  absent or that converts to a string.
\<close>

definition rebuilds :: "jsval \<Rightarrow> bool" where
  "rebuilds v =
     (v \<noteq> JUndefined \<and> v \<noteq> JNull \<and>
      (case get_prop v ''message'' of
         Inl t \<Rightarrow> False
       | Inr m \<Rightarrow> m = JUndefined \<or> (case ToString m of Inl t \<Rightarrow> False | Inr s \<Rightarrow> True)))"

text \<open>An error payload whose message is an object with a property \<^verbatim>\<open>toString\<close> that holds a number.\<close>

definition odd_message_error :: jsval where
  "odd_message_error =
     JObj [(''message'', JObj [(''toString'', JNum (Abs_safe_integer 1))]),
           (''name'', JStr ''E''), (''stack'', JStr ''s'')]"

text \<open>
  The positions, in the sequence of the source, of the identifiers that the
  invocations of a facade draw, given how many were drawn before the first
  one and elsewhere before each of them.
\<close>

fun draws :: "nat \<Rightarrow> nat list \<Rightarrow> nat list" where
  "draws drawn [] = []"
| "draws drawn (elsewhere # later) = (drawn + elsewhere) # draws (Suc (drawn + elsewhere)) later"

text \<open>A source of identifiers: \<open>c-i\<close>, \<open>c-ii\<close>, \<open>c-iii\<close>, ...\<close>

definition example_ids :: "nat \<Rightarrow> string" where
  "example_ids n = ''c-'' @ replicate (Suc n) CHR ''i''"

definition example_source :: uuid_source where
  "example_source = Abs_uuid_source example_ids"

text \<open>
  A backend with two calls in flight, each served by a child process, and a
  third call waiting in the funnel.
\<close>

definition busy_state :: State where
  "busy_state =
     \<lparr> resources = \<lparr> childProcesses = [7, 8] \<rparr>,
       callFunnel =
         \<lparr> pendingQueue = [callRequest ''add'' [JStr ''1'', JStr ''2''] later_readings],
           running = [callRequest ''hello'' [JStr ''world''] example_readings,
                      callRequest ''hello'' [JStr ''again''] example_readings],
           cancelled = [] \<rparr> \<rparr>"

section \<open>Helper facts\<close>

lemma all_texts_throws: "all_texts rs = Inl t \<Longrightarrow> Inl t \<in> set rs"
  by (induction rs rule: all_texts.induct) (auto split: sum.splits)

lemma ToString_throws: "ToString v = Inl t \<Longrightarrow> t = TypeError"
proof (induction v rule: ToString.induct)
  case (6 xs)
  then obtain r where r: "all_texts (map (\<lambda>x. if x = JUndefined \<or> x = JNull then Inr [] else ToString x) xs) = Inl t"
    by (auto split: sum.splits)
  then obtain x where "x \<in> set xs" "(if x = JUndefined \<or> x = JNull then Inr [] else ToString x) = Inl t"
    using all_texts_throws by fastforce
  then show ?case using "6.IH" by (auto split: if_splits)
qed (auto split: option.splits)

lemma new_Error_throws: "new_Error m = Inl t \<Longrightarrow> t = TypeError"
  using ToString_throws by (auto simp: new_Error_def split: if_splits sum.splits)

lemma rebuild_error_throws: "rebuild_error v = Inl t \<Longrightarrow> t = TypeError"
  using new_Error_throws
  by (cases v) (auto simp: rebuild_error_def split: sum.splits)

lemma rebuild_error_defined: "rebuilds v \<Longrightarrow> \<exists>e. rebuild_error v = Inr e"
  by (cases v) (auto simp: rebuilds_def rebuild_error_def new_Error_def split: sum.splits)

lemma rebuild_error_undefined: "\<not> rebuilds v \<Longrightarrow> rebuild_error v = Inl TypeError"
proof -
  assume n: "\<not> rebuilds v"
  have "\<not> (\<exists>e. rebuild_error v = Inr e)"
    using n by (cases v) (auto simp: rebuilds_def rebuild_error_def new_Error_def split: sum.splits if_splits)
  then obtain t where "rebuild_error v = Inl t"
    by (cases "rebuild_error v") auto
  then show ?thesis using rebuild_error_throws by blast
qed

lemma processResponse_value:
  assumes "ret_type returned \<noteq> ''error''"
  shows "\<exists>resp m'. processResponse returned call now m = (Inr resp, m') \<and> resp_error resp = None \<and> resp_value resp = ret_value returned"
  using assms by (auto simp: processResponse_def Let_def split: option.splits prod.splits)

lemma processResponse_error:
  assumes "ret_type returned = ''error''" "rebuild_error (ret_value returned) = Inr e"
  shows "\<exists>resp m'. processResponse returned call now m = (Inr resp, m') \<and> resp_error resp = Some e \<and> resp_value resp = JBool False"
  using assms by (auto simp: processResponse_def Let_def split: option.splits prod.splits)

lemma processResponse_resolves:
  assumes "ret_type returned = ''error'' \<longrightarrow> rebuilds (ret_value returned)"
  shows "\<exists>resp m'. processResponse returned call now m = (Inr resp, m')"
proof (cases "ret_type returned = ''error''")
  case True
  with assms obtain e where "rebuild_error (ret_value returned) = Inr e"
    using rebuild_error_defined by blast
  with True show ?thesis using processResponse_error by blast
next
  case False
  then show ?thesis using processResponse_value by blast
qed

lemma cloudifyWithResponse_unfold:
  assumes "callFunction this (state this) (callRequest fname as rd) = (out, st)"
  shows "cloudifyWithResponse fname this as rd =
          (case processResponse (case out of Resolved r \<Rightarrow> r | Rejected v \<Rightarrow> synthesized v rd)
                  (callRequest fname as rd) (processed_at rd) (functionMetrics this) of
             (res, m) \<Rightarrow> (res, this\<lparr> state := st, functionMetrics := m \<rparr>))"
  using assms by (simp add: cloudifyWithResponse_def Let_def)

section \<open>C1: the proxy of \<^verbatim>\<open>cloudifyWithResponse\<close> and backend failures\<close>

text \<open>
  C1, as stated, fails. The proxy of the AWS \<^verbatim>\<open>cloudifyWithResponse\<close> has no
  handler on \<^verbatim>\<open>state.lambda.invoke(request).promise()\<close>: when the invocation
  is rejected, so is the proxy's promise, with the same reason. (The proxy of
  the facade is rejected too, with a \<^verbatim>\<open>TypeError\<close>, when the backend rejects
  with \<^verbatim>\<open>undefined\<close>: \<^verbatim>\<open>processResponse\<close> reads \<^verbatim>\<open>errValue.message\<close>.)
\<close>

theorem transport_failure_counterexample:
  "aws_cloudifyWithResponse (json_for JNull) (invoke_gives (Inl (JStr ''NetworkingError'')))
       ''cloudify-1'' ''hello'' [JStr ''world'']
     = Inl (Rejection (JStr ''NetworkingError'')) \<and>
   fst (cloudifyWithResponse ''hello'' (facade (Rejected JUndefined)) [JStr ''world''] example_readings)
     = Inl TypeError"
  by (simp add: aws_cloudifyWithResponse_def invoke_gives_def Let_def cloudifyWithResponse_def
      facade_def always_def synthesized_def processResponse_def rebuild_error_def)

text \<open>
  C1, amended. For the proxy of \<^verbatim>\<open>CloudFunction.cloudifyWithResponse\<close>, and
  every outcome of the backend whose error payload (the rejection reason, or
  the value of a Return of type \<^verbatim>\<open>"error"\<close>) is neither \<^verbatim>\<open>undefined\<close> nor
  \<^verbatim>\<open>null\<close> and has a message that is absent or converts to a string, the
  invocation resolves with a Response. A rejection with reason \<open>v\<close> is
  turned into a Return of type \<^verbatim>\<open>"error"\<close> with value \<open>v\<close>, whose
  \<^verbatim>\<open>executionStart\<close> is the Call's \<^verbatim>\<open>start\<close> and whose \<^verbatim>\<open>executionEnd\<close> is
  the time read in the rejection handler, and the result is that of
  \<^verbatim>\<open>processResponse\<close> on this Return. The proxy of the AWS
  \<^verbatim>\<open>cloudifyWithResponse\<close> is rejected with the reason of the rejected
  \<^verbatim>\<open>invoke\<close>.
\<close>

theorem cloudifyWithResponse_resolves:
  assumes "callFunction this (state this) (callRequest fname as rd) = (out, st)"
      and "\<forall>v. error_payload out = Some v \<longrightarrow> rebuilds v"
  shows "(\<exists>resp. fst (cloudifyWithResponse fname this as rd) = Inr resp) \<and>
         (\<forall>v. out = Rejected v \<longrightarrow>
            cloudifyWithResponse fname this as rd =
              (case processResponse (synthesized v rd) (callRequest fname as rd)
                      (processed_at rd) (functionMetrics this) of
                 (res, m) \<Rightarrow> (res, this\<lparr> state := st, functionMetrics := m \<rparr>)) \<and>
            ret_type (synthesized v rd) = ''error'' \<and>
            ret_value (synthesized v rd) = v \<and>
            executionStart (synthesized v rd) = Some (start (callRequest fname as rd)) \<and>
            executionEnd (synthesized v rd) = Some (failed_at rd)) \<and>
         (\<forall>reason. invoke \<lparr> req_FunctionName = sfn, req_LogType = ''Tail'',
                            req_Payload = stringify json (callArgs fname as) \<rparr> = Inl reason \<longrightarrow>
            aws_cloudifyWithResponse json invoke sfn fname as = Inl (Rejection reason))"
proof -
  let ?rv = "case out of Resolved r \<Rightarrow> r | Rejected v \<Rightarrow> synthesized v rd"
  have "ret_type ?rv = ''error'' \<longrightarrow> rebuilds (ret_value ?rv)"
    using assms(2) by (cases out) (auto simp: error_payload_def synthesized_def)
  then obtain resp m' where
    "processResponse ?rv (callRequest fname as rd) (processed_at rd) (functionMetrics this) = (Inr resp, m')"
    using processResponse_resolves by blast
  then have "\<exists>resp. fst (cloudifyWithResponse fname this as rd) = Inr resp"
    by (simp add: cloudifyWithResponse_unfold [OF assms(1)])
  moreover have "\<forall>v. out = Rejected v \<longrightarrow>
            cloudifyWithResponse fname this as rd =
              (case processResponse (synthesized v rd) (callRequest fname as rd)
                      (processed_at rd) (functionMetrics this) of
                 (res, m) \<Rightarrow> (res, this\<lparr> state := st, functionMetrics := m \<rparr>))"
    by (simp add: cloudifyWithResponse_unfold [OF assms(1)])
  moreover have "ret_type (synthesized v rd) = ''error'' \<and>
            ret_value (synthesized v rd) = v \<and>
            executionStart (synthesized v rd) = Some (start (callRequest fname as rd)) \<and>
            executionEnd (synthesized v rd) = Some (failed_at rd)" for v
    by (simp add: synthesized_def callRequest_def)
  moreover have "\<forall>reason. invoke \<lparr> req_FunctionName = sfn, req_LogType = ''Tail'',
                            req_Payload = stringify json (callArgs fname as) \<rparr> = Inl reason \<longrightarrow>
            aws_cloudifyWithResponse json invoke sfn fname as = Inl (Rejection reason)"
    by (simp add: aws_cloudifyWithResponse_def Let_def)
  ultimately show ?thesis by blast
qed

text \<open>
  The amended C1 at a backend that rejects with a \<^verbatim>\<open>ValidationError\<close>, and
  at an AWS invocation that times out.
\<close>

theorem cloudifyWithResponse_resolves_witness:
  "callFunction (facade (Rejected validation_error)) (state (facade (Rejected validation_error)))
     (callRequest ''hello'' [JStr ''world''] example_readings) = (Rejected validation_error, ()) \<and>
   error_payload (Rejected validation_error) = Some validation_error \<and>
   rebuilds validation_error \<and>
   (\<exists>resp. fst (cloudifyWithResponse ''hello'' (facade (Rejected validation_error))
                  [JStr ''world''] example_readings) = Inr resp) \<and>
   executionStart (synthesized validation_error example_readings) = Some 1000 \<and>
   executionEnd (synthesized validation_error example_readings) = Some 1200 \<and>
   aws_cloudifyWithResponse (json_for JNull) (invoke_gives (Inl (JStr ''TimeoutError'')))
       ''cloudify-1'' ''hello'' [JStr ''world''] = Inl (Rejection (JStr ''TimeoutError''))"
proof -
  have h1: "callFunction (facade (Rejected validation_error)) (state (facade (Rejected validation_error)))
     (callRequest ''hello'' [JStr ''world''] example_readings) = (Rejected validation_error, ())"
    by (simp add: facade_def always_def)
  have h2: "\<forall>v. error_payload (Rejected validation_error) = Some v \<longrightarrow> rebuilds v"
    by (simp add: error_payload_def validation_error_def rebuilds_def)
  have h4: "invoke_gives (Inl (JStr ''TimeoutError''))
              \<lparr> req_FunctionName = ''cloudify-1'', req_LogType = ''Tail'',
                req_Payload = stringify (json_for JNull) (callArgs ''hello'' [JStr ''world'']) \<rparr>
            = Inl (JStr ''TimeoutError'')"
    by (simp add: invoke_gives_def)
  note w = cloudifyWithResponse_resolves [OF h1 h2,
      of "invoke_gives (Inl (JStr ''TimeoutError''))" "''cloudify-1''" "json_for JNull"]
  from w have c1: "\<exists>resp. fst (cloudifyWithResponse ''hello'' (facade (Rejected validation_error))
                  [JStr ''world''] example_readings) = Inr resp"
    by (elim conjE)
  from w have "executionStart (synthesized validation_error example_readings)
                 = Some (start (callRequest ''hello'' [JStr ''world''] example_readings))"
    by blast
  then have c2: "executionStart (synthesized validation_error example_readings) = Some 1000"
    by (simp add: callRequest_def example_readings_def)
  from w have "executionEnd (synthesized validation_error example_readings)
                 = Some (failed_at example_readings)"
    by blast
  then have c3: "executionEnd (synthesized validation_error example_readings) = Some 1200"
    by (simp add: example_readings_def)
  from w h4 have c4: "aws_cloudifyWithResponse (json_for JNull) (invoke_gives (Inl (JStr ''TimeoutError'')))
       ''cloudify-1'' ''hello'' [JStr ''world''] = Inl (Rejection (JStr ''TimeoutError''))"
    by blast
  have p1: "error_payload (Rejected validation_error) = Some validation_error"
    by (simp add: error_payload_def)
  have p2: "rebuilds validation_error"
    by (simp add: validation_error_def rebuilds_def)
  show ?thesis
    by (rule conjI [OF h1 conjI [OF p1 conjI [OF p2 conjI [OF c1 conjI [OF c2 conjI [OF c3 c4]]]]]])
qed

lemma processResponse_cases:
  assumes "processResponse returned call now m = (Inr resp, m')"
  obtains e where "ret_type returned = ''error''" "rebuild_error (ret_value returned) = Inr e"
                  "resp_error resp = Some e" "resp_value resp = JBool False"
  | "ret_type returned \<noteq> ''error''" "resp_error resp = None" "resp_value resp = ret_value returned"
  using assms
  by (cases "ret_type returned = ''error''"; cases "rebuild_error (ret_value returned)")
     (auto simp: processResponse_def Let_def split: option.splits prod.splits if_splits)

lemma processResponse_timed:
  assumes "processResponse returned call now m = (Inr resp, m')"
      and "executionStart returned = Some es" "executionEnd returned = Some ee" "es \<noteq> 0" "ee \<noteq> 0"
  shows "startLatency resp = Some (es - start call)"
        "executionLatency resp = Some (ee - es)"
        "returnLatency resp = Some (now - ee)"
        "m' = (if ret_type returned = ''error'' then increment (name call) ''errors'' else id)
                (updateMany (name call)
                   \<lparr> lat_execution = ee - es, lat_start = es - start call, lat_return = now - ee \<rparr>
                   (increment (name call) ''completed'' m))"
  using assms
  by (cases "ret_type returned = ''error''"; cases "rebuild_error (ret_value returned)";
      auto simp: processResponse_def Let_def)+

lemma processResponse_untimed:
  assumes "processResponse returned call now m = (Inr resp, m')"
      and "executionStart returned = None \<or> executionStart returned = Some 0 \<or>
           executionEnd returned = None \<or> executionEnd returned = Some 0"
  shows "startLatency resp = None" "executionLatency resp = None" "returnLatency resp = None"
        "m' = (if ret_type returned = ''error'' then increment (name call) ''errors'' else id)
                (increment (name call) ''completed'' m)"
  using assms
  by (cases "ret_type returned = ''error''"; cases "rebuild_error (ret_value returned)";
      auto simp: processResponse_def Let_def split: option.splits)+

text \<open>
  A rejection whose reason has a message that does not convert to a string:
  \<^verbatim>\<open>new Error(errValue.message)\<close> throws, and the proxy with it.
\<close>

lemma unconvertible_message_throws:
  "\<not> rebuilds odd_message_error \<and>
   fst (cloudifyWithResponse ''hello'' (facade (Rejected odd_message_error)) [JStr ''world'']
          example_readings) = Inl TypeError"
  by (simp add: rebuilds_def odd_message_error_def cloudifyWithResponse_def facade_def always_def
      processResponse_def rebuild_error_def new_Error_def synthesized_def callRequest_def Let_def
      example_readings_def)

section \<open>C2: the three latencies of a Response\<close>

text \<open>
  C2, as stated, fails: a Return can carry both timestamps and get no latency.
  The test of \<^verbatim>\<open>processResponse\<close> is \<^verbatim>\<open>returned.executionStart &&
  returned.executionEnd\<close>, which is false for the number \<open>0\<close>. At a Return
  with \<^verbatim>\<open>executionStart = 0\<close> and \<^verbatim>\<open>executionEnd = 150\<close> the Response has
  none of the three latency fields.
\<close>

theorem zero_timestamp_counterexample:
  "executionStart relative_return = Some 0 \<and> executionEnd relative_return = Some 150 \<and>
   map_sum id startLatency (fst (processResponse relative_return example_call 1250 new_FunctionMetricsMap))
     = Inr None \<and>
   map_sum id executionLatency (fst (processResponse relative_return example_call 1250 new_FunctionMetricsMap))
     = Inr None \<and>
   map_sum id returnLatency (fst (processResponse relative_return example_call 1250 new_FunctionMetricsMap))
     = Inr None"
  by (simp add: processResponse_def relative_return_def Let_def)

text \<open>
  C2, amended. For every Return that \<^verbatim>\<open>processResponse\<close> turns into a
  Response: if the Return carries both \<^verbatim>\<open>executionStart\<close> and
  \<^verbatim>\<open>executionEnd\<close> and neither is \<open>0\<close>, the Response has
  \<^verbatim>\<open>startLatency\<close> = \<^verbatim>\<open>executionStart\<close> - the Call's \<^verbatim>\<open>start\<close>,
  \<^verbatim>\<open>executionLatency\<close> = \<^verbatim>\<open>executionEnd\<close> - \<^verbatim>\<open>executionStart\<close> and
  \<^verbatim>\<open>returnLatency\<close> = the processing time - \<^verbatim>\<open>executionEnd\<close>; if either
  timestamp is absent or \<open>0\<close>, none of the three latency fields is set.
\<close>

theorem processResponse_latencies:
  assumes "processResponse returned call now m = (Inr resp, m')"
  shows "(\<forall>es ee. executionStart returned = Some es \<and> executionEnd returned = Some ee \<and>
                  es \<noteq> 0 \<and> ee \<noteq> 0 \<longrightarrow>
            startLatency resp = Some (es - start call) \<and>
            executionLatency resp = Some (ee - es) \<and>
            returnLatency resp = Some (now - ee)) \<and>
         (executionStart returned = None \<or> executionStart returned = Some 0 \<or>
          executionEnd returned = None \<or> executionEnd returned = Some 0 \<longrightarrow>
            startLatency resp = None \<and> executionLatency resp = None \<and> returnLatency resp = None)"
  using processResponse_timed(1,2,3) [OF assms] processResponse_untimed(1,2,3) [OF assms]
  by blast

text \<open>
  The amended C2 at the example of the specification: start 1000, executed
  from 1050 to 1200, processed at 1250; the latencies are 50, 150 and 50. At a
  Return without timestamps there is none.
\<close>

theorem processResponse_latencies_witness:
  "(\<exists>resp m'. processResponse example_return example_call 1250 new_FunctionMetricsMap = (Inr resp, m') \<and>
       startLatency resp = Some 50 \<and> executionLatency resp = Some 150 \<and> returnLatency resp = Some 50) \<and>
   (\<exists>resp m'. processResponse untimed_return example_call 1250 new_FunctionMetricsMap = (Inr resp, m') \<and>
       startLatency resp = None \<and> executionLatency resp = None \<and> returnLatency resp = None)"
proof -
  have "ret_type example_return \<noteq> ''error''"
    by (simp add: example_return_def)
  then obtain resp m' where
    r: "processResponse example_return example_call 1250 new_FunctionMetricsMap = (Inr resp, m')"
    using processResponse_value by blast
  have t: "executionStart example_return = Some 1050 \<and> executionEnd example_return = Some 1200 \<and>
           (1050::int) \<noteq> 0 \<and> (1200::int) \<noteq> 0"
    by (simp add: example_return_def)
  from processResponse_latencies [OF r] t
  have "startLatency resp = Some (1050 - start example_call) \<and>
        executionLatency resp = Some (1200 - 1050) \<and>
        returnLatency resp = Some (1250 - 1200)"
    by blast
  then have "startLatency resp = Some 50 \<and> executionLatency resp = Some 150 \<and> returnLatency resp = Some 50"
    by (simp add: example_call_def)
  with r have first: "\<exists>resp m'. processResponse example_return example_call 1250 new_FunctionMetricsMap = (Inr resp, m') \<and>
       startLatency resp = Some 50 \<and> executionLatency resp = Some 150 \<and> returnLatency resp = Some 50"
    by blast
  have "ret_type untimed_return \<noteq> ''error''"
    by (simp add: untimed_return_def)
  then obtain resp2 m2 where
    r2: "processResponse untimed_return example_call 1250 new_FunctionMetricsMap = (Inr resp2, m2)"
    using processResponse_value by blast
  have "executionStart untimed_return = None"
    by (simp add: untimed_return_def)
  with processResponse_latencies [OF r2]
  have "startLatency resp2 = None \<and> executionLatency resp2 = None \<and> returnLatency resp2 = None"
    by blast
  with r2 first show ?thesis by blast
qed

section \<open>Counters only grow\<close>

lemma counters_le_refl: "counters_le m m"
  by (simp add: counters_le_def)

lemma counters_le_trans: "counters_le a b \<Longrightarrow> counters_le b c \<Longrightarrow> counters_le a c"
  unfolding counters_le_def by (meson le_trans)

lemma counters_le_increment: "counters_le m (increment fn key m)"
  by (simp add: counters_le_def increment_def)

lemma counters_le_updateMany: "counters_le m (updateMany fn l m)"
  by (simp add: counters_le_def updateMany_def update_stat_def)

lemma processResponse_counters_le: "counters_le m (snd (processResponse returned call now m))"
proof (cases "fst (processResponse returned call now m)")
  case (Inl t)
  then have "snd (processResponse returned call now m) = m"
    by (auto simp: processResponse_def Let_def split: sum.splits option.splits prod.splits if_splits)
  then show ?thesis by (simp add: counters_le_refl)
next
  case (Inr resp)
  then have r: "processResponse returned call now m = (Inr resp, snd (processResponse returned call now m))"
    by (metis prod.collapse)
  let ?m1 = "increment (name call) ''completed'' m"
  have a: "counters_le m ?m1" by (rule counters_le_increment)
  show ?thesis
  proof (cases "\<exists>es ee. executionStart returned = Some es \<and> executionEnd returned = Some ee \<and> es \<noteq> 0 \<and> ee \<noteq> 0")
    case True
    then obtain es ee where t: "executionStart returned = Some es" "executionEnd returned = Some ee" "es \<noteq> 0" "ee \<noteq> 0"
      by blast
    let ?m2 = "updateMany (name call) \<lparr> lat_execution = ee - es, lat_start = es - start call, lat_return = now - ee \<rparr> ?m1"
    have b: "counters_le m ?m2" using a counters_le_updateMany counters_le_trans by blast
    have "counters_le m (increment (name call) ''errors'' ?m2)"
      using b counters_le_increment counters_le_trans by blast
    with b show ?thesis using processResponse_timed(4) [OF r t] by simp
  next
    case False
    then have u: "executionStart returned = None \<or> executionStart returned = Some 0 \<or>
           executionEnd returned = None \<or> executionEnd returned = Some 0"
      by (cases "executionStart returned"; cases "executionEnd returned") auto
    have "counters_le m (increment (name call) ''errors'' ?m1)"
      using a counters_le_increment counters_le_trans by blast
    with a show ?thesis using processResponse_untimed(4) [OF r u] by simp
  qed
qed

lemma cloudifyWithResponse_counters_le:
  "counters_le (functionMetrics this) (functionMetrics (snd (cloudifyWithResponse fname this as rd)))"
proof -
  obtain out st where c: "callFunction this (state this) (callRequest fname as rd) = (out, st)"
    by (cases "callFunction this (state this) (callRequest fname as rd)")
  let ?p = "processResponse (case out of Resolved r \<Rightarrow> r | Rejected v \<Rightarrow> synthesized v rd)
                  (callRequest fname as rd) (processed_at rd) (functionMetrics this)"
  have "functionMetrics (snd (cloudifyWithResponse fname this as rd)) = snd ?p"
    by (simp add: cloudifyWithResponse_unfold [OF c] split: prod.splits)
  then show ?thesis using processResponse_counters_le [of "functionMetrics this"] by simp
qed

lemma cloudify_snd: "snd (cloudify fname this as rd) = snd (cloudifyWithResponse fname this as rd)"
  by (simp add: cloudify_def split: prod.splits sum.splits option.splits)

lemma invoke1_counters_le: "counters_le (functionMetrics this) (functionMetrics (invoke1 this i))"
  by (cases i) (simp_all add: cloudify_snd cloudifyWithResponse_counters_le)

lemma lifetime_counters_le: "counters_le (functionMetrics this) (functionMetrics (lifetime this invs))"
proof (induction invs arbitrary: this)
  case Nil
  then show ?case by (simp add: lifetime_def counters_le_refl)
next
  case (Cons i invs)
  have "lifetime this (i # invs) = lifetime (invoke1 this i) invs"
    by (simp add: lifetime_def)
  then show ?case
    using Cons.IH [of "invoke1 this i"] invoke1_counters_le [of this i] counters_le_trans by metis
qed

section \<open>C6: what a processed Return does to the ledger\<close>

text \<open>
  C6, as stated, fails in its third part: the latencies of a Return that
  carries both timestamps are not merged when one of them is the number \<open>0\<close>,
  by the truthiness test of \<^verbatim>\<open>processResponse\<close>. At a Return with
  \<^verbatim>\<open>executionStart = 0\<close> and \<^verbatim>\<open>executionEnd = 150\<close> the Response is built and
  no latency sample is merged.
\<close>

theorem unmerged_latency_counterexample:
  "executionStart relative_return = Some 0 \<and> executionEnd relative_return = Some 150 \<and>
   (\<exists>resp. fst (processResponse relative_return example_call 1250 new_FunctionMetricsMap) = Inr resp) \<and>
   samples (startLatencyStats
      (snd (processResponse relative_return example_call 1250 new_FunctionMetricsMap) ''hello'')) = 0 \<and>
   samples (executionLatencyStats
      (snd (processResponse relative_return example_call 1250 new_FunctionMetricsMap) ''hello'')) = 0 \<and>
   samples (returnLatencyStats
      (snd (processResponse relative_return example_call 1250 new_FunctionMetricsMap) ''hello'')) = 0"
  by (simp add: processResponse_def relative_return_def example_call_def Let_def increment_def
      new_FunctionMetricsMap_def no_samples_def)

text \<open>
  C6, amended. For every Return that \<^verbatim>\<open>processResponse\<close> turns into a
  Response, the completed counter of the called function name is incremented
  by one; the errors counter is incremented by one when the Return's type is
  \<^verbatim>\<open>"error"\<close> and is unchanged otherwise; the three latencies are merged
  into the averages (one more sample each) when both \<^verbatim>\<open>executionStart\<close> and
  \<^verbatim>\<open>executionEnd\<close> are present and not \<open>0\<close>, and the averages are unchanged
  otherwise; the entries of the other function names are unchanged. Over any
  sequence of invocations of the facade's proxies no counter decreases.
\<close>

theorem ledger_updates:
  "(processResponse returned call now m = (Inr resp, m') \<longrightarrow>
      completed (m' (name call)) = Suc (completed (m (name call))) \<and>
      errors (m' (name call)) =
        (if ret_type returned = ''error'' then Suc (errors (m (name call))) else errors (m (name call))) \<and>
      (\<forall>es ee. executionStart returned = Some es \<and> executionEnd returned = Some ee \<and>
                es \<noteq> 0 \<and> ee \<noteq> 0 \<longrightarrow>
         startLatencyStats (m' (name call)) = update_stat (es - start call) (startLatencyStats (m (name call))) \<and>
         executionLatencyStats (m' (name call)) = update_stat (ee - es) (executionLatencyStats (m (name call))) \<and>
         returnLatencyStats (m' (name call)) = update_stat (now - ee) (returnLatencyStats (m (name call)))) \<and>
      (executionStart returned = None \<or> executionStart returned = Some 0 \<or>
       executionEnd returned = None \<or> executionEnd returned = Some 0 \<longrightarrow>
         startLatencyStats (m' (name call)) = startLatencyStats (m (name call)) \<and>
         executionLatencyStats (m' (name call)) = executionLatencyStats (m (name call)) \<and>
         returnLatencyStats (m' (name call)) = returnLatencyStats (m (name call))) \<and>
      (\<forall>g. g \<noteq> name call \<longrightarrow> m' g = m g)) \<and>
   counters_le (functionMetrics this) (functionMetrics (lifetime this invs))"
proof -
  have "completed (m' (name call)) = Suc (completed (m (name call))) \<and>
      errors (m' (name call)) =
        (if ret_type returned = ''error'' then Suc (errors (m (name call))) else errors (m (name call))) \<and>
      (\<forall>es ee. executionStart returned = Some es \<and> executionEnd returned = Some ee \<and>
                es \<noteq> 0 \<and> ee \<noteq> 0 \<longrightarrow>
         startLatencyStats (m' (name call)) = update_stat (es - start call) (startLatencyStats (m (name call))) \<and>
         executionLatencyStats (m' (name call)) = update_stat (ee - es) (executionLatencyStats (m (name call))) \<and>
         returnLatencyStats (m' (name call)) = update_stat (now - ee) (returnLatencyStats (m (name call)))) \<and>
      (executionStart returned = None \<or> executionStart returned = Some 0 \<or>
       executionEnd returned = None \<or> executionEnd returned = Some 0 \<longrightarrow>
         startLatencyStats (m' (name call)) = startLatencyStats (m (name call)) \<and>
         executionLatencyStats (m' (name call)) = executionLatencyStats (m (name call)) \<and>
         returnLatencyStats (m' (name call)) = returnLatencyStats (m (name call))) \<and>
      (\<forall>g. g \<noteq> name call \<longrightarrow> m' g = m g)"
    if r: "processResponse returned call now m = (Inr resp, m')"
  proof (cases "\<exists>es ee. executionStart returned = Some es \<and> executionEnd returned = Some ee \<and> es \<noteq> 0 \<and> ee \<noteq> 0")
    case True
    then obtain es ee where t: "executionStart returned = Some es" "executionEnd returned = Some ee" "es \<noteq> 0" "ee \<noteq> 0"
      by blast
    show ?thesis
      using processResponse_timed(4) [OF r t] t
      by (simp add: increment_def updateMany_def)
  next
    case False
    then have u: "executionStart returned = None \<or> executionStart returned = Some 0 \<or>
           executionEnd returned = None \<or> executionEnd returned = Some 0"
      by (cases "executionStart returned"; cases "executionEnd returned") auto
    show ?thesis
      using processResponse_untimed(4) [OF r u] False
      by (auto simp add: increment_def)
  qed
  then show ?thesis using lifetime_counters_le by blast
qed

text \<open>
  The amended C6 at an error Return with timestamps, at a Return without
  timestamps, and at a facade invoked twice.
\<close>

theorem ledger_updates_witness:
  "(\<exists>resp m'. processResponse error_return example_call 1250 new_FunctionMetricsMap = (Inr resp, m') \<and>
      completed (m' ''hello'') = 1 \<and> errors (m' ''hello'') = 1 \<and>
      startLatencyStats (m' ''hello'') = \<lparr> samples = 1, total = 50 \<rparr> \<and>
      executionLatencyStats (m' ''hello'') = \<lparr> samples = 1, total = 150 \<rparr> \<and>
      returnLatencyStats (m' ''hello'') = \<lparr> samples = 1, total = 50 \<rparr> \<and>
      m' ''other'' = new_FunctionMetricsMap ''other'') \<and>
   (\<exists>resp m'. processResponse untimed_return example_call 1250 new_FunctionMetricsMap = (Inr resp, m') \<and>
      completed (m' ''hello'') = 1 \<and> errors (m' ''hello'') = 0 \<and>
      startLatencyStats (m' ''hello'') = no_samples) \<and>
   counters_le (functionMetrics (facade (Resolved error_return)))
     (functionMetrics (lifetime (facade (Resolved error_return))
        [WithResponse ''hello'' [JStr ''world''] example_readings,
         Unwrapped ''hello'' [JStr ''again''] later_readings]))"
proof -
  have "rebuild_error (ret_value error_return) =
          Inr \<lparr> e_name = JStr ''ValidationError'', e_message = ''bad input'',
                e_stack = Assigned (JStr ''ValidationError: bad input at hello'') \<rparr>"
    by (simp add: error_return_def validation_error_def rebuild_error_def new_Error_def)
  moreover have ty: "ret_type error_return = ''error''"
    by (simp add: error_return_def)
  ultimately obtain resp m' where
    r: "processResponse error_return example_call 1250 new_FunctionMetricsMap = (Inr resp, m')"
    using processResponse_error by blast
  have t: "executionStart error_return = Some 1050 \<and> executionEnd error_return = Some 1200 \<and>
           (1050::int) \<noteq> 0 \<and> (1200::int) \<noteq> 0"
    by (simp add: error_return_def)
  have n: "name example_call = ''hello''" "start example_call = 1000" "''other'' \<noteq> name example_call"
    by (simp_all add: example_call_def)
  note w = ledger_updates [of error_return example_call 1250 new_FunctionMetricsMap resp m'
      "facade (Resolved error_return)"
      "[WithResponse ''hello'' [JStr ''world''] example_readings,
        Unwrapped ''hello'' [JStr ''again''] later_readings]"]
  from w r ty have c1: "completed (m' ''hello'') = 1 \<and> errors (m' ''hello'') = 1"
    by (simp add: n new_FunctionMetricsMap_def)
  from w r t have "startLatencyStats (m' (name example_call)) =
                     update_stat (1050 - start example_call) (startLatencyStats (new_FunctionMetricsMap (name example_call))) \<and>
                   executionLatencyStats (m' (name example_call)) =
                     update_stat (1200 - 1050) (executionLatencyStats (new_FunctionMetricsMap (name example_call))) \<and>
                   returnLatencyStats (m' (name example_call)) =
                     update_stat (1250 - 1200) (returnLatencyStats (new_FunctionMetricsMap (name example_call)))"
    by blast
  then have c2: "startLatencyStats (m' ''hello'') = \<lparr> samples = 1, total = 50 \<rparr> \<and>
      executionLatencyStats (m' ''hello'') = \<lparr> samples = 1, total = 150 \<rparr> \<and>
      returnLatencyStats (m' ''hello'') = \<lparr> samples = 1, total = 50 \<rparr>"
    by (simp add: n new_FunctionMetricsMap_def update_stat_def no_samples_def)
  from w r n(3) have c3: "m' ''other'' = new_FunctionMetricsMap ''other''"
    by blast
  from w have c4: "counters_le (functionMetrics (facade (Resolved error_return)))
     (functionMetrics (lifetime (facade (Resolved error_return))
        [WithResponse ''hello'' [JStr ''world''] example_readings,
         Unwrapped ''hello'' [JStr ''again''] later_readings]))"
    by blast
  have ty2: "ret_type untimed_return \<noteq> ''error''"
    by (simp add: untimed_return_def)
  then obtain resp2 m2 where
    r2: "processResponse untimed_return example_call 1250 new_FunctionMetricsMap = (Inr resp2, m2)"
    using processResponse_value by blast
  have u: "executionStart untimed_return = None"
    by (simp add: untimed_return_def)
  note w2 = ledger_updates [of untimed_return example_call 1250 new_FunctionMetricsMap resp2 m2
      "facade (Resolved error_return)" "[]"]
  from w2 r2 ty2 have d1: "completed (m2 ''hello'') = 1 \<and> errors (m2 ''hello'') = 0"
    by (simp add: n new_FunctionMetricsMap_def)
  from w2 r2 u have "startLatencyStats (m2 (name example_call)) = startLatencyStats (new_FunctionMetricsMap (name example_call))"
    by blast
  then have d2: "startLatencyStats (m2 ''hello'') = no_samples"
    by (simp add: n new_FunctionMetricsMap_def)
  from r c1 c2 c3 have "\<exists>resp m'. processResponse error_return example_call 1250 new_FunctionMetricsMap = (Inr resp, m') \<and>
      completed (m' ''hello'') = 1 \<and> errors (m' ''hello'') = 1 \<and>
      startLatencyStats (m' ''hello'') = \<lparr> samples = 1, total = 50 \<rparr> \<and>
      executionLatencyStats (m' ''hello'') = \<lparr> samples = 1, total = 150 \<rparr> \<and>
      returnLatencyStats (m' ''hello'') = \<lparr> samples = 1, total = 50 \<rparr> \<and>
      m' ''other'' = new_FunctionMetricsMap ''other''"
    by blast
  moreover from r2 d1 d2 have "\<exists>resp m'. processResponse untimed_return example_call 1250 new_FunctionMetricsMap = (Inr resp, m') \<and>
      completed (m' ''hello'') = 1 \<and> errors (m' ''hello'') = 0 \<and>
      startLatencyStats (m' ''hello'') = no_samples"
    by blast
  ultimately show ?thesis using c4 by blast
qed

section \<open>Facts on the unwrapping proxy and the AWS proxy\<close>

lemma rebuild_error_fields:
  assumes "get_prop v ''name'' = Inr n" "get_prop v ''message'' = Inr (JStr m)" "get_prop v ''stack'' = Inr s"
  shows "rebuild_error v = Inr \<lparr> e_name = n, e_message = m, e_stack = Assigned s \<rparr>"
  using assms by (simp add: rebuild_error_def new_Error_def)

lemma get_prop_str_truthy: "get_prop v p = Inr (JStr (x # xs)) \<Longrightarrow> truthy v"
  by (cases v) auto

lemma cloudify_raises:
  assumes "cloudifyWithResponse fname this as rd = (Inr resp, this')" "resp_error resp = Some e"
  shows "cloudify fname this as rd = (Inl (Raised e), this')"
  using assms by (simp add: cloudify_def)

lemma cloudify_returns:
  assumes "cloudifyWithResponse fname this as rd = (Inr resp, this')" "resp_error resp = None"
  shows "cloudify fname this as rd = (Inr (resp_value resp), this')"
  using assms by (simp add: cloudify_def)

lemma cloudify_passes_on:
  assumes "cloudifyWithResponse fname this as rd = (Inl t, this')"
  shows "cloudify fname this as rd = (Inl t, this')"
  using assms by (simp add: cloudify_def)

lemma aws_error_return:
  assumes "invoke \<lparr> req_FunctionName = sfn, req_LogType = ''Tail'',
                    req_Payload = stringify json (callArgs fname as) \<rparr> = Inr rawResponse"
      and "\<not> truthy (opt_str (FunctionError rawResponse))"
      and "Payload rawResponse = Some p" "p \<noteq> []" "parse json p = Some ret"
      and "get_prop ret ''type'' = Inr (JStr ''error'')"
      and "get_prop ret ''value'' = Inr errValue"
      and "rebuild_error errValue = Inr e"
  shows "aws_cloudifyWithResponse json invoke sfn fname as =
           Inr \<lparr> resp_value = JBool False, resp_error = Some e, resp_rawResponse = rawResponse,
                 startLatency = None, executionLatency = None, returnLatency = None \<rparr>"
proof -
  have "truthy ret" using assms(6) get_prop_str_truthy by blast
  then show ?thesis
    using assms by (simp add: aws_cloudifyWithResponse_def Let_def)
qed

lemma aws_error_set:
  assumes "aws_cloudifyWithResponse json invoke sfn fname as = Inr resp" "resp_error resp \<noteq> None"
  shows "resp_value resp = JBool False"
  using assms
  by (auto simp: aws_cloudifyWithResponse_def Let_def split: sum.splits option.splits if_splits)

lemma aws_no_error:
  assumes "aws_cloudifyWithResponse json invoke sfn fname as = Inr resp" "resp_error resp = None"
  shows "Payload (resp_rawResponse resp) = None \<longrightarrow> resp_value resp = JUndefined"
    and "Payload (resp_rawResponse resp) = Some [] \<longrightarrow> resp_value resp = JStr []"
    and "\<forall>p ret. Payload (resp_rawResponse resp) = Some p \<and> p \<noteq> [] \<and> parse json p = Some ret \<longrightarrow>
           (if truthy ret then get_prop ret ''value'' = Inr (resp_value resp) else resp_value resp = ret)"
  using assms
  by (auto simp: aws_cloudifyWithResponse_def Let_def split: sum.splits option.splits if_splits)

section \<open>C3: the identity of a remote error\<close>

text \<open>
  C3. A Return whose outcome is an error with remote name \<open>N\<close>, message \<open>M\<close>
  and stack \<open>S\<close> (the three properties of its value, strings) gives a
  Response whose error has exactly the name \<open>N\<close>, the message \<open>M\<close> and the
  stack \<open>S\<close>: in \<^verbatim>\<open>processResponse\<close>, as the error thrown by the proxy of
  \<^verbatim>\<open>cloudify\<close> when the backend resolves with this Return, and in the AWS
  \<^verbatim>\<open>cloudifyWithResponse\<close> when the payload of the invocation parses to this
  Return.
\<close>

theorem error_identity_preserved:
  assumes "get_prop errValue ''name'' = Inr (JStr N)"
      and "get_prop errValue ''message'' = Inr (JStr M)"
      and "get_prop errValue ''stack'' = Inr (JStr S)"
  shows "(ret_type returned = ''error'' \<and> ret_value returned = errValue \<longrightarrow>
            (\<exists>resp m'. processResponse returned call now m = (Inr resp, m') \<and>
               resp_error resp = Some \<lparr> e_name = JStr N, e_message = M, e_stack = Assigned (JStr S) \<rparr>)) \<and>
         (callFunction this (state this) (callRequest fname as rd) = (Resolved returned, st) \<and>
          ret_type returned = ''error'' \<and> ret_value returned = errValue \<longrightarrow>
            fst (cloudify fname this as rd) =
              Inl (Raised \<lparr> e_name = JStr N, e_message = M, e_stack = Assigned (JStr S) \<rparr>)) \<and>
         (invoke \<lparr> req_FunctionName = sfn, req_LogType = ''Tail'',
                   req_Payload = stringify json (callArgs fname as) \<rparr> = Inr rawResponse \<and>
          \<not> truthy (opt_str (FunctionError rawResponse)) \<and>
          Payload rawResponse = Some p \<and> p \<noteq> [] \<and> parse json p = Some ret \<and>
          get_prop ret ''type'' = Inr (JStr ''error'') \<and> get_prop ret ''value'' = Inr errValue \<longrightarrow>
            (\<exists>resp. aws_cloudifyWithResponse json invoke sfn fname as = Inr resp \<and>
               resp_error resp = Some \<lparr> e_name = JStr N, e_message = M, e_stack = Assigned (JStr S) \<rparr>))"
proof -
  let ?e = "\<lparr> e_name = JStr N, e_message = M, e_stack = Assigned (JStr S) \<rparr>"
  have e: "rebuild_error errValue = Inr ?e"
    using assms by (rule rebuild_error_fields)
  have a: "\<exists>resp m'. processResponse returned call now m = (Inr resp, m') \<and> resp_error resp = Some ?e"
    if "ret_type returned = ''error''" "ret_value returned = errValue" for call now m
  proof -
    have "rebuild_error (ret_value returned) = Inr ?e" using that(2) e by simp
    from processResponse_error [OF that(1) this, of call now m] show ?thesis by blast
  qed
  have b: "fst (cloudify fname this as rd) = Inl (Raised ?e)"
    if c: "callFunction this (state this) (callRequest fname as rd) = (Resolved returned, st)"
      and r: "ret_type returned = ''error''" "ret_value returned = errValue"
  proof -
    obtain resp m' where p: "processResponse returned (callRequest fname as rd) (processed_at rd) (functionMetrics this) = (Inr resp, m')"
      and pe: "resp_error resp = Some ?e"
      using a [OF r] by blast
    have "cloudifyWithResponse fname this as rd = (Inr resp, this\<lparr> state := st, functionMetrics := m' \<rparr>)"
      using p by (simp add: cloudifyWithResponse_unfold [OF c])
    then show ?thesis using pe cloudify_raises by fastforce
  qed
  have c: "\<exists>resp. aws_cloudifyWithResponse json invoke sfn fname as = Inr resp \<and> resp_error resp = Some ?e"
    if "invoke \<lparr> req_FunctionName = sfn, req_LogType = ''Tail'',
                   req_Payload = stringify json (callArgs fname as) \<rparr> = Inr rawResponse"
       "\<not> truthy (opt_str (FunctionError rawResponse))"
       "Payload rawResponse = Some p" "p \<noteq> []" "parse json p = Some ret"
       "get_prop ret ''type'' = Inr (JStr ''error'')" "get_prop ret ''value'' = Inr errValue"
    using aws_error_return [of invoke sfn json fname as rawResponse p ret errValue ?e] that e by simp
  from a b c show ?thesis by blast
qed

text \<open>
  C3 at the example of the specification: a remote \<^verbatim>\<open>ValidationError\<close> with
  the message \<^verbatim>\<open>bad input\<close>.
\<close>

theorem error_identity_preserved_witness:
  "(\<exists>resp m'. processResponse error_return example_call 1250 new_FunctionMetricsMap = (Inr resp, m') \<and>
      resp_error resp = Some \<lparr> e_name = JStr ''ValidationError'', e_message = ''bad input'',
                                e_stack = Assigned (JStr ''ValidationError: bad input at hello'') \<rparr>) \<and>
   fst (cloudify ''hello'' (facade (Resolved error_return)) [JStr ''world''] example_readings) =
     Inl (Raised \<lparr> e_name = JStr ''ValidationError'', e_message = ''bad input'',
                   e_stack = Assigned (JStr ''ValidationError: bad input at hello'') \<rparr>) \<and>
   (\<exists>resp. aws_cloudifyWithResponse (json_for (return_object ''error'' validation_error))
              (invoke_gives (Inr payload_R)) ''cloudify-1'' ''hello'' [JStr ''world''] = Inr resp \<and>
      resp_error resp = Some \<lparr> e_name = JStr ''ValidationError'', e_message = ''bad input'',
                                e_stack = Assigned (JStr ''ValidationError: bad input at hello'') \<rparr>)"
proof -
  have g: "get_prop validation_error ''name'' = Inr (JStr ''ValidationError'')"
          "get_prop validation_error ''message'' = Inr (JStr ''bad input'')"
          "get_prop validation_error ''stack'' = Inr (JStr ''ValidationError: bad input at hello'')"
    by (simp_all add: validation_error_def)
  have r: "ret_type error_return = ''error'' \<and> ret_value error_return = validation_error"
    by (simp add: error_return_def)
  have f: "callFunction (facade (Resolved error_return)) (state (facade (Resolved error_return)))
             (callRequest ''hello'' [JStr ''world''] example_readings) = (Resolved error_return, ())"
    by (simp add: facade_def always_def)
  have i: "invoke_gives (Inr payload_R)
             \<lparr> req_FunctionName = ''cloudify-1'', req_LogType = ''Tail'',
               req_Payload = stringify (json_for (return_object ''error'' validation_error))
                               (callArgs ''hello'' [JStr ''world'']) \<rparr> = Inr payload_R"
    by (simp add: invoke_gives_def)
  have p: "\<not> truthy (opt_str (FunctionError payload_R)) \<and> Payload payload_R = Some ''R'' \<and> ''R'' \<noteq> [] \<and>
           parse (json_for (return_object ''error'' validation_error)) ''R''
             = Some (return_object ''error'' validation_error)"
    by (simp add: payload_R_def opt_str_def json_for_def)
  have o: "get_prop (return_object ''error'' validation_error) ''type'' = Inr (JStr ''error'') \<and>
           get_prop (return_object ''error'' validation_error) ''value'' = Inr validation_error"
    by (simp add: return_object_def)
  note w = error_identity_preserved [OF g, of error_return example_call 1250 new_FunctionMetricsMap
      "facade (Resolved error_return)" "''hello''" "[JStr ''world'']" example_readings "()"
      "invoke_gives (Inr payload_R)" "''cloudify-1''" "json_for (return_object ''error'' validation_error)"
      payload_R "''R''" "return_object ''error'' validation_error"]
  from w r f i p o show ?thesis by blast
qed

section \<open>C4: the unwrapping proxy\<close>

text \<open>
  C4. An invocation of the proxy of \<^verbatim>\<open>cloudify\<close>: when the Response of
  \<^verbatim>\<open>cloudifyWithResponse\<close> for the same invocation has an error, the
  invocation raises exactly that error; otherwise it returns the Response's
  value and nothing else. In particular, when the backend resolves with a
  Return that is not an error, the invocation returns the Return's value.
\<close>

theorem cloudify_unwraps:
  "(cloudifyWithResponse fname this as rd = (Inr response, this') \<longrightarrow>
      (\<forall>e. resp_error response = Some e \<longrightarrow> cloudify fname this as rd = (Inl (Raised e), this')) \<and>
      (resp_error response = None \<longrightarrow> cloudify fname this as rd = (Inr (resp_value response), this'))) \<and>
   (callFunction this (state this) (callRequest fname as rd) = (Resolved returned, st) \<and>
    ret_type returned \<noteq> ''error'' \<longrightarrow>
      fst (cloudify fname this as rd) = Inr (ret_value returned))"
proof -
  have "fst (cloudify fname this as rd) = Inr (ret_value returned)"
    if c: "callFunction this (state this) (callRequest fname as rd) = (Resolved returned, st)"
      and r: "ret_type returned \<noteq> ''error''"
  proof -
    obtain resp m' where p: "processResponse returned (callRequest fname as rd) (processed_at rd) (functionMetrics this) = (Inr resp, m')"
      and pe: "resp_error resp = None" "resp_value resp = ret_value returned"
      using processResponse_value [OF r] by blast
    have "cloudifyWithResponse fname this as rd = (Inr resp, this\<lparr> state := st, functionMetrics := m' \<rparr>)"
      using p by (simp add: cloudifyWithResponse_unfold [OF c])
    then show ?thesis using pe cloudify_returns by fastforce
  qed
  then show ?thesis using cloudify_raises cloudify_returns by blast
qed

text \<open>C4 at a backend that answers with an error Return, and at one that answers with a value.\<close>

theorem cloudify_unwraps_witness:
  "fst (cloudify ''hello'' (facade (Resolved error_return)) [JStr ''world''] example_readings) =
     Inl (Raised \<lparr> e_name = JStr ''ValidationError'', e_message = ''bad input'',
                   e_stack = Assigned (JStr ''ValidationError: bad input at hello'') \<rparr>) \<and>
   fst (cloudify ''hello'' (facade (Resolved example_return)) [JStr ''world''] example_readings) =
     Inr (JStr ''hello world'')"
proof -
  let ?e = "\<lparr> e_name = JStr ''ValidationError'', e_message = ''bad input'',
              e_stack = Assigned (JStr ''ValidationError: bad input at hello'') \<rparr>"
  let ?fa = "facade (Resolved error_return)"
  let ?as = "[JStr ''world'']"
  have c: "callFunction ?fa (state ?fa) (callRequest ''hello'' ?as example_readings) = (Resolved error_return, ())"
    by (simp add: facade_def always_def)
  have "ret_type error_return = ''error''"
    by (simp add: error_return_def)
  moreover have "rebuild_error (ret_value error_return) = Inr ?e"
    by (simp add: error_return_def validation_error_def rebuild_error_def new_Error_def)
  ultimately obtain resp m' where
    p: "processResponse error_return (callRequest ''hello'' ?as example_readings)
          (processed_at example_readings) (functionMetrics ?fa) = (Inr resp, m')"
    and pe: "resp_error resp = Some ?e"
    using processResponse_error by blast
  have h: "cloudifyWithResponse ''hello'' ?fa ?as example_readings =
             (Inr resp, ?fa\<lparr> state := (), functionMetrics := m' \<rparr>)"
    using p by (simp add: cloudifyWithResponse_unfold [OF c])
  from cloudify_unwraps [of "''hello''" ?fa ?as example_readings resp
         "?fa\<lparr> state := (), functionMetrics := m' \<rparr>" error_return "()"] h pe
  have first: "fst (cloudify ''hello'' ?fa ?as example_readings) = Inl (Raised ?e)"
    by simp
  let ?fb = "facade (Resolved example_return)"
  have c2: "callFunction ?fb (state ?fb) (callRequest ''hello'' ?as example_readings) = (Resolved example_return, ())"
    by (simp add: facade_def always_def)
  have t2: "ret_type example_return \<noteq> ''error''"
    by (simp add: example_return_def)
  then obtain resp2 m2 where
    p2: "processResponse example_return (callRequest ''hello'' ?as example_readings)
          (processed_at example_readings) (functionMetrics ?fb) = (Inr resp2, m2)"
    and pe2: "resp_error resp2 = None"
    using processResponse_value by blast
  have h2: "cloudifyWithResponse ''hello'' ?fb ?as example_readings =
             (Inr resp2, ?fb\<lparr> state := (), functionMetrics := m2 \<rparr>)"
    using p2 by (simp add: cloudifyWithResponse_unfold [OF c2])
  from cloudify_unwraps [of "''hello''" ?fb ?as example_readings resp2
         "?fb\<lparr> state := (), functionMetrics := m2 \<rparr>" example_return "()"] h2 pe2 c2 t2
  have u: "fst (cloudify ''hello'' ?fb ?as example_readings) = Inr (ret_value example_return)"
    by blast
  have "ret_value example_return = JStr ''hello world''"
    by (simp add: example_return_def)
  with u have "fst (cloudify ''hello'' ?fb ?as example_readings) = Inr (JStr ''hello world'')"
    by simp
  with first show ?thesis by blast
qed

section \<open>C10: value and error of a Response exclude each other\<close>

text \<open>
  C10. In a Response of \<^verbatim>\<open>processResponse\<close> and in one of the AWS
  \<^verbatim>\<open>cloudifyWithResponse\<close>: when the error is set, the value is the constant
  \<^verbatim>\<open>false\<close>, whatever the Return held, so it is never a result; when no error
  is set, the value is the value of the Return (on the AWS path: the
  \<^verbatim>\<open>value\<close> property of the parsed payload; the payload itself or what it
  parses to when that is falsy and there is no Return).
\<close>

theorem response_exclusive:
  "(processResponse returned call now m = (Inr resp, m') \<longrightarrow>
      (resp_error resp \<noteq> None \<longrightarrow> resp_value resp = JBool False) \<and>
      (resp_error resp = None \<longrightarrow> resp_value resp = ret_value returned)) \<and>
   (aws_cloudifyWithResponse json invoke sfn fname as = Inr aresp \<longrightarrow>
      (resp_error aresp \<noteq> None \<longrightarrow> resp_value aresp = JBool False) \<and>
      (resp_error aresp = None \<longrightarrow>
         (Payload (resp_rawResponse aresp) = None \<longrightarrow> resp_value aresp = JUndefined) \<and>
         (Payload (resp_rawResponse aresp) = Some [] \<longrightarrow> resp_value aresp = JStr []) \<and>
         (\<forall>p ret. Payload (resp_rawResponse aresp) = Some p \<and> p \<noteq> [] \<and> parse json p = Some ret \<longrightarrow>
            (if truthy ret then get_prop ret ''value'' = Inr (resp_value aresp)
             else resp_value aresp = ret))))"
proof (rule conjI)
  show "processResponse returned call now m = (Inr resp, m') \<longrightarrow>
      (resp_error resp \<noteq> None \<longrightarrow> resp_value resp = JBool False) \<and>
      (resp_error resp = None \<longrightarrow> resp_value resp = ret_value returned)"
  proof
    assume "processResponse returned call now m = (Inr resp, m')"
    then show "(resp_error resp \<noteq> None \<longrightarrow> resp_value resp = JBool False) \<and>
      (resp_error resp = None \<longrightarrow> resp_value resp = ret_value returned)"
      by (rule processResponse_cases) simp_all
  qed
  show "aws_cloudifyWithResponse json invoke sfn fname as = Inr aresp \<longrightarrow>
      (resp_error aresp \<noteq> None \<longrightarrow> resp_value aresp = JBool False) \<and>
      (resp_error aresp = None \<longrightarrow>
         (Payload (resp_rawResponse aresp) = None \<longrightarrow> resp_value aresp = JUndefined) \<and>
         (Payload (resp_rawResponse aresp) = Some [] \<longrightarrow> resp_value aresp = JStr []) \<and>
         (\<forall>p ret. Payload (resp_rawResponse aresp) = Some p \<and> p \<noteq> [] \<and> parse json p = Some ret \<longrightarrow>
            (if truthy ret then get_prop ret ''value'' = Inr (resp_value aresp)
             else resp_value aresp = ret)))"
  proof
    assume h: "aws_cloudifyWithResponse json invoke sfn fname as = Inr aresp"
    show "(resp_error aresp \<noteq> None \<longrightarrow> resp_value aresp = JBool False) \<and>
      (resp_error aresp = None \<longrightarrow>
         (Payload (resp_rawResponse aresp) = None \<longrightarrow> resp_value aresp = JUndefined) \<and>
         (Payload (resp_rawResponse aresp) = Some [] \<longrightarrow> resp_value aresp = JStr []) \<and>
         (\<forall>p ret. Payload (resp_rawResponse aresp) = Some p \<and> p \<noteq> [] \<and> parse json p = Some ret \<longrightarrow>
            (if truthy ret then get_prop ret ''value'' = Inr (resp_value aresp)
             else resp_value aresp = ret)))"
    proof (cases "resp_error aresp")
      case None
      then show ?thesis using aws_no_error [OF h None] by simp
    next
      case (Some e)
      then show ?thesis using aws_error_set [OF h] by simp
    qed
  qed
qed

text \<open>
  C10 at an error Return and at a value Return, on both paths, and at an AWS
  invocation without payload.
\<close>

theorem response_exclusive_witness:
  "(\<exists>resp m'. processResponse error_return example_call 1250 new_FunctionMetricsMap = (Inr resp, m') \<and>
      resp_error resp \<noteq> None \<and> resp_value resp = JBool False) \<and>
   (\<exists>resp m'. processResponse example_return example_call 1250 new_FunctionMetricsMap = (Inr resp, m') \<and>
      resp_error resp = None \<and> resp_value resp = JStr ''hello world'') \<and>
   (\<exists>aresp. aws_cloudifyWithResponse (json_for (return_object ''error'' validation_error))
               (invoke_gives (Inr payload_R)) ''cloudify-1'' ''hello'' [JStr ''world''] = Inr aresp \<and>
      resp_error aresp \<noteq> None \<and> resp_value aresp = JBool False) \<and>
   (\<exists>aresp. aws_cloudifyWithResponse (json_for (return_object ''value'' (JStr ''hello world'')))
               (invoke_gives (Inr payload_R)) ''cloudify-1'' ''hello'' [JStr ''world''] = Inr aresp \<and>
      resp_error aresp = None \<and> get_prop (return_object ''value'' (JStr ''hello world'')) ''value'' = Inr (resp_value aresp)) \<and>
   (\<exists>aresp. aws_cloudifyWithResponse (json_for JNull)
               (invoke_gives (Inr no_payload)) ''cloudify-1'' ''hello'' [JStr ''world''] = Inr aresp \<and>
      resp_error aresp = None \<and> resp_value aresp = JUndefined)"
proof -
  let ?e = "\<lparr> e_name = JStr ''ValidationError'', e_message = ''bad input'',
              e_stack = Assigned (JStr ''ValidationError: bad input at hello'') \<rparr>"
  have re: "rebuild_error validation_error = Inr ?e"
    by (simp add: validation_error_def rebuild_error_def new_Error_def)
  have "ret_type error_return = ''error''" "rebuild_error (ret_value error_return) = Inr ?e"
    using re by (simp_all add: error_return_def)
  then obtain r1 m1 where
    p1: "processResponse error_return example_call 1250 new_FunctionMetricsMap = (Inr r1, m1)"
    and e1: "resp_error r1 = Some ?e"
    using processResponse_error by blast
  from e1 have ne1: "resp_error r1 \<noteq> None" by simp
  note w1 = response_exclusive [of error_return example_call 1250 new_FunctionMetricsMap r1 m1]
  from w1 p1 ne1 have v1: "resp_value r1 = JBool False" by blast
  have "ret_type example_return \<noteq> ''error''"
    by (simp add: example_return_def)
  then obtain r2 m2 where
    p2: "processResponse example_return example_call 1250 new_FunctionMetricsMap = (Inr r2, m2)"
    and e2: "resp_error r2 = None"
    using processResponse_value by blast
  note w2 = response_exclusive [of example_return example_call 1250 new_FunctionMetricsMap r2 m2]
  from w2 p2 e2 have "resp_value r2 = ret_value example_return" by blast
  then have v2: "resp_value r2 = JStr ''hello world''"
    by (simp add: example_return_def)
  let ?j3 = "json_for (return_object ''error'' validation_error)"
  let ?r3 = "\<lparr> resp_value = JBool False, resp_error = Some ?e, resp_rawResponse = payload_R,
                startLatency = None, executionLatency = None, returnLatency = None \<rparr>"
  have p3: "aws_cloudifyWithResponse ?j3 (invoke_gives (Inr payload_R)) ''cloudify-1'' ''hello'' [JStr ''world'']
              = Inr ?r3"
    by (rule aws_error_return [where p = "''R''" and ret = "return_object ''error'' validation_error"
                                 and errValue = validation_error])
       (simp_all add: invoke_gives_def payload_R_def opt_str_def json_for_def return_object_def re)
  have ne3: "resp_error ?r3 \<noteq> None" by simp
  note w3 = response_exclusive [of _ _ _ _ _ _ ?j3 "invoke_gives (Inr payload_R)" "''cloudify-1''"
      "''hello''" "[JStr ''world'']" ?r3]
  from w3 p3 ne3 have v3: "resp_value ?r3 = JBool False" by blast
  let ?j4 = "json_for (return_object ''value'' (JStr ''hello world''))"
  obtain r4 where p4: "aws_cloudifyWithResponse ?j4 (invoke_gives (Inr payload_R)) ''cloudify-1'' ''hello'' [JStr ''world'']
              = Inr r4" and e4: "resp_error r4 = None" and raw4: "resp_rawResponse r4 = payload_R"
    by (simp add: aws_cloudifyWithResponse_def invoke_gives_def payload_R_def opt_str_def json_for_def
        return_object_def Let_def)
  have h4: "Payload (resp_rawResponse r4) = Some ''R'' \<and> ''R'' \<noteq> [] \<and>
            parse ?j4 ''R'' = Some (return_object ''value'' (JStr ''hello world'')) \<and>
            truthy (return_object ''value'' (JStr ''hello world''))"
    by (simp add: raw4 payload_R_def json_for_def return_object_def)
  note w4 = response_exclusive [of _ _ _ _ _ _ ?j4 "invoke_gives (Inr payload_R)" "''cloudify-1''"
      "''hello''" "[JStr ''world'']" r4]
  from w4 p4 e4 have "\<forall>p ret. Payload (resp_rawResponse r4) = Some p \<and> p \<noteq> [] \<and> parse ?j4 p = Some ret \<longrightarrow>
            (if truthy ret then get_prop ret ''value'' = Inr (resp_value r4) else resp_value r4 = ret)"
    by blast
  then have "if truthy (return_object ''value'' (JStr ''hello world''))
             then get_prop (return_object ''value'' (JStr ''hello world'')) ''value'' = Inr (resp_value r4)
             else resp_value r4 = return_object ''value'' (JStr ''hello world'')"
    using h4 by blast
  with h4 have v4: "get_prop (return_object ''value'' (JStr ''hello world'')) ''value'' = Inr (resp_value r4)"
    by (simp only: if_True)
  obtain r5 where p5: "aws_cloudifyWithResponse (json_for JNull) (invoke_gives (Inr no_payload)) ''cloudify-1'' ''hello'' [JStr ''world'']
              = Inr r5" and e5: "resp_error r5 = None" and raw5: "resp_rawResponse r5 = no_payload"
    by (simp add: aws_cloudifyWithResponse_def invoke_gives_def no_payload_def opt_str_def Let_def)
  have h5: "Payload (resp_rawResponse r5) = None"
    by (simp add: raw5 no_payload_def)
  note w5 = response_exclusive [of _ _ _ _ _ _ "json_for JNull" "invoke_gives (Inr no_payload)" "''cloudify-1''"
      "''hello''" "[JStr ''world'']" r5]
  from w5 p5 e5 h5 have v5: "resp_value r5 = JUndefined" by blast
  from p1 ne1 v1 p2 e2 v2 p3 ne3 v3 p4 e4 v4 p5 e5 v5 show ?thesis by blast
qed

section \<open>C7: wrapping a namespace\<close>

lemma cloudifyAll_loop_gen:
  "foldl (\<lambda>(module, rv) key.
              (case map_of module key of
                 Some (JFun n src) \<Rightarrow> (module, AList.update key (wrap n) rv)
               | _ \<Rightarrow> (module, rv)))
       (m, rv0) ks
   = (m, foldl (\<lambda>rv key. (case map_of m key of
                 Some (JFun n src) \<Rightarrow> AList.update key (wrap n) rv
               | _ \<Rightarrow> rv)) rv0 ks)"
  by (induction ks arbitrary: rv0) (auto split: option.splits member.splits)

lemma wrap_loop_lookup:
  "map_of (foldl (\<lambda>rv key. (case map_of m key of
                 Some (JFun n src) \<Rightarrow> AList.update key (wrap n) rv
               | _ \<Rightarrow> rv)) rv0 ks) k
   = (if k \<in> set ks then (case map_of m k of Some (JFun n src) \<Rightarrow> Some (wrap n) | _ \<Rightarrow> map_of rv0 k)
      else map_of rv0 k)"
proof (induction ks arbitrary: rv0)
  case Nil
  then show ?case by simp
next
  case (Cons a ks)
  show ?case
    by (cases "map_of m a") (auto simp: Cons.IH update_conv' split: option.splits member.splits)
qed

lemma map_of_keys: "k \<notin> set (Object_keys m) \<Longrightarrow> map_of m k = None"
  by (simp add: Object_keys_def map_of_eq_None_iff)

text \<open>
  C7. The result of \<^verbatim>\<open>cloudifyAll\<close> (of \<^verbatim>\<open>cloudifyAllWithResponse\<close>) has,
  under every key whose entry in the namespace is a function, the proxy
  \<^verbatim>\<open>cloudify\<close> (\<^verbatim>\<open>cloudifyWithResponse\<close>) builds for that function, and has
  no entry under any other key; the namespace is the same after the loop as
  before it.
\<close>

theorem cloudifyAll_wraps_functions:
  "map_of (cloudifyAll module :: (string \<times> ('s, jsval) proxy) list) k =
     (case map_of module k of Some (JFun n src) \<Rightarrow> Some (cloudify n) | _ \<Rightarrow> None) \<and>
   map_of (cloudifyAllWithResponse module :: (string \<times> ('s, jsval ResponseDetails) proxy) list) k =
     (case map_of module k of Some (JFun n src) \<Rightarrow> Some (cloudifyWithResponse n) | _ \<Rightarrow> None) \<and>
   fst (cloudifyAll_loop module :: (string \<times> member) list \<times> (string \<times> ('s, jsval) proxy) list) = module \<and>
   fst (cloudifyAllWithResponse_loop module
          :: (string \<times> member) list \<times> (string \<times> ('s, jsval ResponseDetails) proxy) list) = module"
proof -
  have a: "map_of (cloudifyAll module :: (string \<times> ('s, jsval) proxy) list) k =
     (case map_of module k of Some (JFun n src) \<Rightarrow> Some (cloudify n) | _ \<Rightarrow> None)"
    unfolding cloudifyAll_def cloudifyAll_loop_def cloudifyAll_loop_gen
    using map_of_keys [of k module]
    by (cases "k \<in> set (Object_keys module)") (auto simp: wrap_loop_lookup split: option.splits member.splits)
  have b: "map_of (cloudifyAllWithResponse module :: (string \<times> ('s, jsval ResponseDetails) proxy) list) k =
     (case map_of module k of Some (JFun n src) \<Rightarrow> Some (cloudifyWithResponse n) | _ \<Rightarrow> None)"
    unfolding cloudifyAllWithResponse_def cloudifyAllWithResponse_loop_def cloudifyAll_loop_gen
    using map_of_keys [of k module]
    by (cases "k \<in> set (Object_keys module)") (auto simp: wrap_loop_lookup split: option.splits member.splits)
  have c: "fst (cloudifyAll_loop module :: (string \<times> member) list \<times> (string \<times> ('s, jsval) proxy) list) = module"
          "fst (cloudifyAllWithResponse_loop module
                 :: (string \<times> member) list \<times> (string \<times> ('s, jsval ResponseDetails) proxy) list) = module"
    unfolding cloudifyAll_loop_def cloudifyAllWithResponse_loop_def cloudifyAll_loop_gen by simp_all
  from a b c show ?thesis by blast
qed

text \<open>
  C7 at the example of the specification: two functions and one constant.
\<close>

theorem cloudifyAll_wraps_functions_witness:
  "map_of (cloudifyAll example_module :: (string \<times> (unit, jsval) proxy) list) ''hello'' = Some (cloudify ''hello'') \<and>
   map_of (cloudifyAll example_module :: (string \<times> (unit, jsval) proxy) list) ''add'' = Some (cloudify ''add'') \<and>
   map_of (cloudifyAll example_module :: (string \<times> (unit, jsval) proxy) list) ''version'' = None \<and>
   map_of (cloudifyAllWithResponse example_module :: (string \<times> (unit, jsval ResponseDetails) proxy) list) ''hello''
     = Some (cloudifyWithResponse ''hello'') \<and>
   map_of (cloudifyAllWithResponse example_module :: (string \<times> (unit, jsval ResponseDetails) proxy) list) ''version''
     = None \<and>
   fst (cloudifyAll_loop example_module :: (string \<times> member) list \<times> (string \<times> (unit, jsval) proxy) list) = example_module"
proof -
  have h: "map_of example_module ''hello'' = Some (JFun ''hello'' ''function hello(name) { return name; }'')"
    and a: "map_of example_module ''add'' = Some (JFun ''add'' ''function add(a, b) { return a + b; }'')"
    and v: "map_of example_module ''version'' = Some (JValue (JNum (Abs_safe_integer 3)))"
    by (simp_all add: example_module_def)
  note wh = cloudifyAll_wraps_functions [where ?'s = unit, of example_module "''hello''"]
  note wa = cloudifyAll_wraps_functions [where ?'s = unit, of example_module "''add''"]
  note wv = cloudifyAll_wraps_functions [where ?'s = unit, of example_module "''version''"]
  from wh have 1: "map_of (cloudifyAll example_module :: (string \<times> (unit, jsval) proxy) list) ''hello'' = Some (cloudify ''hello'')"
    by (simp add: h)
  from wa have 2: "map_of (cloudifyAll example_module :: (string \<times> (unit, jsval) proxy) list) ''add'' = Some (cloudify ''add'')"
    by (simp add: a)
  from wv have 3: "map_of (cloudifyAll example_module :: (string \<times> (unit, jsval) proxy) list) ''version'' = None"
    by (simp add: v)
  from wh have 4: "map_of (cloudifyAllWithResponse example_module :: (string \<times> (unit, jsval ResponseDetails) proxy) list) ''hello''
     = Some (cloudifyWithResponse ''hello'')"
    by (simp add: h)
  from wv have 5: "map_of (cloudifyAllWithResponse example_module :: (string \<times> (unit, jsval ResponseDetails) proxy) list) ''version''
     = None"
    by (simp add: v)
  from wh have 6: "fst (cloudifyAll_loop example_module :: (string \<times> member) list \<times> (string \<times> (unit, jsval) proxy) list) = example_module"
    by simp
  from 1 2 3 4 5 6 show ?thesis by blast
qed

section \<open>C8: cleanup goes on after a failed deletion\<close>

lemma log_step: "log e (w, lg) = (Inr (), (w, lg @ [e]))"
  by (simp add: log_def)

lemma carefully_resolves: "\<exists>x s'. carefully svc req s = (Inr x, s')"
  by (cases s) (auto simp: carefully_def promise_def log_def split: prod.splits sum.splits)

lemma carefully_failure:
  "svc req w = (Inl err, w') \<Longrightarrow> carefully svc req (w, lg) = (Inr None, (w', lg @ [Logged err]))"
  by (simp add: carefully_def promise_def log_def)

lemma carefully_success:
  "svc req w = (Inr u, w') \<Longrightarrow> carefully svc req (w, lg) = (Inr (Some u), (w', lg))"
  by (simp add: carefully_def promise_def)

lemma quietly_failure:
  "svc req w = (Inl err, w') \<Longrightarrow> quietly svc req (w, lg) = (Inr None, (w', lg))"
  by (simp add: quietly_def promise_def)

lemma carefully_tracing:
  "\<exists>r w'. carefully (tracing svc) req ((w, tr), lg)
      = (Inr (case r of Inl err \<Rightarrow> None | Inr u \<Rightarrow> Some u), ((w', tr @ [(req, r)]), lg @ failure r))"
  by (auto simp: carefully_def promise_def log_def tracing_def failure_def
      split: prod.splits sum.splits)

lemma failures_append: "failures (a @ b) = failures a @ failures b"
  by (simp add: failures_def)

lemma failures_single: "failures [(req, r)] = failure r"
  by (simp add: failures_def)

lemma cleanup_log_append: "cleanup_log (a @ b) = cleanup_log a @ cleanup_log b"
  by (simp add: cleanup_log_def)

lemma enumerate_map_snd:
  "enumerate n (map g xs) = map (\<lambda>ix. (fst ix, g (snd ix))) (enumerate n xs)"
  by (induction xs arbitrary: n) simp_all

lemma insort_key_map_snd:
  "insort_key (\<lambda>ix. at (fst ix)) (fst x, g (snd x)) (map (\<lambda>ix. (fst ix, g (snd ix))) ys)
     = map (\<lambda>ix. (fst ix, g (snd ix))) (insort_key (\<lambda>ix. at (fst ix)) x ys)"
  by (induction ys) simp_all

lemma sort_key_map_snd:
  "sort_key (\<lambda>ix. at (fst ix)) (map (\<lambda>ix. (fst ix, g (snd ix))) xs)
     = map (\<lambda>ix. (fst ix, g (snd ix))) (sort_key (\<lambda>ix. at (fst ix)) xs)"
  by (induction xs) (simp_all add: insort_key_map_snd)

lemma settlement_order_map:
  "settlement_order at (map g xs) = map (\<lambda>ix. (fst ix, g (snd ix))) (settlement_order at xs)"
  by (simp add: settlement_order_def enumerate_map_snd sort_key_map_snd)

lemma run_all_carefully:
  "\<exists>rs s'. run_all (map (\<lambda>ix. (fst ix, carefully svc (f (snd ix)))) ips) s = (rs, s') \<and>
      [err. (i, Inl err) \<leftarrow> rs] = []"
proof (induction ips arbitrary: s)
  case Nil
  then show ?case by simp
next
  case (Cons a ips)
  obtain x s1 where 1: "carefully svc (f (snd a)) s = (Inr x, s1)"
    using carefully_resolves by blast
  obtain rs s2 where 2: "run_all (map (\<lambda>ix. (fst ix, carefully svc (f (snd ix)))) ips) s1 = (rs, s2)"
      and 3: "[err. (i, Inl err) \<leftarrow> rs] = []"
    using Cons.IH [of s1] by blast
  have "run_all (map (\<lambda>ix. (fst ix, carefully svc (f (snd ix)))) (a # ips)) s = ((fst a, Inr x) # rs, s2)"
    by (simp add: 1 2)
  moreover have "[err. (i, Inl err) \<leftarrow> (fst a, Inr x) # rs] = []"
    using 3 by simp
  ultimately show ?case by blast
qed

lemma run_all_tracing:
  "\<exists>rs w' new.
     run_all (map (\<lambda>ix. (fst ix, carefully (tracing svc) (f (snd ix)))) ips) ((w, tr), lg)
       = (rs, ((w', tr @ new), lg @ failures new)) \<and>
     map fst new = map (\<lambda>ix. f (snd ix)) ips \<and>
     [err. (i, Inl err) \<leftarrow> rs] = []"
proof (induction ips arbitrary: w tr lg)
  case Nil
  have "run_all (map (\<lambda>ix. (fst ix, carefully (tracing svc) (f (snd ix)))) []) ((w, tr), lg)
       = ([], ((w, tr @ []), lg @ failures []))"
    by (simp add: failures_def)
  then show ?case by (intro exI [of _ "[]"] exI [of _ w]) simp
next
  case (Cons a ips)
  obtain r w1 where 1: "carefully (tracing svc) (f (snd a)) ((w, tr), lg)
      = (Inr (case r of Inl err \<Rightarrow> None | Inr u \<Rightarrow> Some u), ((w1, tr @ [(f (snd a), r)]), lg @ failure r))"
    using carefully_tracing [of svc "f (snd a)" w tr lg] by blast
  define t1 where "t1 = tr @ [(f (snd a), r)]"
  define l1 where "l1 = lg @ failure r"
  obtain rs w2 new where
    2: "run_all (map (\<lambda>ix. (fst ix, carefully (tracing svc) (f (snd ix)))) ips) ((w1, t1), l1)
       = (rs, ((w2, t1 @ new), l1 @ failures new))"
    and 3: "map fst new = map (\<lambda>ix. f (snd ix)) ips"
    and 4: "[err. (i, Inl err) \<leftarrow> rs] = []"
    using Cons.IH [of w1 t1 l1] by blast
  note f1 = 1 [folded t1_def l1_def]
  let ?x = "case r of Inl err \<Rightarrow> None | Inr u \<Rightarrow> Some u"
  have a: "run_all (map (\<lambda>ix. (fst ix, carefully (tracing svc) (f (snd ix)))) (a # ips)) ((w, tr), lg)
       = ((fst a, Inr ?x) # rs, ((w2, t1 @ new), l1 @ failures new))"
    by (simp add: f1 2)
  have b: "t1 @ new = tr @ ((f (snd a), r) # new)"
    by (simp add: t1_def)
  have c: "l1 @ failures new = lg @ failures ((f (snd a), r) # new)"
    by (simp add: l1_def failures_def)
  have d: "map fst ((f (snd a), r) # new) = map (\<lambda>ix. f (snd ix)) (a # ips)"
    using 3 by simp
  have e: "[err. (i, Inl err) \<leftarrow> (fst a, Inr ?x) # rs] = []"
    using 4 by simp
  from a b c have "run_all (map (\<lambda>ix. (fst ix, carefully (tracing svc) (f (snd ix)))) (a # ips)) ((w, tr), lg)
       = ((fst a, Inr ?x) # rs, ((w2, tr @ ((f (snd a), r) # new)), lg @ failures ((f (snd a), r) # new)))"
    by simp
  with d e show ?case by blast
qed

lemma detach_all_resolves:
  "\<exists>xs s'. Promise_all at (map (\<lambda>policy. carefully svc (f policy)) ps) s = (Inr xs, s')"
proof -
  obtain rs s' where 1: "run_all (map (\<lambda>ix. (fst ix, carefully svc (f (snd ix)))) (settlement_order at ps)) s = (rs, s')"
    and 2: "[err. (i, Inl err) \<leftarrow> rs] = []"
    using run_all_carefully [of svc f "settlement_order at ps" s] by blast
  have "Promise_all at (map (\<lambda>policy. carefully svc (f policy)) ps) s
      = (Inr [x. (i, Inr x) \<leftarrow> sort_key fst rs], s')"
    unfolding Promise_all_def settlement_order_map
    by (simp only: 1 2 prod.case list.case)
  then show ?thesis by blast
qed

lemma detach_all_tracing:
  "\<exists>xs w' new. Promise_all at (map (\<lambda>policy. carefully (tracing svc) (f policy)) ps) ((w, tr), lg)
      = (Inr xs, ((w', tr @ new), lg @ failures new)) \<and>
     map fst new = map (\<lambda>ix. f (snd ix)) (settlement_order at ps)"
proof -
  obtain rs w' new where
    1: "run_all (map (\<lambda>ix. (fst ix, carefully (tracing svc) (f (snd ix)))) (settlement_order at ps)) ((w, tr), lg)
       = (rs, ((w', tr @ new), lg @ failures new))"
    and 2: "map fst new = map (\<lambda>ix. f (snd ix)) (settlement_order at ps)"
    and 3: "[err. (i, Inl err) \<leftarrow> rs] = []"
    using run_all_tracing [of svc f "settlement_order at ps" w tr lg] by blast
  have "Promise_all at (map (\<lambda>policy. carefully (tracing svc) (f policy)) ps) ((w, tr), lg)
      = (Inr [x. (i, Inr x) \<leftarrow> sort_key fst rs], ((w', tr @ new), lg @ failures new))"
    unfolding Promise_all_def settlement_order_map
    by (simp only: 1 3 prod.case list.case)
  with 2 show ?thesis by blast
qed

lemma catch_log_resolved: "p s = (Inr x, s') \<Longrightarrow> catch_log p s = (Inr (Some x), s')"
  by (simp add: catch_log_def)

lemma catch_log_resolves: "\<exists>x s'. catch_log p s = (Inr x, s')"
  by (cases s) (auto simp: catch_log_def log_def split: prod.splits sum.splits)

lemma deleteRole_resolves: "\<exists>s'. deleteRole at r pol svc s = (Inr (), s')"
proof -
  obtain policies s1 where 1: "carefully svc (ListAttachedRolePolicies r) s = (Inr policies, s1)"
    using carefully_resolves by blast
  obtain y s2 where 2: "catch_log (Promise_all at
              (map (\<lambda>policy. carefully svc (DetachRolePolicy r (PolicyArn policy)))
                 (attached policies))) s1 = (Inr y, s2)"
    using catch_log_resolves by blast
  obtain s3 where 3: "(case pol of
              Some pn \<Rightarrow> if pn \<noteq> [] then await (carefully svc (DeleteRolePolicy r pn)) (\<lambda>_. resolve ())
                        else resolve ()
            | None \<Rightarrow> resolve ()) s2 = (Inr (), s3)"
  proof (cases "\<exists>pn. pol = Some pn \<and> pn \<noteq> []")
    case True
    then obtain pn where pn: "pol = Some pn" "pn \<noteq> []" by blast
    obtain z t where "carefully svc (DeleteRolePolicy r pn) s2 = (Inr z, t)"
      using carefully_resolves by blast
    then have "await (carefully svc (DeleteRolePolicy r pn)) (\<lambda>_. resolve ()) s2 = (Inr (), t)"
      by (simp add: await_def resolve_def)
    with pn that show ?thesis by simp
  next
    case False
    then have "(case pol of
              Some pn \<Rightarrow> if pn \<noteq> [] then await (carefully svc (DeleteRolePolicy r pn)) (\<lambda>_. resolve ())
                        else resolve ()
            | None \<Rightarrow> resolve ()) s2 = (Inr (), s2)"
      by (cases pol) (auto simp: resolve_def)
    with that show ?thesis by blast
  qed
  obtain z s4 where 4: "carefully svc (DeleteRole r) s3 = (Inr z, s4)"
    using carefully_resolves by blast
  have "deleteRole at r pol svc s = (Inr (), s4)"
    unfolding deleteRole_def
    by (simp add: await_def 1 2 3 4 resolve_def)
  then show ?thesis by blast
qed

lemma cleanup_resolves: "\<exists>s'. cleanup at svc vars s = (Inr (), s')"
proof -
  obtain s1 where 1: "(case FunctionName vars of
              Some f \<Rightarrow>
                if f \<noteq> []
                then await (log (Message (''Deleting function: '' @ f))) (\<lambda>_.
                     await (carefully svc (DeleteFunction f)) (\<lambda>_. resolve ()))
                else resolve ()
            | None \<Rightarrow> resolve ()) s = (Inr (), s1)"
  proof (cases "\<exists>f. FunctionName vars = Some f \<and> f \<noteq> []")
    case True
    then obtain f where f: "FunctionName vars = Some f" "f \<noteq> []" by blast
    obtain w lg where s: "s = (w, lg)" by (cases s)
    obtain z t where "carefully svc (DeleteFunction f) (w, lg @ [Message (''Deleting function: '' @ f)]) = (Inr z, t)"
      using carefully_resolves by blast
    then have "await (log (Message (''Deleting function: '' @ f))) (\<lambda>_.
                     await (carefully svc (DeleteFunction f)) (\<lambda>_. resolve ())) s = (Inr (), t)"
      by (simp add: s await_def log_step resolve_def)
    with f that show ?thesis by simp
  next
    case False
    then have "(case FunctionName vars of
              Some f \<Rightarrow>
                if f \<noteq> []
                then await (log (Message (''Deleting function: '' @ f))) (\<lambda>_.
                     await (carefully svc (DeleteFunction f)) (\<lambda>_. resolve ()))
                else resolve ()
            | None \<Rightarrow> resolve ()) s = (Inr (), s)"
      by (cases "FunctionName vars") (auto simp: resolve_def)
    with that show ?thesis by blast
  qed
  obtain s2 where 2: "(case RoleName vars of
              Some r \<Rightarrow>
                if r \<noteq> [] \<and> roleNeedsCleanup vars = Some True
                then await (log (Message (''Deleting role name: '' @ r))) (\<lambda>_.
                     deleteRole at r (noCreateLogGroupPolicy vars) svc)
                else resolve ()
            | None \<Rightarrow> resolve ()) s1 = (Inr (), s2)"
  proof (cases "\<exists>r. RoleName vars = Some r \<and> r \<noteq> [] \<and> roleNeedsCleanup vars = Some True")
    case True
    then obtain r where r: "RoleName vars = Some r" "r \<noteq> []" "roleNeedsCleanup vars = Some True" by blast
    obtain w lg where s: "s1 = (w, lg)" by (cases s1)
    obtain t where "deleteRole at r (noCreateLogGroupPolicy vars) svc (w, lg @ [Message (''Deleting role name: '' @ r)]) = (Inr (), t)"
      using deleteRole_resolves by blast
    then have "await (log (Message (''Deleting role name: '' @ r))) (\<lambda>_.
                     deleteRole at r (noCreateLogGroupPolicy vars) svc) s1 = (Inr (), t)"
      by (simp add: s await_def log_step)
    with r that show ?thesis by simp
  next
    case False
    then have "(case RoleName vars of
              Some r \<Rightarrow>
                if r \<noteq> [] \<and> roleNeedsCleanup vars = Some True
                then await (log (Message (''Deleting role name: '' @ r))) (\<lambda>_.
                     deleteRole at r (noCreateLogGroupPolicy vars) svc)
                else resolve ()
            | None \<Rightarrow> resolve ()) s1 = (Inr (), s1)"
      by (cases "RoleName vars") (auto simp: resolve_def)
    with that show ?thesis by blast
  qed
  obtain s3 where 3: "(case logGroupName vars of
        Some g \<Rightarrow>
          if g \<noteq> []
          then await (log (Message (''Deleting log group: '' @ g))) (\<lambda>_.
               await (carefully svc (DeleteLogGroup g)) (\<lambda>_. resolve ()))
          else resolve ()
      | None \<Rightarrow> resolve ()) s2 = (Inr (), s3)"
  proof (cases "\<exists>g. logGroupName vars = Some g \<and> g \<noteq> []")
    case True
    then obtain g where g: "logGroupName vars = Some g" "g \<noteq> []" by blast
    obtain w lg where s: "s2 = (w, lg)" by (cases s2)
    obtain z t where "carefully svc (DeleteLogGroup g) (w, lg @ [Message (''Deleting log group: '' @ g)]) = (Inr z, t)"
      using carefully_resolves by blast
    then have "await (log (Message (''Deleting log group: '' @ g))) (\<lambda>_.
                     await (carefully svc (DeleteLogGroup g)) (\<lambda>_. resolve ())) s2 = (Inr (), t)"
      by (simp add: s await_def log_step resolve_def)
    with g that show ?thesis by simp
  next
    case False
    then have "(case logGroupName vars of
        Some g \<Rightarrow>
          if g \<noteq> []
          then await (log (Message (''Deleting log group: '' @ g))) (\<lambda>_.
               await (carefully svc (DeleteLogGroup g)) (\<lambda>_. resolve ())) 
          else resolve ()
      | None \<Rightarrow> resolve ()) s2 = (Inr (), s2)"
      by (cases "logGroupName vars") (auto simp: resolve_def)
    with that show ?thesis by blast
  qed
  have "cleanup at svc vars s = (Inr (), s3)"
    unfolding cleanup_def
    by (simp add: await_def 1 2 3)
  then show ?thesis by blast
qed

text \<open>
  The requests of \<^verbatim>\<open>deleteRole\<close>: the listing, with its answer \<open>ans\<close>, then
  the detach of every policy that \<open>ans\<close> holds, then the deletions.
\<close>

lemma deleteRole_tracing:
  "\<exists>ans rest w'. deleteRole at r pol (tracing svc) ((w, tr), lg)
      = (Inr (), ((w', tr @ (ListAttachedRolePolicies r, ans) # rest),
                  lg @ failures ((ListAttachedRolePolicies r, ans) # rest))) \<and>
     map fst ((ListAttachedRolePolicies r, ans) # rest) = role_requests at r pol (answered_policies ans)"
proof -
  let ?f = "\<lambda>policy. DetachRolePolicy r (PolicyArn policy)"
  obtain ans w1 where
    1: "carefully (tracing svc) (ListAttachedRolePolicies r) ((w, tr), lg)
          = (Inr (case ans of Inl err \<Rightarrow> None | Inr u \<Rightarrow> Some u),
             ((w1, tr @ [(ListAttachedRolePolicies r, ans)]), lg @ failure ans))"
    using carefully_tracing [of svc "ListAttachedRolePolicies r" w tr lg] by blast
  let ?policies = "case ans of Inl err \<Rightarrow> None | Inr u \<Rightarrow> Some u"
  have ps: "attached ?policies = answered_policies ans"
    by (simp add: attached_def answered_policies_def split: sum.splits)
  define ps where "ps = answered_policies ans"
  define n1 where "n1 = [(ListAttachedRolePolicies r, ans)]"
  define t1 where "t1 = tr @ n1"
  define l1 where "l1 = lg @ failures n1"
  have l1: "lg @ failure ans = l1"
    by (simp add: l1_def n1_def failures_def)
  obtain xs w2 n2 where
    p2: "Promise_all at (map (\<lambda>policy. carefully (tracing svc) (?f policy)) ps) ((w1, t1), l1)
       = (Inr xs, ((w2, t1 @ n2), l1 @ failures n2))"
    and n2: "map fst n2 = map (\<lambda>ix. ?f (snd ix)) (settlement_order at ps)"
    using detach_all_tracing [of at svc ?f ps w1 t1 l1] by blast
  from p2 have
    2: "catch_log (Promise_all at (map (\<lambda>policy. carefully (tracing svc) (?f policy)) ps)) ((w1, t1), l1)
       = (Inr (Some xs), ((w2, t1 @ n2), l1 @ failures n2))"
    by (rule catch_log_resolved)
  define t2 where "t2 = t1 @ n2"
  define l2 where "l2 = l1 @ failures n2"
  let ?pr = "(case pol of Some pn \<Rightarrow> if pn \<noteq> [] then [DeleteRolePolicy r pn] else [] | None \<Rightarrow> [])"
  obtain w3 n3 where
    3: "(case pol of
              Some pn \<Rightarrow> if pn \<noteq> [] then await (carefully (tracing svc) (DeleteRolePolicy r pn)) (\<lambda>_. resolve ())
                        else resolve ()
            | None \<Rightarrow> resolve ()) ((w2, t2), l2) = (Inr (), ((w3, t2 @ n3), l2 @ failures n3))"
    and n3: "map fst n3 = ?pr"
  proof (cases "\<exists>pn. pol = Some pn \<and> pn \<noteq> []")
    case True
    then obtain pn where pn: "pol = Some pn" "pn \<noteq> []" by blast
    obtain z w' where "carefully (tracing svc) (DeleteRolePolicy r pn) ((w2, t2), l2)
         = (Inr (case z of Inl err \<Rightarrow> None | Inr u \<Rightarrow> Some u),
            ((w', t2 @ [(DeleteRolePolicy r pn, z)]), l2 @ failure z))"
      using carefully_tracing [of svc "DeleteRolePolicy r pn" w2 t2 l2] by blast
    then have "await (carefully (tracing svc) (DeleteRolePolicy r pn)) (\<lambda>_. resolve ()) ((w2, t2), l2)
         = (Inr (), ((w', t2 @ [(DeleteRolePolicy r pn, z)]), l2 @ failures [(DeleteRolePolicy r pn, z)]))"
      by (simp add: await_def resolve_def failures_def)
    with pn that [of w' "[(DeleteRolePolicy r pn, z)]"] show ?thesis by simp
  next
    case False
    then have "(case pol of
              Some pn \<Rightarrow> if pn \<noteq> [] then await (carefully (tracing svc) (DeleteRolePolicy r pn)) (\<lambda>_. resolve ())
                        else resolve ()
            | None \<Rightarrow> resolve ()) ((w2, t2), l2) = (Inr (), ((w2, t2 @ []), l2 @ failures []))"
      by (cases pol) (auto simp: resolve_def failures_def)
    moreover from False have "map fst ([] :: exchange list) = ?pr"
      by (cases pol) auto
    ultimately show ?thesis using that [of w2 "[]"] by blast
  qed
  define t3 where "t3 = t2 @ n3"
  define l3 where "l3 = l2 @ failures n3"
  obtain z w4 where
    4: "carefully (tracing svc) (DeleteRole r) ((w3, t3), l3)
        = (Inr (case z of Inl err \<Rightarrow> None | Inr u \<Rightarrow> Some u),
           ((w4, t3 @ [(DeleteRole r, z)]), l3 @ failure z))"
    using carefully_tracing [of svc "DeleteRole r" w3 t3 l3] by blast
  note f1 = 1 [unfolded ps, folded ps_def n1_def, folded t1_def, unfolded l1]
  note f2 = 2 [folded t2_def l2_def]
  note f3 = 3 [folded t3_def l3_def]
  define rest where "rest = n2 @ n3 @ [(DeleteRole r, z)]"
  have "deleteRole at r pol (tracing svc) ((w, tr), lg)
      = (Inr (), ((w4, t3 @ [(DeleteRole r, z)]), l3 @ failure z))"
    unfolding deleteRole_def
    by (simp add: await_def 1 ps [folded ps_def] ps_def [symmetric] f2 f3 4 resolve_def
        n1_def [symmetric] t1_def [symmetric] l1)
  moreover have "t3 @ [(DeleteRole r, z)] = tr @ (ListAttachedRolePolicies r, ans) # rest"
    by (simp add: t3_def t2_def t1_def n1_def rest_def)
  moreover have "l3 @ failure z = lg @ failures ((ListAttachedRolePolicies r, ans) # rest)"
    by (simp add: l3_def l2_def l1_def n1_def rest_def failures_def)
  moreover have "map fst ((ListAttachedRolePolicies r, ans) # rest) = role_requests at r pol (answered_policies ans)"
    by (simp add: role_requests_def rest_def n2 n3 ps_def)
  ultimately show ?thesis by metis
qed

lemma silent_log:
  "\<forall>q \<in> set (map fst rest). announced q = [] \<Longrightarrow> cleanup_log rest = failures rest"
  by (induction rest) (simp_all add: cleanup_log_def failures_def)

lemma role_log:
  assumes "map fst ((ListAttachedRolePolicies r, ans) # rest) = role_requests at r pol ps"
  shows "cleanup_log ((ListAttachedRolePolicies r, ans) # rest)
    = Message (''Deleting role name: '' @ r) # failures ((ListAttachedRolePolicies r, ans) # rest)"
proof -
  from assms have "map fst rest =
     map (\<lambda>ip. DetachRolePolicy r (PolicyArn (snd ip))) (settlement_order at ps) @
     (case pol of Some pn \<Rightarrow> if pn \<noteq> [] then [DeleteRolePolicy r pn] else [] | None \<Rightarrow> []) @
     [DeleteRole r]"
    by (simp add: role_requests_def)
  then have "\<forall>q \<in> set (map fst rest). announced q = []"
    by (auto split: option.splits if_splits)
  then have "cleanup_log rest = failures rest"
    by (rule silent_log)
  then show ?thesis
    by (simp add: cleanup_log_def failures_def)
qed

lemma listed_skip:
  "\<forall>q \<in> set (map fst a). \<forall>n. q \<noteq> ListAttachedRolePolicies n \<Longrightarrow> listed (a @ b) = listed b"
proof (induction a)
  case Nil
  then show ?case by simp
next
  case (Cons x a)
  obtain q r where x: "x = (q, r)" by (cases x)
  from Cons.prems x have "\<forall>n. q \<noteq> ListAttachedRolePolicies n" by simp
  then have "listed ((q, r) # (a @ b)) = listed (a @ b)"
    by (cases q) simp_all
  with Cons x show ?case by simp
qed

lemma cleanup_tracing:
  "\<exists>new w'. cleanup at (tracing svc) vars ((w, tr), lg)
      = (Inr (), ((w', tr @ new), lg @ cleanup_log new)) \<and>
     map fst new = cleanup_requests at vars (listed new)"
proof -
  let ?r1 = "(case FunctionName vars of Some f \<Rightarrow> if f \<noteq> [] then [DeleteFunction f] else [] | None \<Rightarrow> [])"
  obtain w1 n1 where 1: "(case FunctionName vars of
              Some f \<Rightarrow>
                if f \<noteq> []
                then await (log (Message (''Deleting function: '' @ f))) (\<lambda>_.
                     await (carefully (tracing svc) (DeleteFunction f)) (\<lambda>_. resolve ()))
                else resolve ()
            | None \<Rightarrow> resolve ()) ((w, tr), lg) = (Inr (), ((w1, tr @ n1), lg @ cleanup_log n1))"
    and m1: "map fst n1 = ?r1"
  proof (cases "\<exists>f. FunctionName vars = Some f \<and> f \<noteq> []")
    case True
    then obtain f where f: "FunctionName vars = Some f" "f \<noteq> []" by blast
    obtain z w' where "carefully (tracing svc) (DeleteFunction f) ((w, tr), lg @ [Message (''Deleting function: '' @ f)])
         = (Inr (case z of Inl err \<Rightarrow> None | Inr u \<Rightarrow> Some u),
            ((w', tr @ [(DeleteFunction f, z)]), (lg @ [Message (''Deleting function: '' @ f)]) @ failure z))"
      using carefully_tracing [of svc "DeleteFunction f" w tr "lg @ [Message (''Deleting function: '' @ f)]"] by blast
    then have "await (log (Message (''Deleting function: '' @ f))) (\<lambda>_.
                     await (carefully (tracing svc) (DeleteFunction f)) (\<lambda>_. resolve ())) ((w, tr), lg)
                 = (Inr (), ((w', tr @ [(DeleteFunction f, z)]), lg @ cleanup_log [(DeleteFunction f, z)]))"
      by (simp add: await_def log_step resolve_def cleanup_log_def)
    with f that [of w' "[(DeleteFunction f, z)]"] show ?thesis by simp
  next
    case False
    then have "(case FunctionName vars of
              Some f \<Rightarrow>
                if f \<noteq> []
                then await (log (Message (''Deleting function: '' @ f))) (\<lambda>_.
                     await (carefully (tracing svc) (DeleteFunction f)) (\<lambda>_. resolve ()))
                else resolve ()
            | None \<Rightarrow> resolve ()) ((w, tr), lg) = (Inr (), ((w, tr @ []), lg @ cleanup_log []))"
      by (cases "FunctionName vars") (auto simp: resolve_def cleanup_log_def)
    moreover from False have "map fst ([] :: exchange list) = ?r1"
      by (cases "FunctionName vars") auto
    ultimately show ?thesis using that [of w "[]"] by blast
  qed
  define t1 where "t1 = tr @ n1"
  define l1 where "l1 = lg @ cleanup_log n1"
  let ?r2 = "\<lambda>ps. (case RoleName vars of
        Some r \<Rightarrow> if r \<noteq> [] \<and> roleNeedsCleanup vars = Some True
                  then role_requests at r (noCreateLogGroupPolicy vars) ps else []
      | None \<Rightarrow> [])"
  obtain w2 n2 where 2: "(case RoleName vars of
              Some r \<Rightarrow>
                if r \<noteq> [] \<and> roleNeedsCleanup vars = Some True
                then await (log (Message (''Deleting role name: '' @ r))) (\<lambda>_.
                     deleteRole at r (noCreateLogGroupPolicy vars) (tracing svc))
                else resolve ()
            | None \<Rightarrow> resolve ()) ((w1, t1), l1) = (Inr (), ((w2, t1 @ n2), l1 @ cleanup_log n2))"
    and m2: "map fst n2 = ?r2 (listed n2)"
    and h2: "\<And>n3. \<forall>q \<in> set (map fst n3). \<forall>n. q \<noteq> ListAttachedRolePolicies n \<Longrightarrow> listed (n2 @ n3) = listed n2"
  proof (cases "\<exists>r. RoleName vars = Some r \<and> r \<noteq> [] \<and> roleNeedsCleanup vars = Some True")
    case True
    then obtain r where r: "RoleName vars = Some r" "r \<noteq> []" "roleNeedsCleanup vars = Some True" by blast
    define l1' where "l1' = l1 @ [Message (''Deleting role name: '' @ r)]"
    obtain ans rest w' where d: "deleteRole at r (noCreateLogGroupPolicy vars) (tracing svc) ((w1, t1), l1')
         = (Inr (), ((w', t1 @ (ListAttachedRolePolicies r, ans) # rest),
                     l1' @ failures ((ListAttachedRolePolicies r, ans) # rest)))"
      and m: "map fst ((ListAttachedRolePolicies r, ans) # rest)
           = role_requests at r (noCreateLogGroupPolicy vars) (answered_policies ans)"
      using deleteRole_tracing [of at r "noCreateLogGroupPolicy vars" svc w1 t1 l1'] by blast
    define n where "n = (ListAttachedRolePolicies r, ans) # rest"
    have lg: "l1' @ failures n = l1 @ cleanup_log n"
      using role_log [OF m] by (simp add: l1'_def n_def)
    have "await (log (Message (''Deleting role name: '' @ r))) (\<lambda>_.
                     deleteRole at r (noCreateLogGroupPolicy vars) (tracing svc)) ((w1, t1), l1)
         = (Inr (), ((w', t1 @ n), l1' @ failures n))"
      using d by (simp add: await_def log_step l1'_def n_def)
    then have a: "await (log (Message (''Deleting role name: '' @ r))) (\<lambda>_.
                     deleteRole at r (noCreateLogGroupPolicy vars) (tracing svc)) ((w1, t1), l1)
         = (Inr (), ((w', t1 @ n), l1 @ cleanup_log n))"
      by (simp only: lg)
    have b: "listed n = answered_policies ans" by (simp add: n_def)
    have c: "\<And>n3. listed (n @ n3) = listed n" by (simp add: n_def)
    from m b have e: "map fst n = role_requests at r (noCreateLogGroupPolicy vars) (listed n)"
      by (simp add: n_def)
    from r a e c that [of w' n] show ?thesis by simp
  next
    case False
    then have "(case RoleName vars of
              Some r \<Rightarrow>
                if r \<noteq> [] \<and> roleNeedsCleanup vars = Some True
                then await (log (Message (''Deleting role name: '' @ r))) (\<lambda>_.
                     deleteRole at r (noCreateLogGroupPolicy vars) (tracing svc))
                else resolve ()
            | None \<Rightarrow> resolve ()) ((w1, t1), l1) = (Inr (), ((w1, t1 @ []), l1 @ cleanup_log []))"
      by (cases "RoleName vars") (auto simp: resolve_def cleanup_log_def)
    moreover from False have "map fst ([] :: exchange list) = ?r2 (listed [])"
      by (cases "RoleName vars") auto
    moreover have "\<And>n3. \<forall>q \<in> set (map fst n3). \<forall>n. q \<noteq> ListAttachedRolePolicies n
        \<Longrightarrow> listed ([] @ n3) = listed []"
      using listed_skip [of _ "[]"] by simp
    ultimately show ?thesis using that [of w1 "[]"] by blast
  qed
  define t2 where "t2 = t1 @ n2"
  define l2 where "l2 = l1 @ cleanup_log n2"
  let ?r3 = "(case logGroupName vars of Some g \<Rightarrow> if g \<noteq> [] then [DeleteLogGroup g] else [] | None \<Rightarrow> [])"
  obtain w3 n3 where 3: "(case logGroupName vars of
        Some g \<Rightarrow>
          if g \<noteq> []
          then await (log (Message (''Deleting log group: '' @ g))) (\<lambda>_.
               await (carefully (tracing svc) (DeleteLogGroup g)) (\<lambda>_. resolve ()))
          else resolve ()
      | None \<Rightarrow> resolve ()) ((w2, t2), l2) = (Inr (), ((w3, t2 @ n3), l2 @ cleanup_log n3))"
    and m3: "map fst n3 = ?r3"
  proof (cases "\<exists>g. logGroupName vars = Some g \<and> g \<noteq> []")
    case True
    then obtain g where g: "logGroupName vars = Some g" "g \<noteq> []" by blast
    obtain z w' where "carefully (tracing svc) (DeleteLogGroup g) ((w2, t2), l2 @ [Message (''Deleting log group: '' @ g)])
         = (Inr (case z of Inl err \<Rightarrow> None | Inr u \<Rightarrow> Some u),
            ((w', t2 @ [(DeleteLogGroup g, z)]), (l2 @ [Message (''Deleting log group: '' @ g)]) @ failure z))"
      using carefully_tracing [of svc "DeleteLogGroup g" w2 t2 "l2 @ [Message (''Deleting log group: '' @ g)]"] by blast
    then have "await (log (Message (''Deleting log group: '' @ g))) (\<lambda>_.
                     await (carefully (tracing svc) (DeleteLogGroup g)) (\<lambda>_. resolve ())) ((w2, t2), l2)
                 = (Inr (), ((w', t2 @ [(DeleteLogGroup g, z)]), l2 @ cleanup_log [(DeleteLogGroup g, z)]))"
      by (simp add: await_def log_step resolve_def cleanup_log_def)
    with g that [of w' "[(DeleteLogGroup g, z)]"] show ?thesis by simp
  next
    case False
    then have "(case logGroupName vars of
        Some g \<Rightarrow>
          if g \<noteq> []
          then await (log (Message (''Deleting log group: '' @ g))) (\<lambda>_.
               await (carefully (tracing svc) (DeleteLogGroup g)) (\<lambda>_. resolve ()))
          else resolve ()
      | None \<Rightarrow> resolve ()) ((w2, t2), l2) = (Inr (), ((w2, t2 @ []), l2 @ cleanup_log []))"
      by (cases "logGroupName vars") (auto simp: resolve_def cleanup_log_def)
    moreover from False have "map fst ([] :: exchange list) = ?r3"
      by (cases "logGroupName vars") auto
    ultimately show ?thesis using that [of w2 "[]"] by blast
  qed
  note f1 = 1 [folded t1_def l1_def]
  note f2 = 2 [folded t2_def l2_def]
  define new where "new = n1 @ n2 @ n3"
  have "cleanup at (tracing svc) vars ((w, tr), lg) = (Inr (), ((w3, t2 @ n3), l2 @ cleanup_log n3))"
    unfolding cleanup_def
    by (simp add: await_def f1 f2 3)
  moreover have "t2 @ n3 = tr @ new"
    by (simp add: t2_def t1_def new_def)
  moreover have "l2 @ cleanup_log n3 = lg @ cleanup_log new"
    by (simp add: l2_def l1_def new_def cleanup_log_append)
  moreover have "map fst new = cleanup_requests at vars (listed new)"
  proof -
    have s1: "\<forall>q \<in> set (map fst n1). \<forall>n. q \<noteq> ListAttachedRolePolicies n"
      unfolding m1 by (auto split: option.splits if_splits)
    have s3: "\<forall>q \<in> set (map fst n3). \<forall>n. q \<noteq> ListAttachedRolePolicies n"
      unfolding m3 by (auto split: option.splits if_splits)
    have "listed new = listed (n2 @ n3)"
      unfolding new_def using s1 by (rule listed_skip)
    also have "\<dots> = listed n2"
      using s3 by (rule h2)
    finally have l: "listed new = listed n2" .
    have "map fst new = ?r1 @ ?r2 (listed n2) @ ?r3"
      unfolding new_def using m1 m2 m3 by simp
    then show ?thesis
      by (simp only: cleanup_requests_def l)
  qed
  ultimately show ?thesis by metis
qed

lemma reclaim_worker_resolves: "\<exists>s'. reclaim_worker svc ds s = (Inr (), s')"
proof (induction ds arbitrary: s)
  case Nil
  then show ?case by (simp add: resolve_def)
next
  case (Cons d ds)
  obtain x s1 where 1: "carefully svc d s = (Inr x, s1)"
    using carefully_resolves by blast
  obtain s2 where 2: "reclaim_worker svc ds s1 = (Inr (), s2)"
    using Cons.IH by blast
  from 1 2 have "reclaim_worker svc (d # ds) s = (Inr (), s2)"
    by (simp add: await_def)
  then show ?case by (rule exI)
qed

lemma reclaim_resolves: "\<exists>s'. reclaim svc orphans s = (Inr (), s')"
proof (induction orphans arbitrary: s)
  case Nil
  then show ?case by (simp add: resolve_def)
next
  case (Cons orphan orphans)
  obtain s1 where 1: "reclaim_worker svc orphan s = (Inr (), s1)"
    using reclaim_worker_resolves by blast
  obtain s2 where 2: "reclaim svc orphans s1 = (Inr (), s2)"
    using Cons.IH by blast
  from 1 2 have "reclaim svc (orphan # orphans) s = (Inr (), s2)"
    by (simp add: await_def)
  then show ?case by (rule exI)
qed

lemma reclaim_worker_tracing:
  "\<exists>new w'. reclaim_worker (tracing svc) ds ((w, tr), lg)
      = (Inr (), ((w', tr @ new), lg @ failures new)) \<and> map fst new = ds"
proof (induction ds arbitrary: w tr lg)
  case Nil
  have "reclaim_worker (tracing svc) [] ((w, tr), lg) = (Inr (), ((w, tr @ []), lg @ failures []))"
    by (simp add: resolve_def failures_def)
  then show ?case by (intro exI [of _ "[]"] exI [of _ w]) simp
next
  case (Cons d ds)
  obtain r w1 where 1: "carefully (tracing svc) d ((w, tr), lg)
      = (Inr (case r of Inl err \<Rightarrow> None | Inr u \<Rightarrow> Some u), ((w1, tr @ [(d, r)]), lg @ failure r))"
    using carefully_tracing [of svc d w tr lg] by blast
  define t1 where "t1 = tr @ [(d, r)]"
  define l1 where "l1 = lg @ failure r"
  obtain new w2 where 2: "reclaim_worker (tracing svc) ds ((w1, t1), l1)
      = (Inr (), ((w2, t1 @ new), l1 @ failures new))" and 3: "map fst new = ds"
    using Cons.IH [of w1 t1 l1] by blast
  note f1 = 1 [folded t1_def l1_def]
  have "reclaim_worker (tracing svc) (d # ds) ((w, tr), lg) = (Inr (), ((w2, t1 @ new), l1 @ failures new))"
    by (simp add: await_def f1 2)
  moreover have "t1 @ new = tr @ ((d, r) # new)"
    by (simp add: t1_def)
  moreover have "l1 @ failures new = lg @ failures ((d, r) # new)"
    by (simp add: l1_def failures_def)
  moreover have "map fst ((d, r) # new) = d # ds"
    using 3 by simp
  ultimately show ?case by metis
qed

lemma reclaim_tracing:
  "\<exists>new w'. reclaim (tracing svc) orphans ((w, tr), lg)
      = (Inr (), ((w', tr @ new), lg @ failures new)) \<and> map fst new = concat orphans"
proof (induction orphans arbitrary: w tr lg)
  case Nil
  have "reclaim (tracing svc) [] ((w, tr), lg) = (Inr (), ((w, tr @ []), lg @ failures []))"
    by (simp add: resolve_def failures_def)
  then show ?case by (intro exI [of _ "[]"] exI [of _ w]) simp
next
  case (Cons orphan orphans)
  obtain n1 w1 where 1: "reclaim_worker (tracing svc) orphan ((w, tr), lg)
      = (Inr (), ((w1, tr @ n1), lg @ failures n1))" and m1: "map fst n1 = orphan"
    using reclaim_worker_tracing [of svc orphan w tr lg] by blast
  define t1 where "t1 = tr @ n1"
  define l1 where "l1 = lg @ failures n1"
  obtain n2 w2 where 2: "reclaim (tracing svc) orphans ((w1, t1), l1)
      = (Inr (), ((w2, t1 @ n2), l1 @ failures n2))" and m2: "map fst n2 = concat orphans"
    using Cons.IH [of w1 t1 l1] by blast
  note f1 = 1 [folded t1_def l1_def]
  have "reclaim (tracing svc) (orphan # orphans) ((w, tr), lg) = (Inr (), ((w2, t1 @ n2), l1 @ failures n2))"
    by (simp add: await_def f1 2)
  moreover have "t1 @ n2 = tr @ (n1 @ n2)"
    by (simp add: t1_def)
  moreover have "l1 @ failures n2 = lg @ failures (n1 @ n2)"
    by (simp add: l1_def failures_append)
  moreover have "map fst (n1 @ n2) = concat (orphan # orphans)"
    using m1 m2 by simp
  ultimately show ?case by metis
qed

lemma stuck_policy_run:
  "cleanup in_turn (tracing stuck_policy) example_vars (((), []), []) =
     (Inr (),
      (((), [(DeleteFunction ''cloudify-1'', Inr Empty),
             (ListAttachedRolePolicies ''cloudify-role-1'',
                Inr (ListAttachedRolePoliciesResponse (Some example_policies))),
             (DetachRolePolicy ''cloudify-role-1'' (Some ''arn:1''), Inl (AWSError ''ServiceFailure'')),
             (DetachRolePolicy ''cloudify-role-1'' (Some ''arn:2''), Inr Empty),
             (DeleteRolePolicy ''cloudify-role-1'' ''cloudify-deny-create-log-group-policy'', Inr Empty),
             (DeleteRole ''cloudify-role-1'', Inr Empty),
             (DeleteLogGroup ''/aws/lambda/cloudify-1'', Inr Empty)]),
       [Message ''Deleting function: cloudify-1'',
        Message ''Deleting role name: cloudify-role-1'',
        Logged (AWSError ''ServiceFailure''),
        Message ''Deleting log group: /aws/lambda/cloudify-1'']))"
  by (simp add: cleanup_def example_vars_def await_def log_def carefully_def promise_def tracing_def
      stuck_policy_def deleteRole_def attached_def catch_log_def resolve_def Promise_all_def
      settlement_order_def in_turn_def example_policies_def)

lemma stuck_policy_run_last_first:
  "cleanup last_first (tracing stuck_policy) example_vars (((), []), []) =
     (Inr (),
      (((), [(DeleteFunction ''cloudify-1'', Inr Empty),
             (ListAttachedRolePolicies ''cloudify-role-1'',
                Inr (ListAttachedRolePoliciesResponse (Some example_policies))),
             (DetachRolePolicy ''cloudify-role-1'' (Some ''arn:2''), Inr Empty),
             (DetachRolePolicy ''cloudify-role-1'' (Some ''arn:1''), Inl (AWSError ''ServiceFailure'')),
             (DeleteRolePolicy ''cloudify-role-1'' ''cloudify-deny-create-log-group-policy'', Inr Empty),
             (DeleteRole ''cloudify-role-1'', Inr Empty),
             (DeleteLogGroup ''/aws/lambda/cloudify-1'', Inr Empty)]),
       [Message ''Deleting function: cloudify-1'',
        Message ''Deleting role name: cloudify-role-1'',
        Logged (AWSError ''ServiceFailure''),
        Message ''Deleting log group: /aws/lambda/cloudify-1'']))"
  by (simp add: cleanup_def example_vars_def await_def log_def carefully_def promise_def tracing_def
      stuck_policy_def deleteRole_def attached_def catch_log_def resolve_def Promise_all_def
      settlement_order_def last_first_def example_policies_def)

lemma all_gone_reclaim:
  "reclaim (tracing all_gone) example_orphans (((), []), []) =
     (Inr (),
      (((), [(DeleteFunction ''cloudify-7'', Inl (AWSError ''ResourceNotFoundException'')),
             (DeleteLogGroup ''/aws/lambda/cloudify-7'', Inl (AWSError ''ResourceNotFoundException'')),
             (DeleteFunction ''cloudify-8'', Inl (AWSError ''ResourceNotFoundException'')),
             (DeleteRole ''cloudify-role-8'', Inl (AWSError ''ResourceNotFoundException''))]),
       [Logged (AWSError ''ResourceNotFoundException''),
        Logged (AWSError ''ResourceNotFoundException''),
        Logged (AWSError ''ResourceNotFoundException''),
        Logged (AWSError ''ResourceNotFoundException'')]))"
  by (simp add: example_orphans_def await_def log_def carefully_def promise_def tracing_def
      all_gone_def resolve_def)

text \<open>
  C8, for \<^verbatim>\<open>cleanup\<close> of \<^verbatim>\<open>aws/aws-cloudify.ts\<close>. Whatever the services
  answer to any request, in any state of the cloud, and in whatever order the
  detach requests settle: \<^verbatim>\<open>cleanup\<close> resolves, and so does a second
  \<^verbatim>\<open>cleanup\<close> run after it. The requests of a pass are exactly the deletions
  for the resources named in its argument, with the detach of every policy
  that the listing of this pass answered, none left out because an earlier
  one failed; and the log of a pass holds, next to the messages that announce
  the resources, the error of every request that failed and nothing for one
  that succeeded. This holds of the first pass and of a second pass run in the
  cloud that the first one left. A request that fails is turned by
  \<^verbatim>\<open>carefully\<close> into a resolved promise with the error logged, by
  \<^verbatim>\<open>quietly\<close> into a resolved promise with nothing logged. The reclaim
  step of the garbage collector, as the specification describes it, resolves
  on a first and on a second pass over the same orphans, and each pass sends
  the deletion of every resource of every orphan and logs the error of each
  one that failed.
\<close>

theorem cleanup_never_rejects:
  "(\<exists>s'. cleanup at svc vars s = (Inr (), s')) \<and>
   (\<exists>s' s''. cleanup at svc vars s = (Inr (), s') \<and> cleanup at' svc vars s' = (Inr (), s'')) \<and>
   (\<exists>w1 tr1 w2 tr2.
      cleanup at (tracing svc) vars ((w, []), lg) = (Inr (), ((w1, tr1), lg @ cleanup_log tr1)) \<and>
      map fst tr1 = cleanup_requests at vars (listed tr1) \<and>
      cleanup at' (tracing svc) vars ((w1, []), lg') = (Inr (), ((w2, tr2), lg' @ cleanup_log tr2)) \<and>
      map fst tr2 = cleanup_requests at' vars (listed tr2)) \<and>
   (\<forall>req err w1. svc req w = (Inl err, w1) \<longrightarrow>
      carefully svc req (w, lg) = (Inr None, (w1, lg @ [Logged err])) \<and>
      quietly svc req (w, lg) = (Inr None, (w1, lg))) \<and>
   (\<exists>t' t''. reclaim svc orphans s = (Inr (), t') \<and> reclaim svc orphans t' = (Inr (), t'')) \<and>
   (\<exists>w1 tr1 w2 tr2.
      reclaim (tracing svc) orphans ((w, []), lg) = (Inr (), ((w1, tr1), lg @ failures tr1)) \<and>
      map fst tr1 = concat orphans \<and>
      reclaim (tracing svc) orphans ((w1, []), lg') = (Inr (), ((w2, tr2), lg' @ failures tr2)) \<and>
      map fst tr2 = concat orphans)"
proof -
  obtain s' where 1: "cleanup at svc vars s = (Inr (), s')"
    using cleanup_resolves by blast
  obtain s'' where 2: "cleanup at' svc vars s' = (Inr (), s'')"
    using cleanup_resolves by blast
  from 1 2 have 12: "\<exists>s' s''. cleanup at svc vars s = (Inr (), s') \<and> cleanup at' svc vars s' = (Inr (), s'')"
    by (intro exI [of _ s'] exI [of _ s''] conjI)
  from 1 have 11: "\<exists>s'. cleanup at svc vars s = (Inr (), s')"
    by (rule exI)
  obtain tr1 w1 where a: "cleanup at (tracing svc) vars ((w, []), lg) = (Inr (), ((w1, [] @ tr1), lg @ cleanup_log tr1))"
      and a': "map fst tr1 = cleanup_requests at vars (listed tr1)"
    using cleanup_tracing [of at svc vars w "[]" lg] by blast
  obtain tr2 w2 where b: "cleanup at' (tracing svc) vars ((w1, []), lg') = (Inr (), ((w2, [] @ tr2), lg' @ cleanup_log tr2))"
      and b': "map fst tr2 = cleanup_requests at' vars (listed tr2)"
    using cleanup_tracing [of at' svc vars w1 "[]" lg'] by blast
  from a a' b b' have 3: "\<exists>w1 tr1 w2 tr2.
      cleanup at (tracing svc) vars ((w, []), lg) = (Inr (), ((w1, tr1), lg @ cleanup_log tr1)) \<and>
      map fst tr1 = cleanup_requests at vars (listed tr1) \<and>
      cleanup at' (tracing svc) vars ((w1, []), lg') = (Inr (), ((w2, tr2), lg' @ cleanup_log tr2)) \<and>
      map fst tr2 = cleanup_requests at' vars (listed tr2)"
    by (intro exI [of _ w1] exI [of _ tr1] exI [of _ w2] exI [of _ tr2]) simp
  have 4: "\<forall>req err w1. svc req w = (Inl err, w1) \<longrightarrow>
      carefully svc req (w, lg) = (Inr None, (w1, lg @ [Logged err])) \<and>
      quietly svc req (w, lg) = (Inr None, (w1, lg))"
  proof (intro allI impI)
    fix req err w1
    assume a: "svc req w = (Inl err, w1)"
    show "carefully svc req (w, lg) = (Inr None, (w1, lg @ [Logged err])) \<and>
          quietly svc req (w, lg) = (Inr None, (w1, lg))"
      using a carefully_failure [of svc req w err w1 lg] quietly_failure [of svc req w err w1 lg]
      by simp
  qed
  obtain t' where 5: "reclaim svc orphans s = (Inr (), t')"
    using reclaim_resolves by blast
  obtain t'' where 6: "reclaim svc orphans t' = (Inr (), t'')"
    using reclaim_resolves by blast
  from 5 6 have 56: "\<exists>t' t''. reclaim svc orphans s = (Inr (), t') \<and> reclaim svc orphans t' = (Inr (), t'')"
    by (intro exI [of _ t'] exI [of _ t''] conjI)
  obtain r1 v1 where c: "reclaim (tracing svc) orphans ((w, []), lg) = (Inr (), ((v1, [] @ r1), lg @ failures r1))"
      and c': "map fst r1 = concat orphans"
    using reclaim_tracing [of svc orphans w "[]" lg] by blast
  obtain r2 v2 where d: "reclaim (tracing svc) orphans ((v1, []), lg') = (Inr (), ((v2, [] @ r2), lg' @ failures r2))"
      and d': "map fst r2 = concat orphans"
    using reclaim_tracing [of svc orphans v1 "[]" lg'] by blast
  from c c' d d' have 7: "\<exists>w1 tr1 w2 tr2.
      reclaim (tracing svc) orphans ((w, []), lg) = (Inr (), ((w1, tr1), lg @ failures tr1)) \<and>
      map fst tr1 = concat orphans \<and>
      reclaim (tracing svc) orphans ((w1, []), lg') = (Inr (), ((w2, tr2), lg' @ failures tr2)) \<and>
      map fst tr2 = concat orphans"
    by (intro exI [of _ v1] exI [of _ r1] exI [of _ v2] exI [of _ r2]) simp
  show ?thesis by (rule conjI [OF 11 conjI [OF 12 conjI [OF 3 conjI [OF 4 conjI [OF 56 7]]]]])
qed

text \<open>
  C8 in a cloud where the role has two policies attached and the first cannot
  be detached: the detach that fails is logged, the second detach is sent all
  the same, before it or after it, and so are the deletions that follow; and
  the reclaim step on two orphans whose resources are all gone.
\<close>

theorem cleanup_never_rejects_witness:
  "stuck_policy (DetachRolePolicy ''cloudify-role-1'' (Some ''arn:1'')) ()
     = (Inl (AWSError ''ServiceFailure''), ()) \<and>
   carefully stuck_policy (DetachRolePolicy ''cloudify-role-1'' (Some ''arn:1'')) ((), []) =
     (Inr None, ((), [Logged (AWSError ''ServiceFailure'')])) \<and>
   quietly stuck_policy (DetachRolePolicy ''cloudify-role-1'' (Some ''arn:1'')) ((), []) =
     (Inr None, ((), [])) \<and>
   (\<exists>s' s''. cleanup in_turn stuck_policy example_vars ((), []) = (Inr (), s') \<and>
             cleanup last_first stuck_policy example_vars s' = (Inr (), s'')) \<and>
   map fst (snd (fst (snd (cleanup in_turn (tracing stuck_policy) example_vars (((), []), []))))) =
     [DeleteFunction ''cloudify-1'',
      ListAttachedRolePolicies ''cloudify-role-1'',
      DetachRolePolicy ''cloudify-role-1'' (Some ''arn:1''),
      DetachRolePolicy ''cloudify-role-1'' (Some ''arn:2''),
      DeleteRolePolicy ''cloudify-role-1'' ''cloudify-deny-create-log-group-policy'',
      DeleteRole ''cloudify-role-1'',
      DeleteLogGroup ''/aws/lambda/cloudify-1''] \<and>
   map fst (snd (fst (snd (cleanup last_first (tracing stuck_policy) example_vars (((), []), []))))) =
     [DeleteFunction ''cloudify-1'',
      ListAttachedRolePolicies ''cloudify-role-1'',
      DetachRolePolicy ''cloudify-role-1'' (Some ''arn:2''),
      DetachRolePolicy ''cloudify-role-1'' (Some ''arn:1''),
      DeleteRolePolicy ''cloudify-role-1'' ''cloudify-deny-create-log-group-policy'',
      DeleteRole ''cloudify-role-1'',
      DeleteLogGroup ''/aws/lambda/cloudify-1''] \<and>
   snd (snd (cleanup in_turn (tracing stuck_policy) example_vars (((), []), []))) =
     [Message ''Deleting function: cloudify-1'',
      Message ''Deleting role name: cloudify-role-1'',
      Logged (AWSError ''ServiceFailure''),
      Message ''Deleting log group: /aws/lambda/cloudify-1''] \<and>
   map fst (snd (fst (snd (reclaim (tracing all_gone) example_orphans (((), []), []))))) =
     [DeleteFunction ''cloudify-7'', DeleteLogGroup ''/aws/lambda/cloudify-7'',
      DeleteFunction ''cloudify-8'', DeleteRole ''cloudify-role-8'']"
proof -
  let ?detach = "DetachRolePolicy ''cloudify-role-1'' (Some ''arn:1'')"
  have h: "stuck_policy ?detach () = (Inl (AWSError ''ServiceFailure''), ())"
    by (simp add: stuck_policy_def)
  note w = cleanup_never_rejects [of in_turn stuck_policy example_vars "((), [])" last_first "()" "[]" "[]"
      example_orphans]
  note w4 = conjunct1 [OF conjunct2 [OF conjunct2 [OF conjunct2 [OF w]]]]
  from w4 have "stuck_policy ?detach () = (Inl (AWSError ''ServiceFailure''), ()) \<longrightarrow>
      carefully stuck_policy ?detach ((), []) = (Inr None, ((), [] @ [Logged (AWSError ''ServiceFailure'')])) \<and>
      quietly stuck_policy ?detach ((), []) = (Inr None, ((), []))"
    by (elim allE)
  from this h have cq: "carefully stuck_policy ?detach ((), []) = (Inr None, ((), [] @ [Logged (AWSError ''ServiceFailure'')])) \<and>
      quietly stuck_policy ?detach ((), []) = (Inr None, ((), []))"
    by (rule mp)
  from cq have c: "carefully stuck_policy ?detach ((), []) = (Inr None, ((), [Logged (AWSError ''ServiceFailure'')]))"
    by simp
  from cq have q: "quietly stuck_policy ?detach ((), []) = (Inr None, ((), []))"
    by (rule conjunct2)
  note d = conjunct1 [OF conjunct2 [OF w]]
  note w3 = conjunct1 [OF conjunct2 [OF conjunct2 [OF w]]]
  from w3 obtain w1 tr1 w2 tr2 where
    a: "cleanup in_turn (tracing stuck_policy) example_vars (((), []), []) = (Inr (), ((w1, tr1), [] @ cleanup_log tr1))"
    and a': "map fst tr1 = cleanup_requests in_turn example_vars (listed tr1)"
    and b: "cleanup last_first (tracing stuck_policy) example_vars ((w1, []), []) = (Inr (), ((w2, tr2), [] @ cleanup_log tr2))"
    and b': "map fst tr2 = cleanup_requests last_first example_vars (listed tr2)"
    by (elim exE conjE)
  have l1: "listed tr1 = example_policies"
    using a unfolding stuck_policy_run by (auto simp: answered_policies_def)
  have t1: "snd (fst (snd (cleanup in_turn (tracing stuck_policy) example_vars (((), []), [])))) = tr1"
    by (simp only: a fst_conv snd_conv)
  have e: "map fst (snd (fst (snd (cleanup in_turn (tracing stuck_policy) example_vars (((), []), []))))) =
     [DeleteFunction ''cloudify-1'',
      ListAttachedRolePolicies ''cloudify-role-1'',
      DetachRolePolicy ''cloudify-role-1'' (Some ''arn:1''),
      DetachRolePolicy ''cloudify-role-1'' (Some ''arn:2''),
      DeleteRolePolicy ''cloudify-role-1'' ''cloudify-deny-create-log-group-policy'',
      DeleteRole ''cloudify-role-1'',
      DeleteLogGroup ''/aws/lambda/cloudify-1'']"
    unfolding t1 a' l1
    by (simp add: cleanup_requests_def role_requests_def example_vars_def example_policies_def
        settlement_order_def in_turn_def)
  have w1: "w1 = ()" by simp
  have l2: "listed tr2 = example_policies"
    using b unfolding w1 stuck_policy_run_last_first by (auto simp: answered_policies_def)
  have t2: "snd (fst (snd (cleanup last_first (tracing stuck_policy) example_vars (((), []), [])))) = tr2"
    using b unfolding w1 by (simp only: fst_conv snd_conv)
  have f: "map fst (snd (fst (snd (cleanup last_first (tracing stuck_policy) example_vars (((), []), []))))) =
     [DeleteFunction ''cloudify-1'',
      ListAttachedRolePolicies ''cloudify-role-1'',
      DetachRolePolicy ''cloudify-role-1'' (Some ''arn:2''),
      DetachRolePolicy ''cloudify-role-1'' (Some ''arn:1''),
      DeleteRolePolicy ''cloudify-role-1'' ''cloudify-deny-create-log-group-policy'',
      DeleteRole ''cloudify-role-1'',
      DeleteLogGroup ''/aws/lambda/cloudify-1'']"
    unfolding t2 b' l2
    by (simp add: cleanup_requests_def role_requests_def example_vars_def example_policies_def
        settlement_order_def last_first_def)
  have g: "snd (snd (cleanup in_turn (tracing stuck_policy) example_vars (((), []), []))) =
     [Message ''Deleting function: cloudify-1'',
      Message ''Deleting role name: cloudify-role-1'',
      Logged (AWSError ''ServiceFailure''),
      Message ''Deleting log group: /aws/lambda/cloudify-1'']"
    by (simp add: stuck_policy_run)
  have r: "map fst (snd (fst (snd (reclaim (tracing all_gone) example_orphans (((), []), []))))) =
     [DeleteFunction ''cloudify-7'', DeleteLogGroup ''/aws/lambda/cloudify-7'',
      DeleteFunction ''cloudify-8'', DeleteRole ''cloudify-role-8'']"
    by (simp add: all_gone_reclaim)
  show ?thesis
    by (rule conjI [OF h conjI [OF c conjI [OF q conjI [OF d conjI [OF e conjI [OF f conjI [OF g r]]]]]]])
qed

section \<open>C5: the Call of an invocation\<close>

lemma recording_step:
  "\<exists>s' m'. snd (cloudifyWithResponse fname
            \<lparr> callFunction = recording cf, state = (s, seen), functionMetrics = m \<rparr> as rd)
     = \<lparr> callFunction = recording cf, state = (s', seen @ [callRequest fname as rd]),
         functionMetrics = m' \<rparr>"
  by (auto simp: cloudifyWithResponse_def recording_def Let_def split: prod.splits)

lemma invoke1_recording:
  "\<exists>s' m'. invoke1 \<lparr> callFunction = recording cf, state = (s, seen), functionMetrics = m \<rparr> i
     = \<lparr> callFunction = recording cf, state = (s', seen @ [call_of i]), functionMetrics = m' \<rparr>"
proof (cases i)
  case (WithResponse fname as rd)
  then show ?thesis using recording_step [of fname cf s seen m as rd] by simp
next
  case (Unwrapped fname as rd)
  have "snd (cloudify fname \<lparr> callFunction = recording cf, state = (s, seen), functionMetrics = m \<rparr> as rd)
      = snd (cloudifyWithResponse fname \<lparr> callFunction = recording cf, state = (s, seen), functionMetrics = m \<rparr> as rd)"
    by (simp add: cloudify_def split: prod.splits sum.splits option.splits)
  with Unwrapped show ?thesis using recording_step [of fname cf s seen m as rd] by simp
qed

lemma lifetime_recording:
  "\<exists>s' m'. lifetime \<lparr> callFunction = recording cf, state = (s, seen), functionMetrics = m \<rparr> invs
     = \<lparr> callFunction = recording cf, state = (s', seen @ map call_of invs), functionMetrics = m' \<rparr>"
proof (induction invs arbitrary: s seen m)
  case Nil
  then show ?case by (simp add: lifetime_def)
next
  case (Cons i invs)
  obtain s1 m1 where 1: "invoke1 \<lparr> callFunction = recording cf, state = (s, seen), functionMetrics = m \<rparr> i
     = \<lparr> callFunction = recording cf, state = (s1, seen @ [call_of i]), functionMetrics = m1 \<rparr>"
    using invoke1_recording [of cf s seen m i] by blast
  obtain s2 m2 where 2: "lifetime \<lparr> callFunction = recording cf, state = (s1, seen @ [call_of i]), functionMetrics = m1 \<rparr> invs
     = \<lparr> callFunction = recording cf, state = (s2, (seen @ [call_of i]) @ map call_of invs), functionMetrics = m2 \<rparr>"
    using Cons.IH [of s1 "seen @ [call_of i]" m1] by blast
  have "lifetime \<lparr> callFunction = recording cf, state = (s, seen), functionMetrics = m \<rparr> (i # invs)
      = lifetime (invoke1 \<lparr> callFunction = recording cf, state = (s, seen), functionMetrics = m \<rparr> i) invs"
    by (simp add: lifetime_def)
  with 1 2 show ?case by simp
qed

lemma Rep_uuid_source_inj: "inj (Rep_uuid_source src)"
  using Rep_uuid_source [of src] by simp

lemma example_ids_inj: "inj example_ids"
  by (auto simp: inj_on_def example_ids_def dest: arg_cong [where f = length])

lemma example_source_ids: "Rep_uuid_source example_source = example_ids"
  by (simp add: example_source_def Abs_uuid_source_inverse example_ids_inj)

lemma call_of_with_uuid:
  "CallId (call_of (with_uuid u i)) = u \<and>
   start (call_of (with_uuid u i)) = submitted_at (readings_of i) \<and>
   name (call_of (with_uuid u i)) = name (call_of i) \<and>
   args (call_of (with_uuid u i)) = args (call_of i)"
  by (cases i) (simp_all add: callRequest_def)

lemma drawing_ids:
  "map (\<lambda>i. CallId (call_of i)) (drawing src k invs)
     = map (Rep_uuid_source src) (draws k (map fst invs))"
proof (induction invs arbitrary: k)
  case Nil
  then show ?case by simp
next
  case (Cons a invs)
  obtain e i where a: "a = (e, i)" by (cases a)
  show ?case using Cons.IH [of "Suc (k + e)"]
    by (simp add: a uuidv4_def call_of_with_uuid)
qed

lemma drawing_starts:
  "map (\<lambda>i. start (call_of i)) (drawing src k invs)
     = map (\<lambda>i. submitted_at (readings_of (snd i))) invs"
proof (induction invs arbitrary: k)
  case Nil
  then show ?case by simp
next
  case (Cons a invs)
  obtain e i where a: "a = (e, i)" by (cases a)
  show ?case using Cons.IH [of "Suc (k + e)"]
    by (simp add: a uuidv4_def call_of_with_uuid)
qed

lemma drawing_names:
  "map (\<lambda>i. (name (call_of i), args (call_of i))) (drawing src k invs)
     = map (\<lambda>i. (name (call_of (snd i)), args (call_of (snd i)))) invs"
proof (induction invs arbitrary: k)
  case Nil
  then show ?case by simp
next
  case (Cons a invs)
  obtain e i where a: "a = (e, i)" by (cases a)
  show ?case using Cons.IH [of "Suc (k + e)"]
    by (simp add: a uuidv4_def call_of_with_uuid)
qed

lemma draws_later: "j \<in> set (draws k es) \<Longrightarrow> k \<le> j"
proof (induction es arbitrary: k)
  case Nil
  then show ?case by simp
next
  case (Cons e es)
  from Cons.prems have "j = k + e \<or> j \<in> set (draws (Suc (k + e)) es)"
    by simp
  then show ?case
  proof
    assume "j = k + e"
    then show ?thesis by simp
  next
    assume "j \<in> set (draws (Suc (k + e)) es)"
    then have "Suc (k + e) \<le> j" by (rule Cons.IH)
    then show ?thesis by simp
  qed
qed

lemma draws_distinct: "distinct (draws k es)"
proof (induction es arbitrary: k)
  case Nil
  then show ?case by simp
next
  case (Cons e es)
  have "k + e \<notin> set (draws (Suc (k + e)) es)"
    using draws_later [of "k + e" "Suc (k + e)" es] by auto
  with Cons.IH [of "Suc (k + e)"] show ?case by simp
qed

lemma source_distinct: "distinct (map (Rep_uuid_source src) (draws k es))"
  using Rep_uuid_source_inj [of src] draws_distinct [of k es]
  by (simp add: distinct_map inj_on_def)

text \<open>
  C5, as stated, fails. The Call that the proxy of the AWS
  \<^verbatim>\<open>cloudifyWithResponse\<close> builds and sends has the properties \<^verbatim>\<open>name\<close>
  and \<^verbatim>\<open>args\<close> only: no call id, no submission time.
\<close>

theorem call_without_id_counterexample:
  "callArgs ''hello'' [JStr ''world''] = JObj [(''name'', JStr ''hello''), (''args'', JArr [JStr ''world''])] \<and>
   get_prop (callArgs ''hello'' [JStr ''world'']) ''CallId'' = Inr JUndefined \<and>
   get_prop (callArgs ''hello'' [JStr ''world'']) ''start'' = Inr JUndefined"
  by (simp add: callArgs_def)

text \<open>
  C5, amended. Every invocation of a proxy of the facade
  (\<^verbatim>\<open>CloudFunction.cloudifyWithResponse\<close>, \<^verbatim>\<open>CloudFunction.cloudify\<close>) builds
  one Call, handed to the backend, that contains a freshly generated call id
  (the value that the invocation's call of \<^verbatim>\<open>uuidv4()\<close> returns) and the
  submission timestamp, next to the name and the arguments; across all
  invocations made through one facade, in any number, whatever the backend
  does and whatever else draws identifiers in between, no two Calls share a
  call id.
\<close>

theorem calls_carry_fresh_ids:
  "snd (state (lifetime \<lparr> callFunction = recording cf, state = (s, []), functionMetrics = m \<rparr>
          (drawing src drawn invs)))
     = map call_of (drawing src drawn invs) \<and>
   length (map call_of (drawing src drawn invs)) = length invs \<and>
   map CallId (map call_of (drawing src drawn invs))
     = map (\<lambda>j. fst (uuidv4 src j)) (draws drawn (map fst invs)) \<and>
   map start (map call_of (drawing src drawn invs))
     = map (\<lambda>i. submitted_at (readings_of (snd i))) invs \<and>
   map (\<lambda>c. (name c, args c)) (map call_of (drawing src drawn invs))
     = map (\<lambda>i. (name (call_of (snd i)), args (call_of (snd i)))) invs \<and>
   distinct (map CallId
     (snd (state (lifetime \<lparr> callFunction = recording cf, state = (s, []), functionMetrics = m \<rparr>
        (drawing src drawn invs)))))"
proof -
  let ?invs = "drawing src drawn invs"
  obtain s' m' where "lifetime \<lparr> callFunction = recording cf, state = (s, []), functionMetrics = m \<rparr> ?invs
     = \<lparr> callFunction = recording cf, state = (s', [] @ map call_of ?invs), functionMetrics = m' \<rparr>"
    using lifetime_recording [of cf s "[]" m ?invs] by blast
  then have a: "snd (state (lifetime \<lparr> callFunction = recording cf, state = (s, []), functionMetrics = m \<rparr> ?invs))
     = map call_of ?invs"
    by simp
  have b: "length (map call_of ?invs) = length invs"
    using arg_cong [OF drawing_starts [of src drawn invs], of length] by simp
  have c: "map CallId (map call_of ?invs) = map (\<lambda>j. fst (uuidv4 src j)) (draws drawn (map fst invs))"
    using drawing_ids [of src drawn invs] by (simp add: uuidv4_def comp_def)
  have d: "map start (map call_of ?invs) = map (\<lambda>i. submitted_at (readings_of (snd i))) invs"
    using drawing_starts [of src drawn invs] by (simp add: comp_def)
  have e: "map (\<lambda>c. (name c, args c)) (map call_of ?invs)
     = map (\<lambda>i. (name (call_of (snd i)), args (call_of (snd i)))) invs"
    using drawing_names [of src drawn invs] by (simp add: comp_def)
  have "distinct (map CallId (map call_of ?invs))"
    using source_distinct [of src drawn "map fst invs"] drawing_ids [of src drawn invs]
    by (simp add: comp_def)
  then have f: "distinct (map CallId
     (snd (state (lifetime \<lparr> callFunction = recording cf, state = (s, []), functionMetrics = m \<rparr> ?invs))))"
    by (simp only: a)
  show ?thesis by (rule conjI [OF a conjI [OF b conjI [OF c conjI [OF d conjI [OF e f]]]]])
qed

text \<open>
  The amended C5 at a facade invoked twice, at 1000 and at 2000, one
  identifier being drawn elsewhere in between: the source gives the Calls
  \<open>c-i\<close> and \<open>c-iii\<close>.
\<close>

theorem calls_carry_fresh_ids_witness:
  "map CallId (snd (state (lifetime
      \<lparr> callFunction = recording (always (Resolved example_return)), state = ((), []),
        functionMetrics = new_FunctionMetricsMap \<rparr>
      (drawing example_source 0
        [(0, WithResponse ''hello'' [JStr ''world''] example_readings),
         (1, Unwrapped ''hello'' [JStr ''again''] later_readings)])))) = [''c-i'', ''c-iii''] \<and>
   map start (snd (state (lifetime
      \<lparr> callFunction = recording (always (Resolved example_return)), state = ((), []),
        functionMetrics = new_FunctionMetricsMap \<rparr>
      (drawing example_source 0
        [(0, WithResponse ''hello'' [JStr ''world''] example_readings),
         (1, Unwrapped ''hello'' [JStr ''again''] later_readings)])))) = [1000, 2000] \<and>
   distinct (map CallId (snd (state (lifetime
      \<lparr> callFunction = recording (always (Resolved example_return)), state = ((), []),
        functionMetrics = new_FunctionMetricsMap \<rparr>
      (drawing example_source 0
        [(0, WithResponse ''hello'' [JStr ''world''] example_readings),
         (1, Unwrapped ''hello'' [JStr ''again''] later_readings)])))))"
proof -
  let ?invs = "[(0 :: nat, WithResponse ''hello'' [JStr ''world''] example_readings),
       (1, Unwrapped ''hello'' [JStr ''again''] later_readings)]"
  let ?calls = "snd (state (lifetime
      \<lparr> callFunction = recording (always (Resolved example_return)), state = ((), []),
        functionMetrics = new_FunctionMetricsMap \<rparr> (drawing example_source 0 ?invs)))"
  note w = calls_carry_fresh_ids [of "always (Resolved example_return)" "()" new_FunctionMetricsMap
      example_source 0 ?invs]
  from w have c: "?calls = map call_of (drawing example_source 0 ?invs)" by (rule conjunct1)
  have "map CallId (map call_of (drawing example_source 0 ?invs))
      = map (\<lambda>j. fst (uuidv4 example_source j)) (draws 0 (map fst ?invs))"
    by (rule conjunct1 [OF conjunct2 [OF conjunct2 [OF w]]])
  also have "\<dots> = [''c-i'', ''c-iii'']"
    by (simp add: uuidv4_def example_source_ids example_ids_def)
  finally have i: "map CallId ?calls = [''c-i'', ''c-iii'']"
    by (simp only: c)
  have "map start (map call_of (drawing example_source 0 ?invs))
      = map (\<lambda>i. submitted_at (readings_of (snd i))) ?invs"
    by (rule conjunct1 [OF conjunct2 [OF conjunct2 [OF conjunct2 [OF w]]]])
  also have "\<dots> = [1000, 2000]"
    by (simp add: example_readings_def later_readings_def)
  finally have t: "map start ?calls = [1000, 2000]"
    by (simp only: c)
  have u: "distinct (map CallId ?calls)"
    by (rule conjunct2 [OF conjunct2 [OF conjunct2 [OF conjunct2 [OF conjunct2 [OF w]]]]])
  show ?thesis by (rule conjI [OF i conjI [OF t u]])
qed

section \<open>C9: what \<^verbatim>\<open>stop\<close> of the local-process backend does\<close>

lemma waiting_set: "set (waiting children exits) = set children - set exits"
  by (induction exits arbitrary: children) auto

lemma waiting_none: "waiting children exits = [] \<longleftrightarrow> set children \<subseteq> set exits"
  using waiting_set [of children exits] by (metis Diff_eq_empty_iff set_empty)

lemma add_child_set:
  "set (childProcesses (resources (add_child p st))) = insert p (set (childProcesses (resources st)))"
  by (auto simp: add_child_def)

lemma delete_child_set:
  "set (childProcesses (resources (delete_child p st))) = set (childProcesses (resources st)) - {p}"
  by (auto simp: delete_child_def)

lemma after_keeps:
  "(p \<in> set (childProcesses (resources st)) \<or> Forked p \<in> set h) \<Longrightarrow>
   Errored p \<notin> set h \<Longrightarrow> Exited p \<notin> set h \<Longrightarrow>
   p \<in> set (childProcesses (resources (after st h)))"
proof (induction h arbitrary: st)
  case Nil
  then show ?case by simp
next
  case (Cons e h)
  have "p \<in> set (childProcesses (resources (on_event e st))) \<or> Forked p \<in> set h"
    using Cons.prems by (cases e) (auto simp: add_child_set delete_child_set)
  moreover have "Errored p \<notin> set h" "Exited p \<notin> set h"
    using Cons.prems by auto
  ultimately have "p \<in> set (childProcesses (resources (after (on_event e st) h)))"
    by (rule Cons.IH)
  then show ?case by simp
qed

lemma after_forked:
  "p \<in> set (childProcesses (resources (after st h))) \<Longrightarrow>
   p \<in> set (childProcesses (resources st)) \<or> Forked p \<in> set h"
proof (induction h arbitrary: st)
  case Nil
  then show ?case by simp
next
  case (Cons e h)
  from Cons.prems have "p \<in> set (childProcesses (resources (after (on_event e st) h)))"
    by simp
  then have "p \<in> set (childProcesses (resources (on_event e st))) \<or> Forked p \<in> set h"
    by (rule Cons.IH)
  then show ?case
    by (cases e) (auto simp: add_child_set delete_child_set)
qed

text \<open>
  C9, as stated, fails. With two calls in flight, each served by a child
  process, \<^verbatim>\<open>stop\<close> sends both children the kill signal: work in flight is
  cancelled.
\<close>

theorem stop_kills_counterexample:
  "childProcesses (resources busy_state) = [7, 8] \<and>
   length (running (callFunnel busy_state)) = 2 \<and>
   fst (stop busy_state) = [ClearPending, OnExit 7, OnExit 8, Kill 7, Kill 8] \<and>
   Kill 7 \<in> set (fst (stop busy_state)) \<and>
   Kill 8 \<in> set (fst (stop busy_state))"
  by (simp add: stop_def busy_state_def clearPending_def Let_def)

text \<open>
  C9, amended. For the local-process backend, \<^verbatim>\<open>stop()\<close> first cancels
  every funnel task that is not yet started, leaving the running ones in the
  funnel; it then kills every child process in flight: it registers an exit
  listener on every child of the instance's set of child processes and sends
  each of them, and no other, the kill signal; and it resolves when every one
  of these children has emitted its exit event, not before. The set holds the
  children in flight: whatever was forked, has failed and has exited since
  \<^verbatim>\<open>initialize\<close>, a child forked for a call that has emitted neither an
  error event nor its exit event is killed, no child is killed that was not
  forked for a call, and once \<^verbatim>\<open>stop()\<close> has resolved every child forked
  for a call that emitted no error event has exited.
\<close>

theorem stop_cancels_kills_waits:
  "fst (stop st) =
     [ClearPending] @ map OnExit (childProcesses (resources st))
       @ map Kill (childProcesses (resources st)) \<and>
   pendingQueue (callFunnel (fst (snd (stop st)))) = [] \<and>
   cancelled (callFunnel (fst (snd (stop st))))
     = cancelled (callFunnel st) @ pendingQueue (callFunnel st) \<and>
   running (callFunnel (fst (snd (stop st)))) = running (callFunnel st) \<and>
   resources (fst (snd (stop st))) = resources st \<and>
   (\<forall>p \<in> set (childProcesses (resources st)). Kill p \<in> set (fst (stop st))) \<and>
   (\<forall>p. Kill p \<in> set (fst (stop st)) \<longrightarrow> p \<in> set (childProcesses (resources st))) \<and>
   (stop_resolves st exits \<longleftrightarrow> set (childProcesses (resources st)) \<subseteq> set exits) \<and>
   (\<forall>p \<in> set (childProcesses (resources st)). p \<notin> set exits \<longrightarrow> \<not> stop_resolves st exits) \<and>
   (\<forall>p. Forked p \<in> set h \<and> Errored p \<notin> set h \<and> Exited p \<notin> set h \<longrightarrow>
        Kill p \<in> set (fst (stop (after initialize h)))) \<and>
   (\<forall>p. Kill p \<in> set (fst (stop (after initialize h))) \<longrightarrow> Forked p \<in> set h) \<and>
   (stop_resolves (after initialize h) exits \<longrightarrow>
      (\<forall>p. Forked p \<in> set h \<and> Errored p \<notin> set h \<longrightarrow> Exited p \<in> set h \<or> p \<in> set exits))"
proof -
  let ?cs = "childProcesses (resources st)"
  have a: "fst (stop st) = [ClearPending] @ map OnExit (childProcesses (resources st))
      @ map Kill (childProcesses (resources st))" for st
    by (simp add: stop_def Let_def)
  have b: "pendingQueue (callFunnel (fst (snd (stop st)))) = []"
    by (simp add: stop_def Let_def clearPending_def)
  have c: "cancelled (callFunnel (fst (snd (stop st))))
     = cancelled (callFunnel st) @ pendingQueue (callFunnel st)"
    by (simp add: stop_def Let_def clearPending_def)
  have d: "running (callFunnel (fst (snd (stop st)))) = running (callFunnel st)"
    by (simp add: stop_def Let_def clearPending_def)
  have e: "resources (fst (snd (stop st))) = resources st"
    by (simp add: stop_def Let_def)
  have k: "Kill p \<in> set (fst (stop st)) \<longleftrightarrow> p \<in> set (childProcesses (resources st))" for p st
    unfolding a by auto
  have f: "\<forall>p \<in> set ?cs. Kill p \<in> set (fst (stop st))"
    by (simp add: k)
  have g: "\<forall>p. Kill p \<in> set (fst (stop st)) \<longrightarrow> p \<in> set ?cs"
    by (simp add: k)
  have r: "stop_resolves st exits \<longleftrightarrow> set (childProcesses (resources st)) \<subseteq> set exits" for st
    by (simp add: stop_resolves_def stop_def Let_def waiting_none)
  have i: "\<forall>p \<in> set ?cs. p \<notin> set exits \<longrightarrow> \<not> stop_resolves st exits"
    unfolding r by auto
  have none: "childProcesses (resources initialize) = []"
    by (simp add: initialize_def)
  have j: "\<forall>p. Forked p \<in> set h \<and> Errored p \<notin> set h \<and> Exited p \<notin> set h \<longrightarrow>
        Kill p \<in> set (fst (stop (after initialize h)))"
  proof (intro allI impI)
    fix p
    assume "Forked p \<in> set h \<and> Errored p \<notin> set h \<and> Exited p \<notin> set h"
    then have "p \<in> set (childProcesses (resources (after initialize h)))"
      using after_keeps [of p initialize h] by simp
    then show "Kill p \<in> set (fst (stop (after initialize h)))"
      by (simp add: k)
  qed
  have l: "\<forall>p. Kill p \<in> set (fst (stop (after initialize h))) \<longrightarrow> Forked p \<in> set h"
  proof (intro allI impI)
    fix p
    assume "Kill p \<in> set (fst (stop (after initialize h)))"
    then have "p \<in> set (childProcesses (resources (after initialize h)))"
      by (simp add: k)
    then show "Forked p \<in> set h"
      using after_forked [of p initialize h] by (simp add: none)
  qed
  have m: "stop_resolves (after initialize h) exits \<longrightarrow>
      (\<forall>p. Forked p \<in> set h \<and> Errored p \<notin> set h \<longrightarrow> Exited p \<in> set h \<or> p \<in> set exits)"
  proof (intro allI impI)
    fix p
    assume res: "stop_resolves (after initialize h) exits"
      and p: "Forked p \<in> set h \<and> Errored p \<notin> set h"
    show "Exited p \<in> set h \<or> p \<in> set exits"
    proof (cases "Exited p \<in> set h")
      case True
      then show ?thesis by simp
    next
      case False
      with p have "p \<in> set (childProcesses (resources (after initialize h)))"
        using after_keeps [of p initialize h] by simp
      moreover from res have "set (childProcesses (resources (after initialize h))) \<subseteq> set exits"
        by (simp add: r)
      ultimately show ?thesis by auto
    qed
  qed
  show ?thesis
    by (rule conjI [OF a conjI [OF b conjI [OF c conjI [OF d conjI [OF e conjI [OF f
          conjI [OF g conjI [OF r conjI [OF i conjI [OF j conjI [OF l m]]]]]]]]]]])
qed

text \<open>
  The amended C9 with two calls in flight and one waiting: the waiting call is
  cancelled, both children are killed, and \<^verbatim>\<open>stop\<close> is still pending when
  only the second child has exited. And after three children were forked and
  the third has exited: the two others are killed, and \<^verbatim>\<open>stop\<close> has
  resolved once both have exited.
\<close>

theorem stop_cancels_kills_waits_witness:
  "7 \<in> set (childProcesses (resources busy_state)) \<and>
   7 \<notin> set [8 :: nat] \<and>
   Kill 7 \<in> set (fst (stop busy_state)) \<and>
   \<not> stop_resolves busy_state [8] \<and>
   stop_resolves busy_state [8, 7] \<and>
   pendingQueue (callFunnel (fst (snd (stop busy_state)))) = [] \<and>
   cancelled (callFunnel (fst (snd (stop busy_state))))
     = [callRequest ''add'' [JStr ''1'', JStr ''2''] later_readings] \<and>
   length (running (callFunnel (fst (snd (stop busy_state))))) = 2 \<and>
   Forked 7 \<in> set [Forked 7, Forked 8, Forked 9, Exited 9] \<and>
   Errored 7 \<notin> set [Forked 7, Forked 8, Forked 9, Exited 9] \<and>
   Exited 7 \<notin> set [Forked 7, Forked 8, Forked 9, Exited 9] \<and>
   Kill 7 \<in> set (fst (stop (after initialize [Forked 7, Forked 8, Forked 9, Exited 9]))) \<and>
   fst (stop (after initialize [Forked 7, Forked 8, Forked 9, Exited 9]))
     = [ClearPending, OnExit 7, OnExit 8, Kill 7, Kill 8] \<and>
   stop_resolves (after initialize [Forked 7, Forked 8, Forked 9, Exited 9]) [8, 7]"
proof -
  let ?h = "[Forked 7, Forked 8, Forked 9, Exited 9]"
  have m: "7 \<in> set (childProcesses (resources busy_state))"
    by (simp add: busy_state_def)
  have n: "7 \<notin> set [8 :: nat]" by simp
  note w = stop_cancels_kills_waits [of busy_state "[8]" ?h]
  note v = stop_cancels_kills_waits [of busy_state "[8, 7]" ?h]
  note kills = conjunct1 [OF conjunct2 [OF conjunct2 [OF conjunct2 [OF conjunct2 [OF conjunct2 [OF w]]]]]]
  from kills m have k: "Kill 7 \<in> set (fst (stop busy_state))"
    by (rule bspec)
  note rest = conjunct2 [OF conjunct2 [OF conjunct2 [OF conjunct2 [OF conjunct2 [OF conjunct2
      [OF conjunct2 [OF w]]]]]]]
  note waits = conjunct1 [OF conjunct2 [OF rest]]
  from waits m have "7 \<notin> set [8 :: nat] \<longrightarrow> \<not> stop_resolves busy_state [8]"
    by (rule bspec)
  from this n have p: "\<not> stop_resolves busy_state [8]"
    by (rule mp)
  note iff = conjunct1 [OF conjunct2 [OF conjunct2 [OF conjunct2 [OF conjunct2 [OF conjunct2
      [OF conjunct2 [OF conjunct2 [OF v]]]]]]]]
  have "set (childProcesses (resources busy_state)) \<subseteq> set [8, 7]"
    by (simp add: busy_state_def)
  with iff have r: "stop_resolves busy_state [8, 7]"
    by (rule iffD2)
  note b = conjunct1 [OF conjunct2 [OF w]]
  have "cancelled (callFunnel (fst (snd (stop busy_state))))
     = cancelled (callFunnel busy_state) @ pendingQueue (callFunnel busy_state)"
    by (rule conjunct1 [OF conjunct2 [OF conjunct2 [OF w]]])
  then have c: "cancelled (callFunnel (fst (snd (stop busy_state))))
     = [callRequest ''add'' [JStr ''1'', JStr ''2''] later_readings]"
    by (simp add: busy_state_def)
  have "running (callFunnel (fst (snd (stop busy_state)))) = running (callFunnel busy_state)"
    by (rule conjunct1 [OF conjunct2 [OF conjunct2 [OF conjunct2 [OF w]]]])
  then have d: "length (running (callFunnel (fst (snd (stop busy_state))))) = 2"
    by (simp add: busy_state_def)
  have h1: "Forked 7 \<in> set ?h" by simp
  have h2: "Errored 7 \<notin> set ?h" by simp
  have h3: "Exited 7 \<notin> set ?h" by simp
  note forked = conjunct1 [OF conjunct2 [OF conjunct2 [OF rest]]]
  from forked have "Forked 7 \<in> set ?h \<and> Errored 7 \<notin> set ?h \<and> Exited 7 \<notin> set ?h \<longrightarrow>
        Kill 7 \<in> set (fst (stop (after initialize ?h)))"
    by (rule spec)
  from this conjI [OF h1 conjI [OF h2 h3]]
  have k2: "Kill 7 \<in> set (fst (stop (after initialize ?h)))"
    by (rule mp)
  have t: "fst (stop (after initialize ?h)) = [ClearPending, OnExit 7, OnExit 8, Kill 7, Kill 8]"
    by (simp add: stop_def Let_def initialize_def add_child_def delete_child_def clearPending_def)
  have r2: "stop_resolves (after initialize ?h) [8, 7]"
    by (simp add: stop_resolves_def stop_def Let_def initialize_def add_child_def delete_child_def
        clearPending_def)
  show ?thesis
    by (rule conjI [OF m conjI [OF n conjI [OF k conjI [OF p conjI [OF r conjI [OF b conjI [OF c
          conjI [OF d conjI [OF h1 conjI [OF h2 conjI [OF h3 conjI [OF k2 conjI [OF t r2]]]]]]]]]]]]])
qed

end
